(* ===== verification/Prelude.thy ===== *)
theory Prelude
  imports Main "HOL-Library.Char_ord" "HOL-Library.List_Lexorder"
    "HOL-Library.Product_Lexorder" "HOL-Library.Multiset"
begin

text \<open>
  What every part of the model shares: Go's error values, the result of a Go call
  (a value, an error, or a panic), the combinators a translated function body is written
  with, and the rules that let a property of every primitive step be lifted to a whole
  body.

  A Go function \<open>func f(args) (T, error)\<close> that touches the outside world is a HOL
  function \<open>f :: args \<Rightarrow> ('s, 't) go\<close>, that is, a function from the state of the world to
  a result and the new state.
\<close>

section \<open>Error values\<close>

text \<open>
  Strings are lists of bytes, as in Go. Error numbers are those the program can meet in the
  \<open>os\<close> package; the text of each is the one the Go runtime prints on Linux.
\<close>

datatype errno =
    ENOENT | EEXIST | ENOTDIR | EISDIR | ENOTEMPTY | ELOOP | ENAMETOOLONG | EINVAL
  | EACCES | EPERM | EIO | ENOSPC | EMFILE

fun errno_text :: "errno \<Rightarrow> string" where
  "errno_text ENOENT = ''no such file or directory''"
| "errno_text EEXIST = ''file exists''"
| "errno_text ENOTDIR = ''not a directory''"
| "errno_text EISDIR = ''is a directory''"
| "errno_text ENOTEMPTY = ''directory not empty''"
| "errno_text ELOOP = ''too many levels of symbolic links''"
| "errno_text ENAMETOOLONG = ''file name too long''"
| "errno_text EINVAL = ''invalid argument''"
| "errno_text EACCES = ''permission denied''"
| "errno_text EPERM = ''operation not permitted''"
| "errno_text EIO = ''input/output error''"
| "errno_text ENOSPC = ''no space left on device''"
| "errno_text EMFILE = ''too many open files''"

text \<open>
  The error values the program compares by identity (with \<open>errors.Is\<close>):
  \<open>io.EOF\<close>, \<open>os.ErrNotExist\<close> and the two of \<open>lib/ssh/scp.go\<close>.
\<close>

datatype sentinel = ErrEOF | ErrNotExist | ErrSkipDir | ErrNotADir

fun sentinel_text :: "sentinel \<Rightarrow> string" where
  "sentinel_text ErrEOF = ''EOF''"
| "sentinel_text ErrNotExist = ''file does not exist''"
| "sentinel_text ErrSkipDir = ''skip this directory''"
| "sentinel_text ErrNotADir = ''the given path is not a directory''"

text \<open>
  \<open>ErrNew\<close> is \<open>errors.New\<close>, and also \<open>fmt.Errorf\<close> without a \<open>%w\<close> verb, which
  formats its arguments and forgets them. \<open>ErrWrap\<close> is \<open>fmt.Errorf\<close> with one
  \<open>%w\<close>: text before, the wrapped error, text after. \<open>ErrJoin\<close> is the value
  \<open>errors.Join\<close> returns. \<open>ErrPath\<close> is an \<open>*fs.PathError\<close>. \<open>ErrExit\<close> is an
  \<open>*ssh.ExitError\<close>.
\<close>

datatype goerr =
    ErrNew string
  | ErrSentinel sentinel
  | ErrPath string string errno
  | ErrExit int string
  | ErrWrap string goerr string
  | ErrJoin "goerr list"

abbreviation newline :: string where
  "newline \<equiv> [CHR 0x0A]"

fun str_join :: "string \<Rightarrow> string list \<Rightarrow> string" where
  "str_join sep [] = []"
| "str_join sep [x] = x"
| "str_join sep (x # y # zs) = x @ sep @ str_join sep (y # zs)"

fun error_text :: "goerr \<Rightarrow> string" where
  "error_text (ErrNew s) = s"
| "error_text (ErrSentinel s) = sentinel_text s"
| "error_text (ErrPath operation p e) = operation @ '' '' @ p @ '': '' @ errno_text e"
| "error_text (ErrExit n s) = s"
| "error_text (ErrWrap a e b) = a @ error_text e @ b"
| "error_text (ErrJoin es) = str_join newline (map error_text es)"

text \<open>\<open>errors.Is\<close> walks the \<open>Unwrap\<close> chain, through joined errors as well.\<close>

fun errors_is :: "goerr \<Rightarrow> sentinel \<Rightarrow> bool" where
  "errors_is (ErrNew s) t = False"
| "errors_is (ErrSentinel s) t = (s = t)"
| "errors_is (ErrPath operation p e) t = (e = ENOENT \<and> t = ErrNotExist)"
| "errors_is (ErrExit n s) t = False"
| "errors_is (ErrWrap a e b) t = errors_is e t"
| "errors_is (ErrJoin es) t = list_ex (\<lambda>e. errors_is e t) es"

text \<open>\<open>fmt.Errorf("... %v", err)\<close> keeps the text and drops the chain.\<close>

definition errorf_v :: "string \<Rightarrow> goerr \<Rightarrow> goerr" where
  "errorf_v s e = ErrNew (s @ error_text e)"

definition errorf_w :: "string \<Rightarrow> goerr \<Rightarrow> goerr" where
  "errorf_w s e = ErrWrap s e []"

text \<open>\<open>errors.Join\<close> of two possibly nil errors: nil when both are, else a joined error of
  the ones that are not.\<close>

fun errors_join :: "goerr option \<Rightarrow> goerr option \<Rightarrow> goerr option" where
  "errors_join None None = None"
| "errors_join (Some a) None = Some (ErrJoin [a])"
| "errors_join None (Some b) = Some (ErrJoin [b])"
| "errors_join (Some a) (Some b) = Some (ErrJoin [a, b])"

lemma errors_is_errorf_v [simp]: "\<not> errors_is (errorf_v s e) t"
  by (simp add: errorf_v_def)

lemma errors_is_errorf_w [simp]: "errors_is (errorf_w s e) t = errors_is e t"
  by (simp add: errorf_w_def)

lemma errors_join_None_iff [simp]: "errors_join a b = None \<longleftrightarrow> a = None \<and> b = None"
  by (cases a; cases b) auto


section \<open>Results and bodies\<close>

datatype 'a res = Ok 'a | Fail goerr | Panic

type_synonym ('s, 'a) go = "'s \<Rightarrow> 'a res \<times> 's"

definition ret :: "'a \<Rightarrow> ('s, 'a) go" where
  "ret x s = (Ok x, s)"

definition throw :: "goerr \<Rightarrow> ('s, 'a) go" where
  "throw e s = (Fail e, s)"

definition gopanic :: "('s, 'a) go" where
  "gopanic s = (Panic, s)"

text \<open>\<open>x, err := m(); if err != nil { return err }; f(x)\<close>\<close>

definition bnd :: "('s, 'a) go \<Rightarrow> ('a \<Rightarrow> ('s, 'b) go) \<Rightarrow> ('s, 'b) go" where
  "bnd m f s = (case m s of
     (Ok x, t) \<Rightarrow> f x t
   | (Fail e, t) \<Rightarrow> (Fail e, t)
   | (Panic, t) \<Rightarrow> (Panic, t))"

text \<open>\<open>if err := m(); err != nil { return h(err) }\<close>, keeping the value otherwise.\<close>

definition handle :: "('s, 'a) go \<Rightarrow> (goerr \<Rightarrow> ('s, 'a) go) \<Rightarrow> ('s, 'a) go" where
  "handle m h s = (case m s of
     (Ok x, t) \<Rightarrow> (Ok x, t)
   | (Fail e, t) \<Rightarrow> h e t
   | (Panic, t) \<Rightarrow> (Panic, t))"

text \<open>\<open>if err != nil { return fmt.Errorf(..., err) }\<close>: the error is rewritten by \<open>f\<close>.\<close>

definition map_err :: "(goerr \<Rightarrow> goerr) \<Rightarrow> ('s, 'a) go \<Rightarrow> ('s, 'a) go" where
  "map_err f m = handle m (\<lambda>e. throw (f e))"

text \<open>\<open>x, err := m()\<close> with the error inspected later on.\<close>

definition attempt :: "('s, 'a) go \<Rightarrow> ('s, goerr + 'a) go" where
  "attempt m s = (case m s of
     (Ok x, t) \<Rightarrow> (Ok (Inr x), t)
   | (Fail e, t) \<Rightarrow> (Ok (Inl e), t)
   | (Panic, t) \<Rightarrow> (Panic, t))"

text \<open>
  \<open>defer func() { _ = c() }()\<close>: the deferred call runs whether \<open>m\<close> returns or panics, and
  its error is dropped.
\<close>

definition defer_ignore :: "('s, 'a) go \<Rightarrow> ('s, 'b) go \<Rightarrow> ('s, 'a) go" where
  "defer_ignore m c s = (case m s of (r, t) \<Rightarrow>
     (case c t of (Panic, u) \<Rightarrow> (Panic, u) | (_, u) \<Rightarrow> (r, u)))"

text \<open>
  \<open>defer func() { if cErr := c(); keep(cErr) { err = errors.Join(err, cErr) } }()\<close> with
  \<open>err\<close> the named result.
\<close>

definition defer_join ::
  "(goerr \<Rightarrow> bool) \<Rightarrow> ('s, 'a) go \<Rightarrow> ('s, 'b) go \<Rightarrow> ('s, 'a) go" where
  "defer_join keep m c s = (case m s of (r, t) \<Rightarrow>
     (case c t of
        (Panic, u) \<Rightarrow> (Panic, u)
      | (Ok _, u) \<Rightarrow> (r, u)
      | (Fail ce, u) \<Rightarrow>
          (if keep ce then
             (case r of
                Ok _ \<Rightarrow> (Fail (ErrJoin [ce]), u)
              | Fail e \<Rightarrow> (Fail (ErrJoin [e, ce]), u)
              | Panic \<Rightarrow> (Panic, u))
           else (r, u))))"

text \<open>
  \<open>defer func() { err = errors.Join(err, c()) }()\<close>, which rewraps \<open>err\<close> even when
  \<open>c\<close> succeeds.
\<close>

definition defer_errors_join :: "('s, 'a) go \<Rightarrow> ('s, 'b) go \<Rightarrow> ('s, 'a) go" where
  "defer_errors_join m c s = (case m s of (r, t) \<Rightarrow>
     (case c t of
        (Panic, u) \<Rightarrow> (Panic, u)
      | (Ok _, u) \<Rightarrow> ((case r of Fail e \<Rightarrow> Fail (ErrJoin [e]) | _ \<Rightarrow> r), u)
      | (Fail ce, u) \<Rightarrow>
          ((case r of Ok _ \<Rightarrow> Fail (ErrJoin [ce]) | Fail e \<Rightarrow> Fail (ErrJoin [e, ce]) | Panic \<Rightarrow> Panic), u)))"

text \<open>\<open>for _, x := range xs { if err := f(x); err != nil { return err } }\<close>\<close>

fun for_each :: "'a list \<Rightarrow> ('a \<Rightarrow> ('s, unit) go) \<Rightarrow> ('s, unit) go" where
  "for_each [] f = ret ()"
| "for_each (x # xs) f = bnd (f x) (\<lambda>_. for_each xs f)"

text \<open>The same with a value carried from one iteration to the next.\<close>

fun go_fold :: "('x \<Rightarrow> 'a \<Rightarrow> ('s, 'a) go) \<Rightarrow> 'x list \<Rightarrow> 'a \<Rightarrow> ('s, 'a) go" where
  "go_fold f [] a = ret a"
| "go_fold f (x # xs) a = bnd (f x a) (\<lambda>b. go_fold f xs b)"

definition get_state :: "('s, 's) go" where
  "get_state s = (Ok s, s)"

definition modify :: "('s \<Rightarrow> 's) \<Rightarrow> ('s, unit) go" where
  "modify f s = (Ok (), f s)"

text \<open>An error that may be nil, as the result of a call that returns only an error.\<close>

definition check_err :: "goerr option \<Rightarrow> ('s, unit) go" where
  "check_err e = (case e of None \<Rightarrow> ret () | Some x \<Rightarrow> throw x)"


section \<open>Evaluation and inversion of bodies\<close>

named_theorems go_eval

lemmas go_prims [go_eval] =
  ret_def throw_def gopanic_def get_state_def modify_def

lemma ret_Ok_iff [simp]: "ret x s = (Ok y, t) \<longleftrightarrow> x = y \<and> s = t"
  by (simp add: ret_def)

lemma ret_not_Fail [simp]: "ret x s \<noteq> (Fail e, t)"
  by (simp add: ret_def)

lemma ret_not_Panic [simp]: "ret x s \<noteq> (Panic, t)"
  by (simp add: ret_def)

lemma throw_not_Ok [simp]: "throw e s \<noteq> (Ok y, t)"
  by (simp add: throw_def)

lemma throw_not_Panic [simp]: "throw e s \<noteq> (Panic, t)"
  by (simp add: throw_def)

lemma throw_Fail_iff [simp]: "throw e s = (Fail e', t) \<longleftrightarrow> e = e' \<and> s = t"
  by (simp add: throw_def)

lemma gopanic_not_Ok [simp]: "gopanic s \<noteq> (Ok y, t)"
  by (simp add: gopanic_def)

lemma gopanic_not_Fail [simp]: "gopanic s \<noteq> (Fail e, t)"
  by (simp add: gopanic_def)

lemma modify_Ok_iff [simp]: "modify f s = (Ok y, t) \<longleftrightarrow> t = f s"
  by (auto simp: modify_def)

lemma get_state_Ok_iff [simp]: "get_state s = (Ok y, t) \<longleftrightarrow> y = s \<and> t = s"
  by (auto simp: get_state_def)

lemma bnd_ret [simp]: "bnd (ret x) f = f x"
  by (simp add: bnd_def ret_def fun_eq_iff)

lemma bnd_throw [simp]: "bnd (throw e) f = throw e"
  by (simp add: bnd_def throw_def fun_eq_iff)

lemma bnd_gopanic [simp]: "bnd gopanic f = gopanic"
  by (simp add: bnd_def gopanic_def fun_eq_iff)

lemma bnd_OkI: "m s = (Ok x, t) \<Longrightarrow> bnd m f s = f x t"
  by (simp add: bnd_def)

lemma bnd_FailI: "m s = (Fail e, t) \<Longrightarrow> bnd m f s = (Fail e, t)"
  by (simp add: bnd_def)

lemma bnd_PanicI: "m s = (Panic, t) \<Longrightarrow> bnd m f s = (Panic, t)"
  by (simp add: bnd_def)

lemma map_err_OkI: "m s = (Ok x, t) \<Longrightarrow> map_err f m s = (Ok x, t)"
  by (simp add: map_err_def handle_def)

lemma map_err_FailI: "m s = (Fail e, t) \<Longrightarrow> map_err f m s = (Fail (f e), t)"
  by (simp add: map_err_def handle_def throw_def)

lemma map_err_PanicI: "m s = (Panic, t) \<Longrightarrow> map_err f m s = (Panic, t)"
  by (simp add: map_err_def handle_def)

lemma attempt_OkI: "m s = (Ok x, t) \<Longrightarrow> attempt m s = (Ok (Inr x), t)"
  by (simp add: attempt_def)

lemma attempt_FailI: "m s = (Fail e, t) \<Longrightarrow> attempt m s = (Ok (Inl e), t)"
  by (simp add: attempt_def)

lemmas go_steps = bnd_OkI bnd_FailI bnd_PanicI map_err_OkI map_err_FailI map_err_PanicI
  attempt_OkI attempt_FailI

lemma bnd_assoc: "bnd (bnd m f) g = bnd m (\<lambda>x. bnd (f x) g)"
  by (simp add: bnd_def fun_eq_iff split: prod.splits res.splits)

lemma bnd_OkE [elim!]:
  assumes "bnd m f s = (Ok y, u)"
  obtains x t where "m s = (Ok x, t)" and "f x t = (Ok y, u)"
  using assms by (auto simp: bnd_def split: prod.splits res.splits)

lemma handle_OkE:
  assumes "handle m h s = (Ok y, u)"
  obtains "m s = (Ok y, u)" | e t where "m s = (Fail e, t)" and "h e t = (Ok y, u)"
  using assms by (auto simp: handle_def split: prod.splits res.splits)

lemma map_err_Ok_iff [simp]: "map_err f m s = (Ok y, u) \<longleftrightarrow> m s = (Ok y, u)"
  by (auto simp: map_err_def handle_def throw_def split: prod.splits res.splits)

lemma map_err_Panic_iff [simp]: "map_err f m s = (Panic, u) \<longleftrightarrow> m s = (Panic, u)"
  by (auto simp: map_err_def handle_def throw_def split: prod.splits res.splits)

lemma map_err_Fail_iff: "map_err f m s = (Fail e, u) \<longleftrightarrow> (\<exists>e'. m s = (Fail e', u) \<and> e = f e')"
  by (auto simp: map_err_def handle_def throw_def split: prod.splits res.splits)

lemma snd_map_err [simp]: "snd (map_err f m s) = snd (m s)"
  by (simp add: map_err_def handle_def throw_def split: prod.splits res.splits)

lemma attempt_Inr_iff [simp]: "attempt m s = (Ok (Inr x), u) \<longleftrightarrow> m s = (Ok x, u)"
  by (auto simp: attempt_def split: prod.splits res.splits)

lemma attempt_Inl_iff [simp]: "attempt m s = (Ok (Inl e), u) \<longleftrightarrow> m s = (Fail e, u)"
  by (auto simp: attempt_def split: prod.splits res.splits)

lemma attempt_not_Fail [simp]: "attempt m s \<noteq> (Fail e, u)"
  by (auto simp: attempt_def split: prod.splits res.splits)

lemma snd_attempt [simp]: "snd (attempt m s) = snd (m s)"
  by (simp add: attempt_def split: prod.splits res.splits)

lemma defer_ignore_OkE:
  assumes "defer_ignore m c s = (Ok y, u)"
  obtains t where "m s = (Ok y, t)" and "snd (c t) = u"
  using assms by (auto simp: defer_ignore_def split: prod.splits res.splits)

lemma defer_join_OkE:
  assumes "defer_join keep m c s = (Ok y, u)"
  obtains t where "m s = (Ok y, t)" and "snd (c t) = u" and "fst (c t) \<noteq> Panic"
    and "\<And>e. fst (c t) = Fail e \<Longrightarrow> \<not> keep e"
  using assms by (auto simp: defer_join_def split: prod.splits res.splits if_splits)

lemma defer_errors_join_OkE:
  assumes "defer_errors_join m c s = (Ok y, u)"
  obtains t z where "m s = (Ok y, t)" and "c t = (Ok z, u)"
  using assms by (auto simp: defer_errors_join_def split: prod.splits res.splits)

lemma defer_OkI:
  assumes "m s = (Ok x, t)" and "c t = (Ok z, u)"
  shows "defer_errors_join m c s = (Ok x, u)" "defer_join keep m c s = (Ok x, u)"
    "defer_ignore m c s = (Ok x, u)"
  using assms by (simp_all add: defer_errors_join_def defer_join_def defer_ignore_def)

lemma check_err_Ok_iff [simp]: "check_err e s = (Ok y, t) \<longleftrightarrow> e = None \<and> s = t"
  by (auto simp: check_err_def ret_def throw_def split: option.splits)

lemma for_each_append: "for_each (xs @ ys) f = bnd (for_each xs f) (\<lambda>_. for_each ys f)"
  by (induction xs) (simp_all add: bnd_assoc)

text \<open>A loop that returned normally ran every iteration: an invariant is carried along.\<close>

lemma for_each_invariant:
  assumes "for_each xs f s = (Ok (), u)" and "I [] s"
    and "\<And>pre x post a b. xs = pre @ x # post \<Longrightarrow> I pre a \<Longrightarrow> f x a = (Ok (), b)
           \<Longrightarrow> I (pre @ [x]) b"
  shows "I xs u"
proof -
  have "for_each ys f t = (Ok (), u) \<Longrightarrow> I pre t \<Longrightarrow> xs = pre @ ys \<Longrightarrow> I xs u" for pre ys t
  proof (induction ys arbitrary: pre t)
    case Nil
    then show ?case by simp
  next
    case (Cons y ys)
    from Cons.prems(1) obtain t' where "f y t = (Ok (), t')" and rest: "for_each ys f t' = (Ok (), u)"
      by auto
    then have "I (pre @ [y]) t'" using assms(3) Cons.prems(2,3) by blast
    then show ?case using Cons.IH [OF rest, of "pre @ [y]"] Cons.prems(3) by simp
  qed
  from this [of xs s "[]"] assms(1,2) show ?thesis by simp
qed


text \<open>Two loops whose bodies agree as long as an invariant of the state holds.\<close>

lemma go_fold_cong:
  assumes "I s" and "\<And>x a s. x \<in> set xs \<Longrightarrow> I s \<Longrightarrow> f x a s = g x a s \<and> I (snd (f x a s))"
  shows "go_fold f xs a s = go_fold g xs a s"
  using assms
proof (induction xs arbitrary: a s)
  case Nil
  then show ?case by simp
next
  case (Cons x xs)
  have "f x a s = g x a s \<and> I (snd (f x a s))" using Cons.prems(1) by (intro Cons.prems(2)) simp_all
  then have "f x a s = g x a s" and "I (snd (f x a s))" by blast+
  moreover have "go_fold f xs b (snd (f x a s)) = go_fold g xs b (snd (f x a s))" for b
    using calculation(2) by (rule Cons.IH) (rule Cons.prems(2), simp)
  ultimately show ?case by (auto simp: bnd_def split: prod.splits res.splits)
qed


section \<open>Relations kept by every step of a body\<close>

text \<open>
  \<open>effects R m\<close>: whatever \<open>m\<close> returns, the states before and after are related by
  \<open>R\<close>. For a reflexive and transitive \<open>R\<close> (a frame condition, an invariant read as a
  relation, a growing log), the combinators keep it, so a body has it when its primitive
  steps do.
\<close>

definition effects :: "('s \<Rightarrow> 's \<Rightarrow> bool) \<Rightarrow> ('s, 'a) go \<Rightarrow> bool" where
  "effects R m \<longleftrightarrow> (\<forall>s. R s (snd (m s)))"

lemma effectsI: "(\<And>s. R s (snd (m s))) \<Longrightarrow> effects R m"
  by (simp add: effects_def)

lemma effectsD: "effects R m \<Longrightarrow> m s = (r, t) \<Longrightarrow> R s t"
  by (metis effects_def snd_conv)

lemma effects_snd: "effects R m \<Longrightarrow> R s (snd (m s))"
  by (simp add: effects_def)

locale effect_rel =
  fixes R :: "'s \<Rightarrow> 's \<Rightarrow> bool"
  assumes rel_refl: "R s s"
    and rel_trans: "R a b \<Longrightarrow> R b c \<Longrightarrow> R a c"
begin

lemma keeps_ret [simp, intro]: "effects R (ret x)"
  by (simp add: effects_def ret_def rel_refl)

lemma keeps_throw [simp, intro]: "effects R (throw e)"
  by (simp add: effects_def throw_def rel_refl)

lemma keeps_gopanic [simp, intro]: "effects R gopanic"
  by (simp add: effects_def gopanic_def rel_refl)

lemma keeps_get_state [simp, intro]: "effects R get_state"
  by (simp add: effects_def get_state_def rel_refl)

lemma keeps_check_err [simp, intro]: "effects R (check_err e)"
  by (cases e) (simp_all add: check_err_def)

lemma keeps_bnd [intro]:
  assumes "effects R m" and "\<And>x. effects R (f x)"
  shows "effects R (bnd m f)"
proof (rule effectsI)
  fix s
  have "R s (snd (m s))" using assms(1) by (rule effects_snd)
  moreover have "R t (snd (f x t))" for x t using assms(2) by (rule effects_snd)
  ultimately show "R s (snd (bnd m f s))"
    by (auto simp: bnd_def split: prod.splits res.splits intro: rel_trans)
qed

lemma keeps_bnd_Ok:
  assumes "effects R m" and "\<And>x s t. m s = (Ok x, t) \<Longrightarrow> R t (snd (f x t))"
  shows "effects R (bnd m f)"
proof (rule effectsI)
  fix s
  have "R s (snd (m s))" using assms(1) by (rule effects_snd)
  then show "R s (snd (bnd m f s))"
    using assms(2)
    by (auto simp: bnd_def split: prod.splits res.splits intro: rel_trans)
qed

text \<open>The same, related to the state before \<open>m\<close>.\<close>

lemma keeps_bnd_before:
  assumes "effects R m" and "\<And>x s t. m s = (Ok x, t) \<Longrightarrow> R s (snd (f x t))"
  shows "effects R (bnd m f)"
proof (rule effectsI)
  fix s
  have "R s (snd (m s))" using assms(1) by (rule effects_snd)
  then show "R s (snd (bnd m f s))"
    using assms(2) by (auto simp: bnd_def split: prod.splits res.splits)
qed

lemma rel_bnd:
  assumes "R s (snd (m s))" and "\<And>x t. m s = (Ok x, t) \<Longrightarrow> R t (snd (f x t))"
  shows "R s (snd (bnd m f s))"
  using assms by (auto simp: bnd_def split: prod.splits res.splits intro: rel_trans)

lemma keeps_handle [intro]:
  assumes "effects R m" and "\<And>e. effects R (h e)"
  shows "effects R (handle m h)"
proof (rule effectsI)
  fix s
  have "R s (snd (m s))" using assms(1) by (rule effects_snd)
  moreover have "R t (snd (h e t))" for e t using assms(2) by (rule effects_snd)
  ultimately show "R s (snd (handle m h s))"
    by (auto simp: handle_def split: prod.splits res.splits intro: rel_trans)
qed

lemma keeps_map_err [intro]: "effects R m \<Longrightarrow> effects R (map_err f m)"
  by (simp add: effects_def)

lemma keeps_attempt [intro]: "effects R m \<Longrightarrow> effects R (attempt m)"
  by (simp add: effects_def)

lemma keeps_defer_ignore [intro]:
  assumes "effects R m" and "effects R c"
  shows "effects R (defer_ignore m c)"
proof (rule effectsI)
  fix s
  have "R s (snd (m s))" and "R (snd (m s)) (snd (c (snd (m s))))"
    using assms by (auto intro: effects_snd)
  then have "R s (snd (c (snd (m s))))" by (rule rel_trans)
  then show "R s (snd (defer_ignore m c s))"
    by (auto simp: defer_ignore_def split: prod.splits res.splits)
qed

lemma keeps_defer_join [intro]:
  assumes "effects R m" and "effects R c"
  shows "effects R (defer_join keep m c)"
proof (rule effectsI)
  fix s
  have "R s (snd (m s))" and "R (snd (m s)) (snd (c (snd (m s))))"
    using assms by (auto intro: effects_snd)
  then have "R s (snd (c (snd (m s))))" by (rule rel_trans)
  then show "R s (snd (defer_join keep m c s))"
    by (auto simp: defer_join_def split: prod.splits res.splits)
qed

lemma keeps_defer_errors_join [intro]:
  assumes "effects R m" and "effects R c"
  shows "effects R (defer_errors_join m c)"
proof (rule effectsI)
  fix s
  have "R s (snd (m s))" and "R (snd (m s)) (snd (c (snd (m s))))"
    using assms by (auto intro: effects_snd)
  then have "R s (snd (c (snd (m s))))" by (rule rel_trans)
  then show "R s (snd (defer_errors_join m c s))"
    by (auto simp: defer_errors_join_def split: prod.splits res.splits)
qed

lemma keeps_for_each [intro]:
  "(\<And>x. x \<in> set xs \<Longrightarrow> effects R (f x)) \<Longrightarrow> effects R (for_each xs f)"
  by (induction xs) auto

lemma keeps_go_fold [intro]:
  "(\<And>x a. x \<in> set xs \<Longrightarrow> effects R (f x a)) \<Longrightarrow> effects R (go_fold f xs a)"
  by (induction xs arbitrary: a) auto

lemma keeps_if [intro]:
  "(b \<Longrightarrow> effects R m) \<Longrightarrow> (\<not> b \<Longrightarrow> effects R n) \<Longrightarrow> effects R (if b then m else n)"
  by simp

lemma keeps_case_sum [intro]:
  "(\<And>e. effects R (f e)) \<Longrightarrow> (\<And>x. effects R (g x)) \<Longrightarrow>
     effects R (case r of Inl e \<Rightarrow> f e | Inr x \<Rightarrow> g x)"
  by (cases r) simp_all

lemma keeps_case_option [intro]:
  "effects R m \<Longrightarrow> (\<And>x. effects R (g x)) \<Longrightarrow> effects R (case r of None \<Rightarrow> m | Some x \<Rightarrow> g x)"
  by (cases r) simp_all

lemma keeps_case_prod [intro]:
  "(\<And>x y. effects R (g x y)) \<Longrightarrow> effects R (case r of (x, y) \<Rightarrow> g x y)"
  by (cases r) simp_all

lemma keeps_modify: "(\<And>s. R s (f s)) \<Longrightarrow> effects R (modify f)"
  by (simp add: effects_def modify_def)

lemmas keeps_combinators =
  keeps_ret keeps_throw keeps_gopanic keeps_get_state keeps_check_err keeps_bnd keeps_handle
  keeps_map_err keeps_attempt keeps_defer_ignore keeps_defer_join keeps_defer_errors_join
  keeps_for_each keeps_go_fold keeps_if keeps_case_sum keeps_case_option keeps_case_prod

end

end
