(* ===== verification/GoStrings.thy ===== *)
theory GoStrings
  imports Prelude
begin

text \<open>
  The functions of Go's \<open>strings\<close> and \<open>strconv\<close> packages that the program uses, on
  strings as byte lists. Case conversion and white space are those of ASCII: the model does
  not decode UTF-8, so a letter or a space outside ASCII is an ordinary byte here.
\<close>

section \<open>Searching and replacing\<close>

fun split_on :: "char \<Rightarrow> string \<Rightarrow> string list" where
  "split_on c [] = [[]]"
| "split_on c (x # xs) =
     (if x = c then [] # split_on c xs
      else (case split_on c xs of [] \<Rightarrow> [[x]] | y # ys \<Rightarrow> (x # y) # ys))"

definition has_prefix :: "string \<Rightarrow> string \<Rightarrow> bool" where
  "has_prefix s p \<longleftrightarrow> take (length p) s = p"

definition has_suffix :: "string \<Rightarrow> string \<Rightarrow> bool" where
  "has_suffix s p \<longleftrightarrow> length p \<le> length s \<and> drop (length s - length p) s = p"

fun contains :: "string \<Rightarrow> string \<Rightarrow> bool" where
  "contains [] p = (p = [])"
| "contains (x # xs) p = (has_prefix (x # xs) p \<or> contains xs p)"

definition trim_left :: "(char \<Rightarrow> bool) \<Rightarrow> string \<Rightarrow> string" where
  "trim_left P s = dropWhile P s"

definition trim_right :: "(char \<Rightarrow> bool) \<Rightarrow> string \<Rightarrow> string" where
  "trim_right P s = rev (dropWhile P (rev s))"

definition trim :: "(char \<Rightarrow> bool) \<Rightarrow> string \<Rightarrow> string" where
  "trim P s = trim_right P (trim_left P s)"

definition is_space :: "char \<Rightarrow> bool" where
  "is_space c \<longleftrightarrow> c \<in> {CHR 0x09, CHR 0x0A, CHR 0x0B, CHR 0x0C, CHR 0x0D, CHR 0x20}"

definition trim_space :: "string \<Rightarrow> string" where
  "trim_space s = trim is_space s"

text \<open>\<open>strings.ReplaceAll(s, old, new)\<close> for one-byte \<open>old\<close> and \<open>new\<close>.\<close>

definition replace_char :: "char \<Rightarrow> char \<Rightarrow> string \<Rightarrow> string" where
  "replace_char c d s = map (\<lambda>x. if x = c then d else x) s"

definition lower :: "char \<Rightarrow> char" where
  "lower c = (if CHR ''A'' \<le> c \<and> c \<le> CHR ''Z'' then char_of ((of_char c :: nat) + 32) else c)"

definition upper :: "char \<Rightarrow> char" where
  "upper c = (if CHR ''a'' \<le> c \<and> c \<le> CHR ''z'' then char_of ((of_char c :: nat) - 32) else c)"

definition to_lower :: "string \<Rightarrow> string" where
  "to_lower s = map lower s"

definition to_upper :: "string \<Rightarrow> string" where
  "to_upper s = map upper s"

section \<open>Numbers\<close>

definition is_digit :: "char \<Rightarrow> bool" where
  "is_digit c \<longleftrightarrow> CHR ''0'' \<le> c \<and> c \<le> CHR ''9''"

definition digit_val :: "char \<Rightarrow> nat" where
  "digit_val c = of_char c - 48"

definition digit_char :: "nat \<Rightarrow> char" where
  "digit_char n = char_of (48 + n)"

fun show_nat :: "nat \<Rightarrow> string" where
  "show_nat n = (if n < 10 then [digit_char n] else show_nat (n div 10) @ [digit_char (n mod 10)])"

declare show_nat.simps [simp del]

definition show_int :: "int \<Rightarrow> string" where
  "show_int i = (if i < 0 then ''-'' @ show_nat (nat (- i)) else show_nat (nat i))"

definition nat_of_digits :: "nat \<Rightarrow> string \<Rightarrow> nat" where
  "nat_of_digits b s = foldl (\<lambda>a c. b * a + digit_val c) 0 s"

text \<open>Zero-padded decimal of at least \<open>w\<close> digits, as \<open>time.Format\<close> prints a field.\<close>

definition pad :: "nat \<Rightarrow> nat \<Rightarrow> string" where
  "pad w n = replicate (w - length (show_nat n)) (CHR ''0'') @ show_nat n"

section \<open>Facts about splitting and joining\<close>

lemma split_on_not_Nil [simp]: "split_on c s \<noteq> []"
  by (cases s) (auto split: list.splits)

lemma split_on_no_sep: "c \<notin> set s \<Longrightarrow> split_on c s = [s]"
  by (induction s) auto

lemma split_on_append_sep: "split_on c (a @ c # b) = split_on c a @ split_on c b"
  by (induction a) (auto split: list.splits)

lemma set_split_on: "x \<in> set (split_on c s) \<Longrightarrow> c \<notin> set x"
  by (induction s arbitrary: x) (auto split: list.splits if_splits)

lemma str_join_Cons: "xs \<noteq> [] \<Longrightarrow> str_join sep (x # xs) = x @ sep @ str_join sep xs"
  by (cases xs) auto

lemma str_join_append:
  "xs \<noteq> [] \<Longrightarrow> ys \<noteq> [] \<Longrightarrow> str_join sep (xs @ ys) = str_join sep xs @ sep @ str_join sep ys"
  by (induction xs rule: list_nonempty_induct) (simp_all add: str_join_Cons)

lemma split_on_str_join:
  "xs \<noteq> [] \<Longrightarrow> (\<And>x. x \<in> set xs \<Longrightarrow> c \<notin> set x) \<Longrightarrow> split_on c (str_join [c] xs) = xs"
proof (induction xs rule: list_nonempty_induct)
  case (single x)
  then show ?case by (simp add: split_on_no_sep)
next
  case (cons x xs)
  have "split_on c (str_join [c] (x # xs)) = split_on c (x @ c # str_join [c] xs)"
    using cons.hyps by (simp add: str_join_Cons)
  also have "\<dots> = split_on c x @ split_on c (str_join [c] xs)" by (rule split_on_append_sep)
  also have "\<dots> = x # xs" using cons by (simp add: split_on_no_sep)
  finally show ?case .
qed

lemma str_join_split_on: "str_join [c] (split_on c s) = s"
proof (induction s)
  case Nil
  then show ?case by simp
next
  case (Cons x s)
  obtain y ys where split: "split_on c s = y # ys" by (cases "split_on c s") auto
  with Cons show ?case by (cases ys) (auto simp: str_join_Cons)
qed

lemma has_suffix_iff: "has_suffix s p \<longleftrightarrow> (\<exists>a. s = a @ p)"
proof
  assume "has_suffix s p"
  then show "\<exists>a. s = a @ p"
    unfolding has_suffix_def by (metis append_take_drop_id)
qed (auto simp: has_suffix_def)

lemma has_prefix_iff: "has_prefix s p \<longleftrightarrow> (\<exists>b. s = p @ b)"
  unfolding has_prefix_def by (metis append_eq_conv_conj)

lemma has_suffix_append [simp]: "has_suffix (a @ p) p"
  by (auto simp: has_suffix_iff)

section \<open>Facts about decimals\<close>

lemma of_char_char_of_small: "n < 256 \<Longrightarrow> (of_char (char_of n :: char) :: nat) = n"
  by simp

lemma is_digit_digit_char: "n < 10 \<Longrightarrow> is_digit (digit_char n)"
  by (simp add: is_digit_def digit_char_def less_eq_char_def)

lemma digit_val_digit_char: "n < 10 \<Longrightarrow> digit_val (digit_char n) = n"
  by (simp add: digit_val_def digit_char_def)

lemma digit_val_bound: "is_digit c \<Longrightarrow> digit_val c < 10"
  by (auto simp: is_digit_def digit_val_def less_eq_char_def)

lemma digit_char_digit_val: "is_digit c \<Longrightarrow> digit_char (digit_val c) = c"
  by (simp add: is_digit_def digit_val_def digit_char_def less_eq_char_def)

lemma show_nat_not_Nil [simp]: "show_nat n \<noteq> []"
  by (subst show_nat.simps) auto

lemma show_nat_digits: "list_all is_digit (show_nat n)"
proof (induction n rule: show_nat.induct)
  case (1 n)
  show ?case
  proof (cases "n < 10")
    case True
    then show ?thesis by (simp add: show_nat.simps [of n] is_digit_digit_char)
  next
    case False
    with 1 show ?thesis by (simp add: show_nat.simps [of n] is_digit_digit_char)
  qed
qed

lemma nat_of_digits_snoc: "nat_of_digits b (s @ [c]) = b * nat_of_digits b s + digit_val c"
  by (simp add: nat_of_digits_def)

lemma nat_of_digits_show_nat: "nat_of_digits 10 (show_nat n) = n"
proof (induction n rule: show_nat.induct)
  case (1 n)
  show ?case
  proof (cases "n < 10")
    case True
    then show ?thesis
      by (simp add: show_nat.simps [of n] nat_of_digits_def digit_val_digit_char)
  next
    case False
    with 1 show ?thesis
      by (simp add: show_nat.simps [of n] nat_of_digits_snoc digit_val_digit_char)
  qed
qed

lemma nat_of_digits_zeros:
  "nat_of_digits b (replicate k (CHR ''0'') @ s) = nat_of_digits b s"
proof -
  have "foldl (\<lambda>a c. b * a + digit_val c) 0 (replicate k (CHR ''0'')) = 0"
    by (induction k) (simp_all add: digit_val_def)
  then show ?thesis by (simp add: nat_of_digits_def)
qed

lemma nat_of_digits_pad [simp]: "nat_of_digits 10 (pad w n) = n"
  by (simp add: pad_def nat_of_digits_zeros nat_of_digits_show_nat)

lemma pad_digits: "list_all is_digit (pad w n)"
  using show_nat_digits [of n]
  by (auto simp: pad_def list_all_iff is_digit_def)

lemma length_show_nat: "n < 10 ^ w \<Longrightarrow> 0 < w \<Longrightarrow> length (show_nat n) \<le> w"
proof (induction w arbitrary: n)
  case 0
  then show ?case by simp
next
  case (Suc w)
  show ?case
  proof (cases "n < 10")
    case True
    then show ?thesis by (simp add: show_nat.simps [of n])
  next
    case False
    with Suc.prems have "n div 10 < 10 ^ w" and "0 < w" by (auto intro: ccontr)
    then have "length (show_nat (n div 10)) \<le> w" by (rule Suc.IH)
    with False show ?thesis by (simp add: show_nat.simps [of n])
  qed
qed

lemma length_pad: "n < 10 ^ w \<Longrightarrow> 0 < w \<Longrightarrow> length (pad w n) = w"
  using length_show_nat [of n w] by (simp add: pad_def)

section \<open>Facts about trimming and case\<close>

lemma trim_hd_last:
  assumes "trim P s \<noteq> []"
  shows "\<not> P (hd (trim P s))" and "\<not> P (last (trim P s))"
proof -
  let ?t = "dropWhile P s"
  have eq: "trim P s = rev (dropWhile P (rev ?t))"
    by (simp add: trim_def trim_right_def trim_left_def)
  with assms have ne: "dropWhile P (rev ?t) \<noteq> []" by (simp del: dropWhile_eq_Nil_conv)
  then have "\<not> P (hd (dropWhile P (rev ?t)))" by (rule hd_dropWhile)
  with ne show "\<not> P (last (trim P s))" by (simp add: eq last_rev del: dropWhile_eq_Nil_conv)
  have "?t \<noteq> []" using ne by (metis dropWhile.simps(1) rev.simps(1))
  then have hd: "\<not> P (hd ?t)" by (rule hd_dropWhile)
  have split: "?t = trim P s @ rev (takeWhile P (rev ?t))"
    by (metis eq rev_append rev_rev_ident takeWhile_dropWhile_id)
  have "hd ?t = hd (trim P s)" by (subst split) (simp only: hd_append2 [OF assms])
  with hd show "\<not> P (hd (trim P s))" by simp
qed

lemma dropWhile_hd: "s = [] \<or> \<not> P (hd s) \<Longrightarrow> dropWhile P s = s"
  by (cases s) auto

lemma trim_id: "s = [] \<or> (\<not> P (hd s) \<and> \<not> P (last s)) \<Longrightarrow> trim P s = s"
  by (auto simp: trim_def trim_right_def trim_left_def dropWhile_hd hd_rev)

lemma trim_idem: "trim P (trim P s) = trim P s"
  using trim_hd_last [of P s] by (auto intro: trim_id)

lemma set_trim: "set (trim P s) \<subseteq> set s"
  unfolding trim_def trim_right_def trim_left_def
  by (metis set_dropWhileD set_rev subsetI)

lemma lower_lower [simp]: "lower (lower c) = lower c"
  by (auto simp: lower_def less_eq_char_def)

lemma to_lower_idem [simp]: "to_lower (to_lower s) = to_lower s"
  by (simp add: to_lower_def)

lemma to_lower_Nil_iff [simp]: "to_lower s = [] \<longleftrightarrow> s = []"
  by (simp add: to_lower_def)

end
