(* ===== verification/GoPath.thy ===== *)
theory GoPath
  imports GoStrings
begin

text \<open>
  Go's \<open>path/filepath\<close> on Unix. \<open>Clean\<close> is given by its documented rules on the list
  of path components; \<open>Join\<close>, \<open>Base\<close>, \<open>Ext\<close>, \<open>Abs\<close> and \<open>Rel\<close> are built on it as
  in the library. A file of the file system is named by its \<^emph>\<open>key\<close>: the components of its
  cleaned absolute path.
\<close>

type_synonym key = "string list"

abbreviation slash :: char where
  "slash \<equiv> CHR ''/''"

abbreviation dot :: string where
  "dot \<equiv> ''.''"

abbreviation dotdot :: string where
  "dotdot \<equiv> ''..''"

definition is_abs :: "string \<Rightarrow> bool" where
  "is_abs p \<longleftrightarrow> has_prefix p ''/''"

text \<open>
  One component is pushed on the reversed list of those kept so far: an empty component and
  \<open>.\<close> disappear, \<open>..\<close> removes the component before it, and at the root it disappears.
\<close>

definition push :: "bool \<Rightarrow> string list \<Rightarrow> string \<Rightarrow> string list" where
  "push rooted acc c =
     (if c = [] \<or> c = dot then acc
      else if c = dotdot then
        (case acc of
           [] \<Rightarrow> if rooted then [] else [dotdot]
         | a # as \<Rightarrow> if a = dotdot then dotdot # a # as else as)
      else c # acc)"

definition norm :: "bool \<Rightarrow> string list \<Rightarrow> string list" where
  "norm rooted cs = rev (foldl (push rooted) [] cs)"

definition render :: "bool \<Rightarrow> string list \<Rightarrow> string" where
  "render rooted cs =
     (if rooted then slash # str_join [slash] cs
      else if cs = [] then dot else str_join [slash] cs)"

definition clean :: "string \<Rightarrow> string" where
  "clean p = render (is_abs p) (norm (is_abs p) (split_on slash p))"

definition path_join :: "string list \<Rightarrow> string" where
  "path_join es =
     (case filter (\<lambda>e. e \<noteq> []) es of
        [] \<Rightarrow> []
      | ne \<Rightarrow> clean (str_join [slash] ne))"

definition base :: "string \<Rightarrow> string" where
  "base p =
     (if p = [] then dot
      else let q = trim_right (\<lambda>c. c = slash) p in
           if q = [] then ''/'' else last (split_on slash q))"

definition ext :: "string \<Rightarrow> string" where
  "ext p = (let b = last (split_on slash p); ps = split_on (CHR ''.'') b
            in if length ps \<le> 1 then [] else CHR ''.'' # last ps)"

definition dir_of :: "string \<Rightarrow> string" where
  "dir_of p = clean (str_join [slash] (butlast (split_on slash p) @ [[]]))"

text \<open>The working directory is given by its key.\<close>

definition abs_path :: "key \<Rightarrow> string \<Rightarrow> string" where
  "abs_path wd p = (if is_abs p then clean p else path_join [render True wd, p])"

definition key_of :: "key \<Rightarrow> string \<Rightarrow> key" where
  "key_of wd p = norm True ((if is_abs p then [] else wd) @ split_on slash p)"

fun strip_common :: "string list \<Rightarrow> string list \<Rightarrow> string list \<times> string list" where
  "strip_common (b # bs) (t # ts) = (if b = t then strip_common bs ts else (b # bs, t # ts))"
| "strip_common bs ts = (bs, ts)"

definition rel_path :: "string \<Rightarrow> string \<Rightarrow> goerr + string" where
  "rel_path b t =
     (let cb = clean b; ct = clean t;
          failure = Inl (ErrNew (''Rel: can''@[CHR 0x27]@''t make '' @ t @ '' relative to '' @ b))
      in if cb = ct then Inr dot
         else if is_abs cb \<noteq> is_abs ct then failure
         else (case strip_common (norm (is_abs b) (split_on slash b))
                                 (norm (is_abs t) (split_on slash t)) of
                 (bs, ts) \<Rightarrow>
                   if bs \<noteq> [] \<and> hd bs = dotdot then failure
                   else Inr (str_join [slash] (map (\<lambda>_. dotdot) bs @ ts))))"

text \<open>
  \<open>rel_path\<close> differs from the library when the target is \<open>.\<close> itself and the base is
  not, where the library returns \<open>../.\<close>; the program never asks for that.
\<close>


section \<open>Plain names\<close>

text \<open>A plain name is a directory entry: not empty, not \<open>.\<close> or \<open>..\<close>, without a slash.\<close>

definition plain_name :: "string \<Rightarrow> bool" where
  "plain_name c \<longleftrightarrow> c \<noteq> [] \<and> c \<noteq> dot \<and> c \<noteq> dotdot \<and> slash \<notin> set c"

definition plain_key :: "key \<Rightarrow> bool" where
  "plain_key k \<longleftrightarrow> list_all plain_name k"

lemma push_plain [simp]: "plain_name c \<Longrightarrow> push r acc c = c # acc"
  by (simp add: push_def plain_name_def)

lemma foldl_push_plain: "list_all plain_name cs \<Longrightarrow> foldl (push r) acc cs = rev cs @ acc"
  by (induction cs arbitrary: acc) auto

lemma norm_plain: "list_all plain_name cs \<Longrightarrow> norm r cs = cs"
  by (simp add: norm_def foldl_push_plain)

lemma norm_snoc_plain: "plain_name c \<Longrightarrow> norm r (cs @ [c]) = norm r cs @ [c]"
  by (simp add: norm_def)

lemma split_on_plain: "plain_name c \<Longrightarrow> split_on slash c = [c]"
  by (simp add: plain_name_def split_on_no_sep)

lemma norm_rooted_plain_names:
  assumes "\<And>c. c \<in> set cs \<Longrightarrow> slash \<notin> set c"
  shows "list_all plain_name (norm True cs)"
proof -
  have "list_all plain_name acc \<Longrightarrow> \<forall>c \<in> set cs. slash \<notin> set c \<Longrightarrow>
      list_all plain_name (foldl (push True) acc cs)" for acc
  proof (induction cs arbitrary: acc)
    case Nil
    then show ?case by simp
  next
    case (Cons c cs)
    have "list_all plain_name (push True acc c)"
      using Cons.prems by (cases acc) (auto simp: push_def, auto simp: plain_name_def)
    then show ?case using Cons by simp
  qed
  from this [of "[]"] assms show ?thesis by (simp add: norm_def list_all_iff)
qed

lemma plain_key_key_of: "plain_key wd \<Longrightarrow> plain_key (key_of wd p)"
  unfolding plain_key_def key_of_def
  by (rule norm_rooted_plain_names)
    (auto simp: list_all_iff plain_name_def dest: set_split_on split: if_splits)


section \<open>Cleaning does not change what a path names\<close>

text \<open>
  Cleaned components, pushed again on top of any absolute path, give what the original
  components would have given. This is what makes a cleaned path (as \<open>Join\<close> returns it)
  name the file the uncleaned one names.
\<close>

lemma push_kept:
  "(\<And>x. x \<in> set b \<Longrightarrow> x \<noteq> [] \<and> x \<noteq> dot) \<Longrightarrow> x \<in> set (push r b c) \<Longrightarrow> x \<noteq> [] \<and> x \<noteq> dot"
  by (auto simp: push_def split: list.splits if_splits)

lemma push_renorm:
  assumes "\<And>x. x \<in> set b \<Longrightarrow> x \<noteq> [] \<and> x \<noteq> dot"
  shows "foldl (push True) a (rev (push False b c)) = push True (foldl (push True) a (rev b)) c"
proof (cases b)
  case Nil
  then show ?thesis by (auto simp: push_def)
next
  case (Cons y ys)
  with assms show ?thesis by (auto simp: push_def)
qed

lemma foldl_push_renorm:
  assumes "\<And>x. x \<in> set b \<Longrightarrow> x \<noteq> [] \<and> x \<noteq> dot"
  shows "foldl (push True) a (rev (foldl (push False) b cs))
       = foldl (push True) (foldl (push True) a (rev b)) cs"
  using assms
proof (induction cs arbitrary: b)
  case Nil
  then show ?case by simp
next
  case (Cons c cs)
  have "\<And>x. x \<in> set (push False b c) \<Longrightarrow> x \<noteq> [] \<and> x \<noteq> dot"
    using Cons.prems by (rule push_kept)
  from Cons.IH [OF this] show ?case
    using Cons.prems by (simp add: push_renorm)
qed

lemma foldl_push_norm_False:
  "foldl (push True) a (norm False cs) = foldl (push True) a cs"
  using foldl_push_renorm [of "[]" a cs] by (simp add: norm_def)

lemma norm_append_norm_False: "norm True (w @ norm False cs) = norm True (w @ cs)"
  by (simp add: norm_def [of True] foldl_push_norm_False)

lemma norm_True_idem:
  assumes "\<And>c. c \<in> set cs \<Longrightarrow> slash \<notin> set c"
  shows "norm True (norm True cs) = norm True cs"
  using assms by (intro norm_plain norm_rooted_plain_names)

lemma norm_no_slash:
  assumes "\<And>c. c \<in> set cs \<Longrightarrow> slash \<notin> set c" and "x \<in> set (norm r cs)"
  shows "slash \<notin> set x"
proof -
  have "(\<forall>c \<in> set acc. slash \<notin> set c) \<Longrightarrow> \<forall>c \<in> set cs. slash \<notin> set c \<Longrightarrow>
     \<forall>c \<in> set (foldl (push r) acc cs). slash \<notin> set c" for acc
  proof (induction cs arbitrary: acc)
    case Nil
    then show ?case by simp
  next
    case (Cons c cs)
    have "\<forall>x \<in> set (push r acc c). slash \<notin> set x"
      using Cons.prems by (cases acc) (auto simp: push_def split: if_splits)
    then have "\<forall>c \<in> set (foldl (push r) (push r acc c) cs). slash \<notin> set c"
      using Cons.prems(2) by (intro Cons.IH) auto
    then show ?case by simp
  qed
  from this [of "[]"] assms show ?thesis by (simp add: norm_def)
qed

lemma push_Nil_skip [simp]: "push r acc [] = acc"
  by (simp add: push_def)

lemma push_dot_skip [simp]: "push r acc dot = acc"
  by (simp add: push_def)

lemma norm_Cons_Nil: "norm r ([] # cs) = norm r cs"
  by (simp add: norm_def)

lemma is_abs_render:
  assumes "\<And>c. c \<in> set cs \<Longrightarrow> slash \<notin> set c \<and> c \<noteq> []"
  shows "is_abs (render r cs) = r"
proof (cases cs)
  case Nil
  then show ?thesis by (auto simp: render_def is_abs_def has_prefix_def)
next
  case (Cons c rest)
  with assms [of c] obtain x xs where c: "c = x # xs" and "x \<noteq> slash" by (cases c) auto
  moreover have "\<exists>ys. str_join [slash] cs = x # ys"
    using Cons c by (cases rest) auto
  ultimately show ?thesis by (auto simp: render_def is_abs_def has_prefix_def)
qed

lemma norm_not_Nil:
  assumes "x \<in> set (norm r cs)"
  shows "x \<noteq> []" and "x \<noteq> dot"
proof -
  have "\<forall>c \<in> set acc. c \<noteq> [] \<and> c \<noteq> dot \<Longrightarrow>
     \<forall>c \<in> set (foldl (push r) acc cs). c \<noteq> [] \<and> c \<noteq> dot" for acc
  proof (induction cs arbitrary: acc)
    case Nil
    then show ?case by simp
  next
    case (Cons c cs)
    have "\<forall>x \<in> set (push r acc c). x \<noteq> [] \<and> x \<noteq> dot"
      using Cons.prems by (cases acc) (auto simp: push_def split: if_splits)
    then have "\<forall>c \<in> set (foldl (push r) (push r acc c) cs). c \<noteq> [] \<and> c \<noteq> dot"
      by (rule Cons.IH)
    then show ?case by simp
  qed
  from this [of "[]"] assms show "x \<noteq> []" and "x \<noteq> dot" by (auto simp: norm_def)
qed

lemma split_render:
  assumes "\<And>c. c \<in> set cs \<Longrightarrow> slash \<notin> set c"
  shows "norm r (w @ split_on slash (render False cs)) = norm r (w @ cs)"
    and "norm True (split_on slash (render True cs)) = norm True cs"
proof -
  show "norm r (w @ split_on slash (render False cs)) = norm r (w @ cs)"
    using assms split_on_str_join [of cs slash]
    by (cases "cs = []") (auto simp: render_def norm_def)
  show "norm True (split_on slash (render True cs)) = norm True cs"
    using assms split_on_str_join [of cs slash]
    by (cases "cs = []") (auto simp: render_def norm_def)
qed

lemma is_abs_clean: "is_abs (clean p) = is_abs p"
  unfolding clean_def
  by (rule is_abs_render) (auto dest: norm_not_Nil norm_no_slash [rotated] set_split_on)

theorem key_of_clean: "key_of wd (clean p) = key_of wd p"
proof -
  let ?cs = "norm (is_abs p) (split_on slash p)"
  have ns: "\<And>c. c \<in> set ?cs \<Longrightarrow> slash \<notin> set c"
    by (rule norm_no_slash) (auto dest: set_split_on)
  show ?thesis
  proof (cases "is_abs p")
    case True
    then have "key_of wd (clean p) = norm True (split_on slash (render True ?cs))"
      by (simp add: key_of_def is_abs_clean) (simp add: clean_def)
    also have "\<dots> = norm True ?cs" by (rule split_render(2) [OF ns])
    also have "\<dots> = key_of wd p"
      using True by (simp add: key_of_def norm_True_idem set_split_on)
    finally show ?thesis .
  next
    case False
    then have "key_of wd (clean p) = norm True (wd @ split_on slash (render False ?cs))"
      by (simp add: key_of_def is_abs_clean) (simp add: clean_def)
    also have "\<dots> = norm True (wd @ ?cs)" by (rule split_render(1) [OF ns])
    also have "\<dots> = key_of wd p"
      using False by (simp add: key_of_def norm_append_norm_False)
    finally show ?thesis .
  qed
qed

lemma is_abs_plain: "plain_name f \<Longrightarrow> \<not> is_abs f"
  by (cases f) (auto simp: plain_name_def is_abs_def has_prefix_def)

theorem key_of_join:
  assumes "plain_name f"
  shows "key_of wd (path_join [p, f]) = key_of wd p @ [f]"
proof (cases "p = []")
  case True
  have "f \<noteq> []" using assms by (simp add: plain_name_def)
  then have "key_of wd (path_join [p, f]) = norm True (wd @ [f])"
    using True assms
    by (simp add: path_join_def key_of_clean) (simp add: key_of_def is_abs_plain split_on_plain)
  also have "\<dots> = norm True (wd @ [[]]) @ [f]"
    using assms by (simp add: norm_snoc_plain) (simp add: norm_def)
  finally show ?thesis using True by (simp add: key_of_def is_abs_def has_prefix_def)
next
  case False
  have f: "f \<noteq> []" using assms by (simp add: plain_name_def)
  have abs: "is_abs (p @ slash # f) = is_abs p"
    using False by (cases p) (auto simp: is_abs_def has_prefix_def)
  have "key_of wd (path_join [p, f]) = key_of wd (p @ slash # f)"
    using False f by (simp add: path_join_def key_of_clean)
  also have "\<dots> = norm True (((if is_abs p then [] else wd) @ split_on slash p) @ [f])"
    using assms by (simp add: key_of_def abs split_on_append_sep split_on_plain)
  also have "\<dots> = key_of wd p @ [f]"
    using assms by (simp only: norm_snoc_plain) (simp add: key_of_def)
  finally show ?thesis .
qed

lemma str_join_eq_Nil: "cs \<noteq> [] \<Longrightarrow> (\<And>c. c \<in> set cs \<Longrightarrow> c \<noteq> []) \<Longrightarrow> str_join sep cs \<noteq> []"
  by (cases cs rule: list.exhaust; cases "tl cs") (auto simp: str_join_Cons neq_Nil_conv)

lemma render_not_Nil: "(\<And>c. c \<in> set cs \<Longrightarrow> c \<noteq> []) \<Longrightarrow> render r cs \<noteq> []"
  by (auto simp: render_def dest!: str_join_eq_Nil)

lemma clean_not_Nil [simp]: "clean p \<noteq> []"
  unfolding clean_def by (rule render_not_Nil) (auto dest: norm_not_Nil)

lemma path_join_not_Nil: "f \<noteq> [] \<Longrightarrow> path_join [p, f] \<noteq> []"
  by (auto simp: path_join_def)

lemma str_join_snoc_last:
  "str_join [slash] (cs @ [f]) = (if cs = [] then f else str_join [slash] cs @ slash # f)"
  by (simp add: str_join_append)

lemma last_split_render:
  assumes "plain_name f"
  shows "last (split_on slash (render r (cs @ [f]))) = f"
    and "last (render r (cs @ [f])) \<noteq> slash"
proof -
  have split: "split_on slash (xs @ slash # f) = split_on slash xs @ [f]" for xs
    using assms by (simp add: split_on_append_sep split_on_plain)
  show "last (split_on slash (render r (cs @ [f]))) = f"
    using assms split [of "[]"] split [of "str_join [slash] cs"]
      split [of "slash # str_join [slash] cs"]
    by (simp add: render_def str_join_snoc_last split_on_plain)
  have "f \<noteq> []" and "slash \<notin> set f" using assms by (simp_all add: plain_name_def)
  moreover from this have "last f \<noteq> slash" using last_in_set [of f] by metis
  ultimately have "last f \<noteq> slash" and "f \<noteq> []" by simp_all
  then show "last (render r (cs @ [f])) \<noteq> slash"
    by (simp add: render_def str_join_snoc_last)
qed

lemma path_join_render:
  assumes "p \<noteq> []" and "plain_name f"
  shows "path_join [p, f] = render (is_abs p) (norm (is_abs p) (split_on slash p) @ [f])"
proof -
  have "f \<noteq> []" using assms(2) by (simp add: plain_name_def)
  moreover have "is_abs (p @ slash # f) = is_abs p"
    using assms(1) by (cases p) (auto simp: is_abs_def has_prefix_def)
  ultimately show ?thesis
    using assms by (simp add: path_join_def clean_def split_on_append_sep split_on_plain norm_snoc_plain)
qed

lemma base_join:
  assumes "p \<noteq> []" and "plain_name f"
  shows "base (path_join [p, f]) = f"
proof -
  let ?r = "render (is_abs p) (norm (is_abs p) (split_on slash p) @ [f])"
  have "?r \<noteq> []" using path_join_render [OF assms] assms(2) path_join_not_Nil
    by (metis plain_name_def)
  then have "trim_right (\<lambda>c. c = slash) ?r = ?r"
    using last_split_render(2) [OF assms(2)]
    by (simp add: trim_right_def dropWhile_hd hd_rev)
  with \<open>?r \<noteq> []\<close> show ?thesis
    using last_split_render(1) [OF assms(2)] by (simp add: path_join_render [OF assms] base_def)
qed


section \<open>Components of a path\<close>

text \<open>The components of the cleaned path; joining a name adds one.\<close>

definition comps :: "string \<Rightarrow> string list" where
  "comps p = norm (is_abs p) (split_on slash p)"

lemma clean_render: "clean p = render (is_abs p) (comps p)"
  by (simp add: clean_def comps_def)

lemma foldl_push_stable:
  assumes "foldl (push r) [] (rev acc) = acc" and "\<And>x. x \<in> set acc \<Longrightarrow> x \<noteq> [] \<and> x \<noteq> dot"
  shows "foldl (push r) [] (rev (foldl (push r) acc cs)) = foldl (push r) acc cs"
  using assms
proof (induction cs arbitrary: acc)
  case Nil
  then show ?case by simp
next
  case (Cons c cs)
  have "foldl (push r) [] (rev (push r acc c)) = push r acc c"
  proof (cases "c = dotdot \<and> acc \<noteq> [] \<and> hd acc \<noteq> dotdot")
    case True
    then obtain a as where acc: "acc = a # as" and a: "a \<noteq> dotdot" by (cases acc) auto
    moreover have "a \<noteq> [] \<and> a \<noteq> dot" using Cons.prems(2) acc by simp
    moreover have "push r (foldl (push r) [] (rev as)) a = a # as" using Cons.prems(1) acc by simp
    ultimately have "foldl (push r) [] (rev as) = as" by (simp add: push_def [of r _ a])
    then show ?thesis using acc a True by (simp add: push_def)
  next
    case False
    then have "push r acc c = acc \<or> push r acc c = c # acc"
      by (cases acc) (auto simp: push_def)
    then show ?thesis using Cons.prems(1) by (elim disjE) simp_all
  qed
  moreover have "x \<noteq> [] \<and> x \<noteq> dot" if "x \<in> set (push r acc c)" for x
    using that Cons.prems(2) by (auto simp: push_def split: list.splits if_splits)
  ultimately show ?case using Cons.IH [of "push r acc c"] by simp
qed

lemma norm_idem: "norm r (norm r cs) = norm r cs"
  using foldl_push_stable [of r "[]" cs] by (simp add: norm_def)

lemma norm_snoc_idem: "plain_name f \<Longrightarrow> norm r (norm r cs @ [f]) = norm r cs @ [f]"
  by (simp add: norm_snoc_plain norm_idem)

lemma comps_no_slash: "c \<in> set (comps p) \<Longrightarrow> slash \<notin> set c"
  unfolding comps_def by (rule norm_no_slash [rotated]) (auto dest: set_split_on)

lemma path_join_comps:
  assumes "plain_name f"
  shows "path_join [p, f] = render (is_abs p) (comps p @ [f])"
proof (cases "p = []")
  case True
  have f: "f \<noteq> []" "slash \<notin> set f" using assms by (simp_all add: plain_name_def)
  have "norm False [f] = [f]" using assms by (simp add: norm_def)
  then show ?thesis
    using True f assms
    by (simp add: path_join_def clean_def comps_def is_abs_plain split_on_plain is_abs_def [of "[]"]
        has_prefix_def norm_Cons_Nil) (simp add: norm_def push_def)
qed (simp add: path_join_render assms comps_def)

lemma comps_join:
  assumes "plain_name f"
  shows "comps (path_join [p, f]) = comps p @ [f]" and "is_abs (path_join [p, f]) = is_abs p"
proof -
  have f: "f \<noteq> []" "slash \<notin> set f" using assms by (simp_all add: plain_name_def)
  have j: "path_join [p, f] = render (is_abs p) (comps p @ [f])" by (rule path_join_comps [OF assms])
  have kept: "slash \<notin> set c \<and> c \<noteq> []" if "c \<in> set (comps p @ [f])" for c
    using that f comps_no_slash by (auto simp: comps_def dest: norm_not_Nil(1))
  then show a: "is_abs (path_join [p, f]) = is_abs p"
    unfolding j by (rule is_abs_render)
  have ren: "norm r (split_on slash (render r cs)) = norm r cs" if "\<And>c. c \<in> set cs \<Longrightarrow> slash \<notin> set c" for r cs
    using split_render [OF that] by (cases r) (auto, metis append_Nil)
  then have "norm (is_abs p) (split_on slash (path_join [p, f])) = norm (is_abs p) (comps p @ [f])"
    unfolding j using kept by (intro ren) blast
  then show "comps (path_join [p, f]) = comps p @ [f]"
    using a norm_snoc_idem [OF assms] by (simp add: comps_def)
qed

lemma clean_join: "plain_name f \<Longrightarrow> clean (path_join [p, f]) = path_join [p, f]"
  by (simp add: clean_render comps_join) (simp add: path_join_comps)

text \<open>Joining a name makes a clean path longer, except that \<open>.\<close> counts for nothing.\<close>

definition weight :: "string \<Rightarrow> nat" where
  "weight p = (if p = dot then 0 else length p)"

lemma weight_join:
  assumes "plain_name f" and "clean p = p"
  shows "weight p < weight (path_join [p, f])"
proof -
  have f: "f \<noteq> []" "f \<noteq> dot" using assms(1) by (simp_all add: plain_name_def)
  have p: "p = render (is_abs p) (comps p)" using assms(2) by (simp add: clean_render)
  show ?thesis
  proof (cases "comps p = []")
    case True
    then have "p = (if is_abs p then ''/'' else dot)" using p by (simp add: render_def split: if_splits)
    then show ?thesis
      using f True by (cases "is_abs p") (auto simp: weight_def path_join_comps [OF assms(1)] render_def)
  next
    case False
    let ?s = "str_join [slash] (comps p)"
    have "length p \<le> length (render (is_abs p) (comps p))" using p by simp
    moreover have "length (render (is_abs p) (comps p @ [f])) = length (render (is_abs p) (comps p)) + Suc (length f)"
      using False by (simp add: render_def str_join_snoc_last)
    moreover have "1 < length (render (is_abs p) (comps p @ [f]))"
      using False f by (simp add: render_def str_join_snoc_last)
    ultimately show ?thesis by (auto simp: weight_def path_join_comps [OF assms(1)])
  qed
qed

text \<open>The path of a file found by going down from \<open>root\<close> through the names \<open>ns\<close>.\<close>

definition path_below :: "string \<Rightarrow> string list \<Rightarrow> string" where
  "path_below root ns = foldl (\<lambda>p n. path_join [p, n]) root ns"

lemma path_below_simps [simp]:
  "path_below root [] = root"
  "path_below root (ns @ [n]) = path_join [path_below root ns, n]"
  by (simp_all add: path_below_def)

lemma comps_below:
  "list_all plain_name ns \<Longrightarrow> comps (path_below root ns) = comps root @ ns \<and> is_abs (path_below root ns) = is_abs root"
  by (induction ns rule: rev_induct) (simp_all add: comps_join)

lemma key_of_below:
  "list_all plain_name ns \<Longrightarrow> key_of wd (path_below root ns) = key_of wd root @ ns"
  by (induction ns rule: rev_induct) (simp_all add: key_of_join)

lemma strip_common_append: "strip_common bs (bs @ ts) = ([], ts)"
  by (induction bs) (cases ts; simp)+

lemma render_inj:
  assumes "render r a = render r b" and "\<And>c. c \<in> set a \<union> set b \<Longrightarrow> slash \<notin> set c \<and> c \<noteq> [] \<and> c \<noteq> dot"
  shows "a = b"
proof -
  have split: "split_on slash (str_join [slash] x) = x" if "x = a \<or> x = b" "x \<noteq> []" for x
    using that assms(2) by (intro split_on_str_join) auto
  have one: "str_join [slash] x \<noteq> [] \<and> str_join [slash] x \<noteq> dot" if "x = a \<or> x = b" "x \<noteq> []" for x
  proof -
    have "split_on slash [] = [[]]" "split_on slash dot = [dot]" by (simp_all add: split_on_no_sep)
    with split [OF that] that assms(2) show ?thesis by (metis UnI1 UnI2 list.set_intros(1))
  qed
  show ?thesis
  proof (cases "a = [] \<or> b = []")
    case True
    then show ?thesis
      using assms(1) one [of a] one [of b] by (cases "a = []"; cases "b = []") (auto simp: render_def split: if_splits)
  next
    case False
    then have "str_join [slash] a = str_join [slash] b"
      using assms(1) by (auto simp: render_def split: if_splits)
    then have "split_on slash (str_join [slash] a) = split_on slash (str_join [slash] b)" by simp
    then show ?thesis using split False by simp
  qed
qed

lemma rel_path_below:
  assumes "list_all plain_name ns" and "ns \<noteq> []"
  shows "rel_path root (path_below root ns) = Inr (str_join [slash] ns)"
proof -
  note c = comps_below [OF assms(1), of root]
  have "x \<noteq> [] \<and> x \<noteq> dot \<and> slash \<notin> set x" if "x \<in> set (comps q)" for x q
    using that norm_not_Nil comps_no_slash by (auto simp: comps_def)
  moreover have "comps root \<noteq> comps root @ ns" using assms(2) by simp
  ultimately have "clean root \<noteq> clean (path_below root ns)"
    using c render_inj [of "is_abs root" "comps root" "comps root @ ns"] unfolding clean_render
    by (metis UnE)
  moreover have "norm (is_abs root) (split_on slash (path_below root ns)) = comps root @ ns"
    and "norm (is_abs root) (split_on slash root) = comps root"
    using c by (metis comps_def)+
  ultimately show ?thesis
    using c by (simp add: rel_path_def Let_def is_abs_clean strip_common_append)
qed

lemma key_of_abs_path: "key_of wd (abs_path wd p) = key_of wd p" if "plain_key wd"
proof (cases "is_abs p")
  case True
  then show ?thesis by (simp add: abs_path_def key_of_clean)
next
  case False
  have ns: "\<And>c. c \<in> set wd \<Longrightarrow> slash \<notin> set c"
    using that by (auto simp: plain_key_def list_all_iff plain_name_def)
  have ne: "render True wd \<noteq> []" by (simp add: render_def)
  show ?thesis
  proof (cases "p = []")
    case True
    then have "key_of wd (abs_path wd p) = key_of wd (render True wd)"
      using ne by (simp add: abs_path_def path_join_def key_of_clean is_abs_def has_prefix_def)
    also have "\<dots> = norm True wd"
      using split_render(2) [OF ns] by (simp add: key_of_def render_def is_abs_def has_prefix_def)
    finally show ?thesis
      using True by (simp add: key_of_def is_abs_def has_prefix_def) (simp add: norm_def)
  next
    case np: False
    have a: "is_abs (render True wd @ slash # p)" by (simp add: render_def is_abs_def has_prefix_def)
    have "key_of wd (abs_path wd p) = key_of wd (render True wd @ slash # p)"
      using False ne np by (simp add: abs_path_def path_join_def key_of_clean)
    also have "\<dots> = norm True (split_on slash (render True wd) @ split_on slash p)"
      using a by (simp add: key_of_def split_on_append_sep)
    also have "\<dots> = norm True (wd @ split_on slash p)"
    proof -
      have "foldl (push True) [] (split_on slash (render True wd)) = foldl (push True) [] wd"
        using split_render(2) [OF ns] by (simp add: norm_def)
      then show ?thesis by (simp add: norm_def)
    qed
    finally show ?thesis using False by (simp add: key_of_def)
  qed
qed

end
