(* ===== verification/GoTime.thy ===== *)
theory GoTime
  imports GoStrings
begin

text \<open>
  Points in time as the program sees them, the layout \<open>dateStr\<close> of a backup's name, and
  \<open>time.Format\<close> and \<open>time.Parse\<close> for that layout. Times are compared by
  \<open>Time.Before\<close>; all parsed times are in UTC, so that order is the lexicographic one of
  the fields.
\<close>

section \<open>Civil times\<close>

datatype dtime =
  DTime (year: nat) (month: nat) (day: nat) (hour: nat) (minute: nat) (second: nat)

definition time_key :: "dtime \<Rightarrow> nat \<times> nat \<times> nat \<times> nat \<times> nat \<times> nat" where
  "time_key t = (year t, month t, day t, hour t, minute t, second t)"

lemma time_key_inject [simp]: "time_key s = time_key t \<longleftrightarrow> s = t"
  by (cases s; cases t) (simp add: time_key_def)

instantiation dtime :: linorder
begin

definition less_eq_dtime :: "dtime \<Rightarrow> dtime \<Rightarrow> bool" where
  "s \<le> t \<longleftrightarrow> time_key s \<le> time_key t"

definition less_dtime :: "dtime \<Rightarrow> dtime \<Rightarrow> bool" where
  "s < t \<longleftrightarrow> time_key s < time_key t"

instance
proof
  fix x y z :: dtime
  show "x < y \<longleftrightarrow> x \<le> y \<and> \<not> y \<le> x"
    by (simp add: less_eq_dtime_def less_dtime_def less_le_not_le)
  show "x \<le> x" by (simp add: less_eq_dtime_def)
  show "x \<le> y \<Longrightarrow> y \<le> z \<Longrightarrow> x \<le> z" unfolding less_eq_dtime_def by (rule order_trans)
  show "x \<le> y \<Longrightarrow> y \<le> x \<Longrightarrow> x = y"
    unfolding less_eq_dtime_def by (metis antisym time_key_inject)
  show "x \<le> y \<or> y \<le> x" unfolding less_eq_dtime_def by (rule linear)
qed

end

text \<open>Go's zero \<open>time.Time\<close>: January 1 of year 1.\<close>

definition zero_time :: dtime where
  "zero_time = DTime 1 1 1 0 0 0"

definition is_leap :: "nat \<Rightarrow> bool" where
  "is_leap y \<longleftrightarrow> y mod 4 = 0 \<and> (y mod 100 \<noteq> 0 \<or> y mod 400 = 0)"

definition days_in :: "nat \<Rightarrow> nat \<Rightarrow> nat" where
  "days_in m y =
     (if m = 2 then (if is_leap y then 29 else 28)
      else if m \<in> {4, 6, 9, 11} then 30 else 31)"

definition valid_time :: "dtime \<Rightarrow> bool" where
  "valid_time t \<longleftrightarrow> year t < 10000 \<and> 1 \<le> month t \<and> month t \<le> 12 \<and>
     1 \<le> day t \<and> day t \<le> days_in (month t) (year t) \<and>
     hour t < 24 \<and> minute t < 60 \<and> second t < 60"


section \<open>Layouts\<close>

text \<open>
  A layout is cut into the reference fields and the literal text between them. Of the
  fields \<open>time\<close> knows, the six below occur in \<open>dateStr\<close>.
\<close>

datatype chunk =
    StdLongYear | StdZeroMonth | StdZeroDay | StdHour | StdZeroMinute | StdZeroSecond
  | Lit char

function layout_chunks :: "string \<Rightarrow> chunk list" where
  "layout_chunks s =
     (if s = [] then []
      else if has_prefix s ''2006'' then StdLongYear # layout_chunks (drop 4 s)
      else if has_prefix s ''01'' then StdZeroMonth # layout_chunks (drop 2 s)
      else if has_prefix s ''02'' then StdZeroDay # layout_chunks (drop 2 s)
      else if has_prefix s ''15'' then StdHour # layout_chunks (drop 2 s)
      else if has_prefix s ''04'' then StdZeroMinute # layout_chunks (drop 2 s)
      else if has_prefix s ''05'' then StdZeroSecond # layout_chunks (drop 2 s)
      else Lit (hd s) # layout_chunks (tl s))"
  by pat_completeness auto
termination
  by (relation "measure length") auto

declare layout_chunks.simps [simp del]

text \<open>\<open>const dateStr\<close>: the year, then the day, then the month.\<close>

definition dateStr :: string where
  "dateStr = ''2006_02_01-15:04:05''"

lemma dateStr_chunks:
  "layout_chunks dateStr =
     [StdLongYear, Lit (CHR ''_''), StdZeroDay, Lit (CHR ''_''), StdZeroMonth, Lit (CHR ''-''),
      StdHour, Lit (CHR '':''), StdZeroMinute, Lit (CHR '':''), StdZeroSecond]"
  by (simp add: dateStr_def layout_chunks.simps has_prefix_def)

fun format_chunk :: "dtime \<Rightarrow> chunk \<Rightarrow> string" where
  "format_chunk t StdLongYear = pad 4 (year t)"
| "format_chunk t StdZeroMonth = pad 2 (month t)"
| "format_chunk t StdZeroDay = pad 2 (day t)"
| "format_chunk t StdHour = pad 2 (hour t)"
| "format_chunk t StdZeroMinute = pad 2 (minute t)"
| "format_chunk t StdZeroSecond = pad 2 (second t)"
| "format_chunk t (Lit c) = [c]"

definition time_format :: "string \<Rightarrow> dtime \<Rightarrow> string" where
  "time_format layout t = concat (map (format_chunk t) (layout_chunks layout))"

text \<open>
  \<open>getnum\<close> of the \<open>time\<close> package: two digits, or one if \<open>fixed\<close> is not asked for.
  The result is the number and the rest of the text.
\<close>

definition getnum :: "bool \<Rightarrow> string \<Rightarrow> (nat \<times> string) option" where
  "getnum fixed s =
     (case s of
        [] \<Rightarrow> None
      | a # r \<Rightarrow>
          if \<not> is_digit a then None
          else (case r of
                  b # r' \<Rightarrow>
                    if is_digit b then Some (10 * digit_val a + digit_val b, r')
                    else if fixed then None else Some (digit_val a, r)
                | [] \<Rightarrow> if fixed then None else Some (digit_val a, [])))"

text \<open>One field is read into the time built so far; a value out of range is an error.\<close>

definition parse_num ::
  "bool \<Rightarrow> (nat \<Rightarrow> bool) \<Rightarrow> (nat \<Rightarrow> dtime) \<Rightarrow> string \<Rightarrow> (dtime \<times> string) option" where
  "parse_num fixed in_range set_field s =
     (case getnum fixed s of
        Some (n, r) \<Rightarrow> if in_range n then Some (set_field n, r) else None
      | None \<Rightarrow> None)"

fun parse_chunk :: "chunk \<Rightarrow> dtime \<Rightarrow> string \<Rightarrow> (dtime \<times> string) option" where
  "parse_chunk (Lit c) t s = (case s of x # r \<Rightarrow> if x = c then Some (t, r) else None | [] \<Rightarrow> None)"
| "parse_chunk StdLongYear (DTime y mo d h mi se) s =
     (if length s < 4 \<or> \<not> list_all is_digit (take 4 s) then None
      else Some (DTime (nat_of_digits 10 (take 4 s)) mo d h mi se, drop 4 s))"
| "parse_chunk StdZeroMonth (DTime y mo d h mi se) s =
     parse_num True (\<lambda>n. 1 \<le> n \<and> n \<le> 12) (\<lambda>n. DTime y n d h mi se) s"
| "parse_chunk StdZeroDay (DTime y mo d h mi se) s =
     parse_num True (\<lambda>n. True) (\<lambda>n. DTime y mo n h mi se) s"
| "parse_chunk StdHour (DTime y mo d h mi se) s =
     parse_num False (\<lambda>n. n < 24) (\<lambda>n. DTime y mo d n mi se) s"
| "parse_chunk StdZeroMinute (DTime y mo d h mi se) s =
     parse_num True (\<lambda>n. n < 60) (\<lambda>n. DTime y mo d h n se) s"
| "parse_chunk StdZeroSecond (DTime y mo d h mi se) s =
     parse_num True (\<lambda>n. n < 60) (\<lambda>n. DTime y mo d h mi n) s"

fun parse_chunks :: "chunk list \<Rightarrow> dtime \<Rightarrow> string \<Rightarrow> (dtime \<times> string) option" where
  "parse_chunks [] t s = Some (t, s)"
| "parse_chunks (c # cs) t s =
     (case parse_chunk c t s of Some (t', r) \<Rightarrow> parse_chunks cs t' r | None \<Rightarrow> None)"

text \<open>
  The day is checked against the month once all fields are read; text left over is an error.
  (The library would accept a fraction of a second there; the names the program parses
  cannot have one.)
\<close>

definition time_parse :: "string \<Rightarrow> string \<Rightarrow> dtime option" where
  "time_parse layout s =
     (case parse_chunks (layout_chunks layout) (DTime 0 1 1 0 0 0) s of
        Some (t, []) \<Rightarrow> if 1 \<le> day t \<and> day t \<le> days_in (month t) (year t) then Some t else None
      | _ \<Rightarrow> None)"

text \<open>\<open>t, _ := time.Parse(...)\<close>: the zero time when there is an error.\<close>

definition time_parse_or_zero :: "string \<Rightarrow> string \<Rightarrow> dtime" where
  "time_parse_or_zero layout s = (case time_parse layout s of Some t \<Rightarrow> t | None \<Rightarrow> zero_time)"


section \<open>Formatting and parsing are inverse on valid times\<close>

lemma getnum_pad2: "n < 100 \<Longrightarrow> getnum fixed (pad 2 n @ r) = Some (n, r)"
proof -
  assume n: "n < 100"
  then have "length (pad 2 n) = 2" by (intro length_pad) auto
  then obtain a b where ab: "pad 2 n = [a, b]"
    by (auto simp: length_Suc_conv numeral_2_eq_2)
  moreover have "is_digit a" "is_digit b" using pad_digits [of 2 n] ab by auto
  moreover have "nat_of_digits 10 [a, b] = n" using nat_of_digits_pad [of 2 n] ab by simp
  ultimately show ?thesis by (simp add: getnum_def nat_of_digits_def)
qed

lemma parse_num_pad2:
  "n < 100 \<Longrightarrow> P n \<Longrightarrow> parse_num fixed P f (pad 2 n @ r) = Some (f n, r)"
  by (simp add: parse_num_def getnum_pad2)

lemma parse_year_pad4:
  assumes "y < 10000"
  shows "parse_chunk StdLongYear (DTime y0 mo d h mi se) (pad 4 y @ r)
       = Some (DTime y mo d h mi se, r)"
proof -
  have len: "length (pad 4 y) = 4" using assms by (intro length_pad) auto
  then have "take 4 (pad 4 y @ r) = pad 4 y" and "drop 4 (pad 4 y @ r) = r" by simp_all
  with len show ?thesis by (simp only: parse_chunk.simps pad_digits nat_of_digits_pad) simp
qed

lemma parse_chunks_Cons:
  "parse_chunk c t s = Some (t', r) \<Longrightarrow> parse_chunks (c # cs) t s = parse_chunks cs t' r"
  by simp

lemma parse_lit: "parse_chunk (Lit c) t (c # r) = Some (t, r)"
  by simp

lemma days_in_bound: "days_in m y \<le> 31"
  by (auto simp: days_in_def)

lemma format_dateStr:
  "time_format dateStr t = pad 4 (year t) @ CHR ''_'' # pad 2 (day t) @ CHR ''_'' #
      pad 2 (month t) @ CHR ''-'' # pad 2 (hour t) @ CHR '':'' # pad 2 (minute t) @
      CHR '':'' # pad 2 (second t) @ []"
  by (simp add: time_format_def dateStr_chunks)

lemma parse_num_fields:
  assumes "n < 100"
  shows "parse_chunk StdZeroDay (DTime y mo d h mi se) (pad 2 n @ r)
       = Some (DTime y mo n h mi se, r)"
    and "1 \<le> n \<Longrightarrow> n \<le> 12 \<Longrightarrow> parse_chunk StdZeroMonth (DTime y mo d h mi se) (pad 2 n @ r)
       = Some (DTime y n d h mi se, r)"
    and "n < 24 \<Longrightarrow> parse_chunk StdHour (DTime y mo d h mi se) (pad 2 n @ r)
       = Some (DTime y mo d n mi se, r)"
    and "n < 60 \<Longrightarrow> parse_chunk StdZeroMinute (DTime y mo d h mi se) (pad 2 n @ r)
       = Some (DTime y mo d h n se, r)"
    and "n < 60 \<Longrightarrow> parse_chunk StdZeroSecond (DTime y mo d h mi se) (pad 2 n @ r)
       = Some (DTime y mo d h mi n, r)"
  using assms by (simp_all add: parse_num_pad2 del: One_nat_def)

theorem time_parse_format:
  assumes "valid_time t"
  shows "time_parse dateStr (time_format dateStr t) = Some t"
proof (cases t)
  case (DTime y mo d h mi se)
  with assms have v: "y < 10000" "1 \<le> mo" "mo \<le> 12" "1 \<le> d" "d \<le> days_in mo y"
    "h < 24" "mi < 60" "se < 60"
    by (auto simp: valid_time_def)
  moreover from this have "mo < 100" "d < 100" "h < 100" "mi < 100" "se < 100"
    using days_in_bound [of mo y] by simp_all
  ultimately have "parse_chunks (layout_chunks dateStr) (DTime 0 1 1 0 0 0)
      (time_format dateStr t) = Some (t, [])"
    by (simp only: DTime dateStr_chunks format_dateStr dtime.sel parse_chunks_Cons parse_lit
        parse_year_pad4 parse_num_fields parse_chunks.simps(1))
  with v show ?thesis by (simp add: time_parse_def DTime)
qed

text \<open>The shape of a formatted time.\<close>

definition stamp_template :: string where
  "stamp_template = ''dddd_dd_dd-dd:dd:dd''"

definition fits :: "string \<Rightarrow> string \<Rightarrow> bool" where
  "fits template s \<longleftrightarrow>
     list_all2 (\<lambda>t c. if t = CHR ''d'' then is_digit c else c = t) template s"

lemma fits_append:
  "length a = length s \<Longrightarrow> fits (a @ b) (s @ r) \<longleftrightarrow> fits a s \<and> fits b r"
  by (simp add: fits_def list_all2_append)

lemma fits_digits: "list_all is_digit s \<Longrightarrow> length s = n \<Longrightarrow> fits (replicate n (CHR ''d'')) s"
  by (auto simp: fits_def list_all2_conv_all_nth list_all_length)

lemma fits_length: "fits a s \<Longrightarrow> length a = length s"
  by (auto simp: fits_def dest: list_all2_lengthD)

lemma fits_pad: "n < 10 ^ w \<Longrightarrow> 0 < w \<Longrightarrow> fits (replicate w (CHR ''d'')) (pad w n)"
  by (intro fits_digits pad_digits length_pad)

theorem format_fits:
  assumes "valid_time t"
  shows "fits stamp_template (time_format dateStr t)"
proof -
  have tpl: "stamp_template = replicate 4 (CHR ''d'') @ ''_'' @ replicate 2 (CHR ''d'') @ ''_'' @
      replicate 2 (CHR ''d'') @ ''-'' @ replicate 2 (CHR ''d'') @ '':'' @
      replicate 2 (CHR ''d'') @ '':'' @ replicate 2 (CHR ''d'')"
    by (simp add: stamp_template_def numeral_eq_Suc)
  have fmt: "time_format dateStr t = pad 4 (year t) @ ''_'' @ pad 2 (day t) @ ''_'' @
      pad 2 (month t) @ ''-'' @ pad 2 (hour t) @ '':'' @ pad 2 (minute t) @ '':'' @
      pad 2 (second t)"
    by (simp add: format_dateStr)
  have lit: "fits [c] [c]" if "c \<noteq> CHR ''d''" for c using that by (simp add: fits_def)
  have small: "day t < 10 ^ 2" "month t < 10 ^ 2" "hour t < 10 ^ 2" "minute t < 10 ^ 2"
    "second t < 10 ^ 2" "year t < 10 ^ 4"
    using assms days_in_bound [of "month t" "year t"] by (auto simp: valid_time_def)
  show ?thesis
    unfolding tpl fmt using small
    by (simp only: fits_append length_replicate length_pad zero_less_numeral list.size
        fits_pad lit char.inject simp_thms)
qed

end
