(* ===== verification/Structs.thy ===== *)
theory Structs
  imports GoStrings
begin

text \<open>
  The data types of \<open>internal/profile/structs.go\<close>, and the intermediate \<open>profileV1\<close> of
  \<open>profile.go\<close>. Go's string types with named constants stay strings here, because a profile
  file can hold any text in them. A compiled exclude pattern is its match function.
\<close>

type_synonym ProfileType = string

definition TypeRemote :: ProfileType where "TypeRemote = ''remote''"
definition TypeLocal :: ProfileType where "TypeLocal = ''local''"
definition TypeSftpSync :: ProfileType where "TypeSftpSync = ''sftpsync''"

type_synonym ConnType = string

definition ConnTypePasswd :: ConnType where "ConnTypePasswd = ''password''"
definition ConnTypeSshKey :: ConnType where "ConnTypeSshKey = ''sshkey''"
definition ConnTypeSshAgent :: ConnType where "ConnTypeSshAgent = ''sshagent''"

type_synonym DbType = string

definition DbMysql :: DbType where "DbMysql = ''mysql''"
definition DbDockerMysql :: DbType where "DbDockerMysql = ''dockermysql''"
definition DbMaria :: DbType where "DbMaria = ''mariadb''"
definition DbDockerMaria :: DbType where "DbDockerMaria = ''dockermariadb''"
definition DbPostgres :: DbType where "DbPostgres = ''postgres''"
definition DbDockerPostgres :: DbType where "DbDockerPostgres = ''dockerpostgres''"

lemmas profile_consts =
  TypeRemote_def TypeLocal_def TypeSftpSync_def
  ConnTypePasswd_def ConnTypeSshKey_def ConnTypeSshAgent_def
  DbMysql_def DbDockerMysql_def DbMaria_def DbDockerMaria_def DbPostgres_def DbDockerPostgres_def

record Ssh =
  ssh_Type :: ConnType
  ssh_Host :: string
  ssh_Port :: int
  ssh_User :: string
  ssh_Password :: string
  ssh_PrivateKey :: string
  ssh_Passphrase :: string

record BackupPath =
  bp_Path :: string
  bp_Name :: string
  bp_Exclude :: "(string \<Rightarrow> bool) list"

record BackupDb =
  db_Name :: string
  db_Type :: DbType
  db_ContainerName :: string
  db_User :: string
  db_Password :: string

record Destination =
  dest_Path :: string
  dest_Keep :: int
  dest_Owner :: string
  dest_Mode :: string

record EmailNotify =
  en_Host :: string
  en_Port :: string
  en_User :: string
  en_Password :: string
  en_From :: string
  en_To :: "string list"
  en_OnSuccess :: bool

record Profile =
  prf_Name :: string
  prf_Type :: ProfileType
  prf_Ssh :: Ssh
  prf_Dirs :: "BackupPath list"
  prf_Dbs :: "BackupDb list"
  prf_Destination :: Destination
  prf_Notify :: EmailNotify

definition HasValues :: "EmailNotify \<Rightarrow> bool" where
  "HasValues m =
     (if en_Host m = [] \<or> en_Port m = [] \<or> en_User m = [] \<or> en_From m = [] \<or> en_Password m = []
      then False
      else if length (en_To m) = 0 then False
      else True)"

text \<open>An entry of \<open>dirs\<close> as the file has it, its exclude patterns not compiled yet.\<close>

record dirV1 =
  d1_Path :: string
  d1_Name :: string
  d1_Exclude :: "string list"

record profileV1 =
  v1_Name :: string
  v1_Type :: ProfileType
  v1_Ssh :: Ssh
  v1_Dirs :: "dirV1 list"
  v1_Dbs :: "BackupDb list"
  v1_Destination :: Destination
  v1_Notify :: EmailNotify

end
