(* ===== verification/World.thy ===== *)
theory World
  imports GoPath GoTime Structs "HOL-Library.AList" "HOL-Library.Word"
begin

text \<open>
  The outside world: a file system, the counters of open resources, what was sent, and the
  services whose code is not part of the repository.

  \<^item> \<open>world\<close> is the mutable state. Its \<open>tick\<close> counts the calls into the operating system
    and the services.
  \<^item> \<open>env\<close> is fixed during a run and holds everything the program relies on but does not
    define. Each field that can behave differently from call to call takes the tick of the
    call. \<open>fault\<close> says which system calls fail, and with which error number; every theorem
    that does not mention it holds for every choice of failing calls.

  Paths name files by their cleaned absolute spelling. Symbolic links are followed when they
  are the last component of a path, at most 40 times as Linux does; links in the middle of
  a path are not followed.
\<close>

section \<open>Files\<close>

text \<open>
  The content of a file is bytes or a zip archive. An archive is its entries (name, whether
  the header says symbolic link, data) and a flag that tells whether the central directory was
  written, without which the file is not a readable zip.
\<close>

datatype content = Raw string | Archive "zentry list" bool
  and zentry = ZEntry (ze_name: string) (ze_link: bool) (ze_data: content)

record fmeta =
  m_uid :: int
  m_gid :: int
  m_mode :: "32 word"

datatype node = Dir | File content fmeta | Link string

datatype fkind = KDir | KFile | KLink

fun kind_of :: "node \<Rightarrow> fkind" where
  "kind_of Dir = KDir"
| "kind_of (File c m) = KFile"
| "kind_of (Link t) = KLink"

record finfo =
  fi_name :: string
  fi_kind :: fkind

definition IsDir :: "finfo \<Rightarrow> bool" where
  "IsDir fi \<longleftrightarrow> fi_kind fi = KDir"

definition IsSymlink :: "finfo \<Rightarrow> bool" where
  "IsSymlink fi \<longleftrightarrow> fi_kind fi = KLink"


section \<open>Services\<close>

text \<open>A local process: the error of \<open>StdoutPipe\<close>, of \<open>Start\<close>, the bytes it prints, the
  error met while copying them, and the error of \<open>Wait\<close>.\<close>

record proc_res =
  pr_pipe :: "goerr option"
  pr_start :: "goerr option"
  pr_out :: string
  pr_copy :: "goerr option"
  pr_wait :: "goerr option"

datatype hostkey = AcceptAny | KnownHosts string

datatype auth_method = AuthPassword string | AuthPublicKey string

record client_config =
  cc_User :: string
  cc_HostKey :: hostkey
  cc_Auth :: "auth_method list"

record mail =
  mail_addr :: string
  mail_user :: string
  mail_password :: string
  mail_host :: string
  mail_from :: string
  mail_to :: "string list"
  mail_body :: string

text \<open>Requests that left the program, in the order they were made.\<close>

datatype event =
    EvExec string "string list" "string list"
  | EvDial string client_config
  | EvDisconnect
  | EvSsh string
  | EvDocker string "string list" "string list"

record world =
  fs :: "(key \<times> node) list"
  tick :: nat
  handles :: int
  conns :: int
  sessions :: int
  mails :: "mail list"
  trace :: "event list"

record env =
  fault :: "nat \<Rightarrow> errno option"
  cut :: "nat \<Rightarrow> nat"
  clock :: "nat \<Rightarrow> dtime"
  rfc1123 :: "dtime \<Rightarrow> string"
  wd :: key
  euid :: int
  egid :: int
  umask :: "32 word"
  home_dir :: "goerr + string"
  current_home :: "string option"
  getenv :: "string \<Rightarrow> string"
  user_lookup :: "string \<Rightarrow> goerr + (string \<times> string)"
  look_path :: "string \<Rightarrow> goerr + string"
  run_proc :: "nat \<Rightarrow> string \<Rightarrow> string list \<Rightarrow> string list \<Rightarrow> proc_res"
  \<comment> \<open>gobwas/glob, yaml.v2, ini.v1\<close>
  glob_compile :: "string \<Rightarrow> goerr + (string \<Rightarrow> bool)"
  yaml_version :: "string \<Rightarrow> goerr + int"
  yaml_v1 :: "string \<Rightarrow> goerr + profileV1"
  ini_load :: "nat \<Rightarrow> string \<Rightarrow> goerr + (string \<Rightarrow> string \<Rightarrow> string option)"
  \<comment> \<open>net/smtp\<close>
  smtp_send :: "nat \<Rightarrow> mail \<Rightarrow> goerr option"
  \<comment> \<open>golang.org/x/crypto/ssh\<close>
  parse_key :: "string \<Rightarrow> string option \<Rightarrow> goerr + string"
  agent_dial :: "nat \<Rightarrow> string \<Rightarrow> goerr option"
  agent_signers :: "nat \<Rightarrow> goerr + string list"
  known_hosts :: "string \<Rightarrow> goerr option"
  ssh_dial :: "nat \<Rightarrow> string \<Rightarrow> client_config \<Rightarrow> goerr option"
  ssh_close :: "nat \<Rightarrow> goerr option"
  ssh_session :: "nat \<Rightarrow> goerr option"
  ssh_session_close :: "nat \<Rightarrow> goerr option"
  ssh_combined :: "nat \<Rightarrow> string \<Rightarrow> string \<times> goerr option"
  ssh_output :: "nat \<Rightarrow> string \<Rightarrow> goerr + string"
  ssh_run :: "nat \<Rightarrow> string \<Rightarrow> proc_res"
  \<comment> \<open>github.com/pkg/sftp\<close>
  sftp_client :: "nat \<Rightarrow> goerr option"
  sftp_close :: "nat \<Rightarrow> goerr option"
  sftp_getwd :: "nat \<Rightarrow> goerr + string"
  sftp_stat :: "nat \<Rightarrow> string \<Rightarrow> goerr + bool"
  sftp_readdir :: "nat \<Rightarrow> string \<Rightarrow> goerr + (string \<times> bool) list"
  sftp_walk :: "nat \<Rightarrow> string \<Rightarrow> (string \<times> (goerr + bool)) list"
  sftp_open :: "nat \<Rightarrow> string \<Rightarrow> goerr + string"
  sftp_read :: "nat \<Rightarrow> string \<Rightarrow> goerr option"
  sftp_file_close :: "nat \<Rightarrow> goerr option"
  \<comment> \<open>github.com/docker/docker/client\<close>
  docker_client :: "nat \<Rightarrow> goerr option"
  docker_client_close :: "nat \<Rightarrow> goerr option"
  docker_create :: "nat \<Rightarrow> string \<Rightarrow> string list \<Rightarrow> string list \<Rightarrow> goerr + string"
  docker_attach :: "nat \<Rightarrow> string \<Rightarrow> goerr + string"
  docker_demux :: "nat \<Rightarrow> string \<Rightarrow> string \<times> goerr option"
  docker_read :: "nat \<Rightarrow> goerr option"
  docker_inspect :: "nat \<Rightarrow> string \<Rightarrow> goerr + int"

text \<open>A call into a service: its result depends on the tick, which it advances.\<close>

definition service :: "(nat \<Rightarrow> 'a) \<Rightarrow> (world, 'a) go" where
  "service f w = (Ok (f (tick w)), w\<lparr>tick := Suc (tick w)\<rparr>)"

definition service_err :: "(nat \<Rightarrow> goerr option) \<Rightarrow> (world, unit) go" where
  "service_err f = bnd (service f) check_err"

definition from_sum :: "goerr + 'a \<Rightarrow> (world, 'a) go" where
  "from_sum r = (case r of Inl e \<Rightarrow> throw e | Inr x \<Rightarrow> ret x)"

definition service_sum :: "(nat \<Rightarrow> goerr + 'a) \<Rightarrow> (world, 'a) go" where
  "service_sum f = bnd (service f) from_sum"

definition log_event :: "event \<Rightarrow> (world, unit) go" where
  "log_event e = modify (\<lambda>w. w\<lparr>trace := trace w @ [e]\<rparr>)"

definition time_now :: "env \<Rightarrow> (world, dtime) go" where
  "time_now E = service (clock E)"


section \<open>System calls\<close>

definition node_at :: "world \<Rightarrow> key \<Rightarrow> node option" where
  "node_at w k = (if k = [] then Some Dir else map_of (fs w) k)"

definition set_node :: "key \<Rightarrow> node \<Rightarrow> world \<Rightarrow> world" where
  "set_node k n w = w\<lparr>fs := AList.update k n (fs w)\<rparr>"

definition del_node :: "key \<Rightarrow> world \<Rightarrow> world" where
  "del_node k w = w\<lparr>fs := AList.delete k (fs w)\<rparr>"

definition children :: "world \<Rightarrow> key \<Rightarrow> string list" where
  "children w k = sort (map last (filter (\<lambda>k'. k' \<noteq> [] \<and> butlast k' = k) (map fst (fs w))))"

definition link_limit :: nat where
  "link_limit = 40"

definition path_max :: nat where
  "path_max = 4096"

fun follow :: "nat \<Rightarrow> world \<Rightarrow> key \<Rightarrow> errno + key" where
  "follow n w k =
     (case node_at w k of
        Some (Link t) \<Rightarrow>
          (case n of 0 \<Rightarrow> Inl ELOOP | Suc m \<Rightarrow> follow m w (key_of (butlast k) t))
      | _ \<Rightarrow> Inr k)"

declare follow.simps [simp del]

text \<open>Looking up a missing file: \<open>ENOTDIR\<close> when a file stands where a directory should.\<close>

definition missing :: "world \<Rightarrow> key \<Rightarrow> errno" where
  "missing w k =
     (if list_ex (\<lambda>i. case node_at w (take i k) of Some (File c m) \<Rightarrow> True | _ \<Rightarrow> False) [0..<length k]
      then ENOTDIR else ENOENT)"

definition syscall :: "env \<Rightarrow> string \<Rightarrow> string \<Rightarrow> (key \<Rightarrow> (world, 'a) go) \<Rightarrow> (world, 'a) go" where
  "syscall E name p body w =
     (let w' = w\<lparr>tick := Suc (tick w)\<rparr> in
      case fault E (tick w) of
        Some e \<Rightarrow> (Fail (ErrPath name p e), w')
      | None \<Rightarrow>
          if p = [] then (Fail (ErrPath name p ENOENT), w')
          else if path_max \<le> length p then (Fail (ErrPath name p ENAMETOOLONG), w')
          else body (key_of (wd E) p) w')"

text \<open>The node a path leads to, links followed.\<close>

definition with_target ::
  "string \<Rightarrow> string \<Rightarrow> (key \<Rightarrow> node option \<Rightarrow> (world, 'a) go) \<Rightarrow> key \<Rightarrow> (world, 'a) go" where
  "with_target name p body k w =
     (case follow link_limit w k of
        Inl e \<Rightarrow> (Fail (ErrPath name p e), w)
      | Inr k' \<Rightarrow> body k' (node_at w k') w)"

definition fail_missing :: "string \<Rightarrow> string \<Rightarrow> key \<Rightarrow> (world, 'a) go" where
  "fail_missing name p k w = (Fail (ErrPath name p (missing w k)), w)"

definition os_stat :: "env \<Rightarrow> string \<Rightarrow> (world, finfo) go" where
  "os_stat E p = syscall E ''stat'' p (with_target ''stat'' p (\<lambda>k n.
     case n of None \<Rightarrow> fail_missing ''stat'' p k
     | Some x \<Rightarrow> ret \<lparr>fi_name = base p, fi_kind = kind_of x\<rparr>))"

definition os_lstat :: "env \<Rightarrow> string \<Rightarrow> (world, finfo) go" where
  "os_lstat E p = syscall E ''lstat'' p (\<lambda>k w.
     case node_at w k of None \<Rightarrow> fail_missing ''lstat'' p k w
     | Some x \<Rightarrow> ret \<lparr>fi_name = base p, fi_kind = kind_of x\<rparr> w)"

text \<open>A new entry can be made where the parent is a directory.\<close>

definition in_parent :: "string \<Rightarrow> string \<Rightarrow> key \<Rightarrow> (world, 'a) go \<Rightarrow> (world, 'a) go" where
  "in_parent name p k body w =
     (case node_at w (butlast k) of
        Some Dir \<Rightarrow> body w
      | Some (File c m) \<Rightarrow> (Fail (ErrPath name p ENOTDIR), w)
      | _ \<Rightarrow> (Fail (ErrPath name p (missing w k)), w))"

definition os_mkdir :: "env \<Rightarrow> string \<Rightarrow> (world, unit) go" where
  "os_mkdir E p = syscall E ''mkdir'' p (\<lambda>k w.
     case node_at w k of Some x \<Rightarrow> throw (ErrPath ''mkdir'' p EEXIST) w
     | None \<Rightarrow> in_parent ''mkdir'' p k (modify (set_node k Dir)) w)"

definition os_remove :: "env \<Rightarrow> string \<Rightarrow> (world, unit) go" where
  "os_remove E p = syscall E ''remove'' p (\<lambda>k w.
     case node_at w k of
       None \<Rightarrow> fail_missing ''remove'' p k w
     | Some Dir \<Rightarrow>
         if k = [] \<or> children w k \<noteq> [] then throw (ErrPath ''remove'' p ENOTEMPTY) w
         else modify (del_node k) w
     | Some x \<Rightarrow> modify (del_node k) w)"

text \<open>A new file belongs to the process, with the permissions asked for less the umask.\<close>

definition new_meta :: "env \<Rightarrow> 32 word \<Rightarrow> fmeta" where
  "new_meta E perm = \<lparr>m_uid = euid E, m_gid = egid E, m_mode = Bit_Operations.and perm (Bit_Operations.not (umask E))\<rparr>"

text \<open>Opening for writing, created or truncated; the result names the open file.\<close>

definition os_open_file :: "env \<Rightarrow> string \<Rightarrow> 32 word \<Rightarrow> (world, key) go" where
  "os_open_file E p perm = syscall E ''open'' p (with_target ''open'' p (\<lambda>k n.
     case n of
       Some Dir \<Rightarrow> throw (ErrPath ''open'' p EISDIR)
     | Some (File c m) \<Rightarrow> bnd (modify (\<lambda>w. set_node k (File (Raw []) m) w\<lparr>handles := handles w + 1\<rparr>)) (\<lambda>_. ret k)
     | _ \<Rightarrow> in_parent ''open'' p k
           (bnd (modify (\<lambda>w. set_node k (File (Raw []) (new_meta E perm)) w\<lparr>handles := handles w + 1\<rparr>)) (\<lambda>_. ret k))))"

text \<open>\<open>os.Create\<close> asks for the permissions 0666.\<close>

abbreviation os_create :: "env \<Rightarrow> string \<Rightarrow> (world, key) go" where
  "os_create E p \<equiv> os_open_file E p 438"

definition os_open :: "env \<Rightarrow> string \<Rightarrow> (world, key) go" where
  "os_open E p = syscall E ''open'' p (with_target ''open'' p (\<lambda>k n.
     case n of None \<Rightarrow> fail_missing ''open'' p k
     | Some x \<Rightarrow> bnd (modify (\<lambda>w. w\<lparr>handles := handles w + 1\<rparr>)) (\<lambda>_. ret k)))"

text \<open>The handle is gone whether or not \<open>close\<close> reports an error.\<close>

definition os_close :: "env \<Rightarrow> key \<Rightarrow> (world, unit) go" where
  "os_close E k w =
     (let w' = w\<lparr>tick := Suc (tick w), handles := handles w - 1\<rparr> in
      case fault E (tick w) of
        Some e \<Rightarrow> (Fail (ErrPath ''close'' (render True k) e), w')
      | None \<Rightarrow> (Ok (), w'))"

text \<open>Reading all of an open file.\<close>

definition file_read :: "env \<Rightarrow> key \<Rightarrow> (world, content) go" where
  "file_read E k w =
     (let w' = w\<lparr>tick := Suc (tick w)\<rparr> in
      case fault E (tick w) of
        Some e \<Rightarrow> (Fail (ErrPath ''read'' (render True k) e), w')
      | None \<Rightarrow>
          (case node_at w k of
             Some (File c m) \<Rightarrow> (Ok c, w')
           | Some Dir \<Rightarrow> (Fail (ErrPath ''read'' (render True k) EISDIR), w')
           | _ \<Rightarrow> (Fail (ErrPath ''read'' (render True k) EIO), w')))"

definition set_content :: "key \<Rightarrow> (content \<Rightarrow> content) \<Rightarrow> world \<Rightarrow> world" where
  "set_content k f w =
     (case node_at w k of Some (File c m) \<Rightarrow> set_node k (File (f c) m) w | _ \<Rightarrow> w)"

definition os_read_file :: "env \<Rightarrow> string \<Rightarrow> (world, content) go" where
  "os_read_file E p = syscall E ''open'' p (with_target ''open'' p (\<lambda>k n.
     case n of None \<Rightarrow> fail_missing ''open'' p k
     | Some (File c m) \<Rightarrow> ret c
     | _ \<Rightarrow> throw (ErrPath ''read'' p EISDIR)))"

definition os_readlink :: "env \<Rightarrow> string \<Rightarrow> (world, string) go" where
  "os_readlink E p = syscall E ''readlink'' p (\<lambda>k w.
     case node_at w k of
       None \<Rightarrow> fail_missing ''readlink'' p k w
     | Some (Link t) \<Rightarrow> ret t w
     | Some x \<Rightarrow> throw (ErrPath ''readlink'' p EINVAL) w)"

text \<open>The sorted entries of a directory, with the kind of each.\<close>

definition dir_entries :: "world \<Rightarrow> key \<Rightarrow> (string \<times> fkind) list" where
  "dir_entries w k =
     map (\<lambda>n. (n, case node_at w (k @ [n]) of Some x \<Rightarrow> kind_of x | None \<Rightarrow> KFile)) (children w k)"

definition os_read_dir :: "env \<Rightarrow> string \<Rightarrow> (world, (string \<times> fkind) list) go" where
  "os_read_dir E p = syscall E ''open'' p (with_target ''open'' p (\<lambda>k n.
     case n of
       None \<Rightarrow> fail_missing ''open'' p k
     | Some Dir \<Rightarrow> (\<lambda>w. ret (dir_entries w k) w)
     | Some x \<Rightarrow> throw (ErrPath ''readdirent'' p ENOTDIR)))"

definition os_readdirnames :: "env \<Rightarrow> string \<Rightarrow> (world, string list) go" where
  "os_readdirnames E p = bnd (os_read_dir E p) (\<lambda>es. ret (map fst es))"

definition os_chown :: "env \<Rightarrow> string \<Rightarrow> int \<Rightarrow> int \<Rightarrow> (world, unit) go" where
  "os_chown E p u g = syscall E ''chown'' p (with_target ''chown'' p (\<lambda>k n.
     case n of
       None \<Rightarrow> fail_missing ''chown'' p k
     | Some (File c m) \<Rightarrow> modify (set_node k (File c (m\<lparr>m_uid := u, m_gid := g\<rparr>)))
     | Some x \<Rightarrow> ret ()))"

definition os_chmod :: "env \<Rightarrow> string \<Rightarrow> 32 word \<Rightarrow> (world, unit) go" where
  "os_chmod E p md = syscall E ''chmod'' p (with_target ''chmod'' p (\<lambda>k n.
     case n of
       None \<Rightarrow> fail_missing ''chmod'' p k
     | Some (File c m) \<Rightarrow> modify (set_node k (File c (m\<lparr>m_mode := md\<rparr>)))
     | Some x \<Rightarrow> ret ()))"

text \<open>\<open>filepath.EvalSymlinks\<close>: the path with its last component's links followed.\<close>

fun follow_path :: "nat \<Rightarrow> key \<Rightarrow> world \<Rightarrow> string \<Rightarrow> errno + string" where
  "follow_path n d w p =
     (case node_at w (key_of d p) of
        None \<Rightarrow> Inl (missing w (key_of d p))
      | Some (Link t) \<Rightarrow>
          (case n of
             0 \<Rightarrow> Inl ELOOP
           | Suc m \<Rightarrow> follow_path m d w (if is_abs t then clean t else path_join [dir_of p, t]))
      | Some x \<Rightarrow> Inr (clean p))"

declare follow_path.simps [simp del]

definition eval_symlinks :: "env \<Rightarrow> string \<Rightarrow> (world, string) go" where
  "eval_symlinks E p = syscall E ''lstat'' p (\<lambda>k w.
     case follow_path link_limit (wd E) w p of
       Inl e \<Rightarrow> throw (ErrPath ''lstat'' p e) w
     | Inr q \<Rightarrow> ret q w)"

end
