(* ===== verification/FsLaws.thy ===== *)
theory FsLaws
  imports World
begin

text \<open>
  What the system calls promise to the components. Three relations between the state before
  and after a call are used throughout, each an instance of the locale
  \<open>effect_rel\<close>, so that a body built from calls that keep one keeps it too:

  \<^item> \<open>ticked\<close>: nothing but the tick moved (the calls that only look);
  \<^item> \<open>keeps f\<close>: the part \<open>f\<close> of the state is what it was;
  \<^item> \<open>frame K\<close>: outside the keys \<open>K\<close> no file changed, as long as no key of \<open>K\<close> is a
    symbolic link (writing through a link would reach outside).
\<close>

section \<open>The relations\<close>

definition ticked :: "world \<Rightarrow> world \<Rightarrow> bool" where
  "ticked w w' \<longleftrightarrow> w' = w\<lparr>tick := tick w'\<rparr>"

definition keeps :: "(world \<Rightarrow> 'b) \<Rightarrow> world \<Rightarrow> world \<Rightarrow> bool" where
  "keeps f w w' \<longleftrightarrow> f w' = f w"

definition is_link :: "world \<Rightarrow> key \<Rightarrow> bool" where
  "is_link w k \<longleftrightarrow> (case node_at w k of Some (Link t) \<Rightarrow> True | _ \<Rightarrow> False)"

definition no_links :: "key set \<Rightarrow> world \<Rightarrow> bool" where
  "no_links K w \<longleftrightarrow> (\<forall>k \<in> K. \<not> is_link w k)"

definition same_outside :: "key set \<Rightarrow> world \<Rightarrow> world \<Rightarrow> bool" where
  "same_outside K w w' \<longleftrightarrow> (\<forall>k. k \<notin> K \<longrightarrow> node_at w' k = node_at w k)"

definition frame :: "key set \<Rightarrow> world \<Rightarrow> world \<Rightarrow> bool" where
  "frame K w w' \<longleftrightarrow> (no_links K w \<longrightarrow> no_links K w' \<and> same_outside K w w')"

lemma ticked_refl [simp]: "ticked w w"
  by (simp add: ticked_def)

lemma ticked_tick [simp]: "ticked w (w\<lparr>tick := n\<rparr>)"
  by (simp add: ticked_def)

interpretation tk: effect_rel ticked
proof
  fix a b c
  assume "ticked a b" and "ticked b c"
  then show "ticked a c" by (cases a; cases b; cases c) (simp add: ticked_def)
qed simp

interpretation kp: effect_rel "keeps f" for f :: "world \<Rightarrow> 'b"
  by standard (simp_all add: keeps_def)

interpretation fr: effect_rel "frame K" for K
  by standard (auto simp: frame_def same_outside_def)

lemma effects_mono: "effects R m \<Longrightarrow> (\<And>w w'. R w w' \<Longrightarrow> S w w') \<Longrightarrow> effects S m"
  by (simp add: effects_def)

lemma ticked_fields:
  assumes "ticked w w'"
  shows "fs w' = fs w" "handles w' = handles w" "conns w' = conns w" "sessions w' = sessions w"
    "mails w' = mails w" "trace w' = trace w"
  using assms by (cases w; cases w'; simp add: ticked_def)+

lemma node_at_cong: "fs w' = fs w \<Longrightarrow> node_at w' k = node_at w k"
  by (simp add: node_at_def)

lemma keeps_fs_frame: "keeps fs w w' \<Longrightarrow> frame K w w'"
  by (auto simp: keeps_def frame_def no_links_def is_link_def same_outside_def node_at_def)

lemma ticked_keeps_fs: "ticked w w' \<Longrightarrow> keeps fs w w'"
  by (simp add: keeps_def ticked_fields)

lemma ticked_frame: "ticked w w' \<Longrightarrow> frame K w w'"
  by (intro keeps_fs_frame ticked_keeps_fs)

lemma effects_fs_frame: "effects (keeps fs) m \<Longrightarrow> effects (frame K) m"
  by (erule effects_mono) (rule keeps_fs_frame)

lemma effects_ticked_fs: "effects ticked m \<Longrightarrow> effects (keeps fs) m"
  by (erule effects_mono) (rule ticked_keeps_fs)

lemma effects_ticked_frame: "effects ticked m \<Longrightarrow> effects (frame K) m"
  by (erule effects_mono) (rule ticked_frame)


section \<open>Nodes and updates\<close>

lemma node_at_root [simp]: "node_at w [] = Some Dir"
  by (simp add: node_at_def)

lemma node_at_set: "node_at (set_node k n w) k' = (if k' = k \<and> k \<noteq> [] then Some n else node_at w k')"
  by (auto simp: node_at_def set_node_def AList.update_conv')

lemma node_at_del: "node_at (del_node k w) k' = (if k' = k \<and> k \<noteq> [] then None else node_at w k')"
  by (auto simp: node_at_def del_node_def AList.delete_conv')

lemma node_at_more [simp]:
  "node_at (w\<lparr>tick := a\<rparr>) k = node_at w k"
  "node_at (w\<lparr>handles := h\<rparr>) k = node_at w k"
  "node_at (w\<lparr>conns := c\<rparr>) k = node_at w k"
  "node_at (w\<lparr>sessions := c\<rparr>) k = node_at w k"
  "node_at (w\<lparr>mails := m\<rparr>) k = node_at w k"
  "node_at (w\<lparr>trace := t\<rparr>) k = node_at w k"
  by (simp_all add: node_at_def)

lemma set_node_other [simp]:
  "tick (set_node k n w) = tick w" "handles (set_node k n w) = handles w"
  "conns (set_node k n w) = conns w" "sessions (set_node k n w) = sessions w"
  "mails (set_node k n w) = mails w" "trace (set_node k n w) = trace w"
  by (simp_all add: set_node_def)

lemma del_node_other [simp]:
  "tick (del_node k w) = tick w" "handles (del_node k w) = handles w"
  "conns (del_node k w) = conns w" "sessions (del_node k w) = sessions w"
  "mails (del_node k w) = mails w" "trace (del_node k w) = trace w"
  by (simp_all add: del_node_def)

lemma is_link_more [simp]:
  "is_link (w\<lparr>tick := a\<rparr>) k = is_link w k"
  "is_link (w\<lparr>handles := h\<rparr>) k = is_link w k"
  by (simp_all add: is_link_def)

lemma follow_no_link: "\<not> is_link w k \<Longrightarrow> follow n w k = Inr k"
  by (subst follow.simps) (auto simp: is_link_def split: option.splits node.splits)

lemma follow_not_link: "follow n w k = Inr k' \<Longrightarrow> \<not> is_link w k'"
proof (induction n arbitrary: k)
  case 0
  then show ?case
    by (subst (asm) follow.simps) (auto simp: is_link_def split: option.splits node.splits)
next
  case (Suc n)
  then show ?case
    by (subst (asm) follow.simps) (auto simp: is_link_def split: option.splits node.splits)
qed

lemma frame_set_node:
  "k \<in> K \<Longrightarrow> (\<And>t. n \<noteq> Link t) \<Longrightarrow> frame K w (set_node k n w)"
  by (auto simp: frame_def no_links_def is_link_def same_outside_def node_at_set split: node.splits)

lemma frame_del_node: "k \<in> K \<Longrightarrow> frame K w (del_node k w)"
  by (auto simp: frame_def no_links_def is_link_def same_outside_def node_at_del)

lemma frame_trans: "frame K a b \<Longrightarrow> frame K b c \<Longrightarrow> frame K a c"
  by (rule fr.rel_trans)

lemma frame_handles [simp]: "frame K a (b\<lparr>handles := h\<rparr>) = frame K a b"
  by (simp add: frame_def no_links_def same_outside_def)

lemma frame_tick [simp]: "frame K a (b\<lparr>tick := h\<rparr>) = frame K a b"
  "frame K (a\<lparr>tick := h\<rparr>) b = frame K a b"
  by (simp_all add: frame_def no_links_def same_outside_def)

lemma frame_refl [simp]: "frame K a a"
  by (rule fr.rel_refl)

lemma frame_mono: "frame K w w' \<Longrightarrow> K \<subseteq> L \<Longrightarrow> frame L w w'"
  unfolding frame_def no_links_def is_link_def same_outside_def by (metis subsetD)


section \<open>The frame of each call\<close>

named_theorems calls

lemma effects_service [calls]: "effects ticked (service f)"
  by (rule effectsI) (simp add: service_def)

lemma effects_service_err [calls]: "effects ticked (service_err f)"
  unfolding service_err_def by (intro tk.keeps_combinators calls)

lemma effects_from_sum [calls]: "effects ticked (from_sum r)"
  by (cases r) (simp_all add: from_sum_def)

lemma effects_service_sum [calls]: "effects ticked (service_sum f)"
  unfolding service_sum_def by (intro tk.keeps_combinators calls)

lemma effects_time_now [calls]: "effects ticked (time_now E)"
  unfolding time_now_def by (rule calls)

lemma ticked_from_tick: "ticked (w\<lparr>tick := n\<rparr>) w' \<Longrightarrow> ticked w w'"
  using ticked_tick tk.rel_trans by blast

text \<open>A call whose body keeps a relation keeps it, if moving the tick does.\<close>

lemma syscall_rel:
  assumes "effect_rel R" and "\<And>(w :: world) n. R w (w\<lparr>tick := n\<rparr>)"
    and "\<And>w. R w (snd (body (key_of (wd E) p) w))"
  shows "effects R (syscall E name p body)"
proof (rule effectsI)
  fix w :: world
  let ?w = "w\<lparr>tick := Suc (tick w)\<rparr>"
  have "R ?w (snd (body (key_of (wd E) p) ?w))" by (rule assms(3))
  with assms(2) have "R w (snd (body (key_of (wd E) p) ?w))"
    using assms(1) unfolding effect_rel_def by blast
  then show "R w (snd (syscall E name p body w))"
    by (auto simp: syscall_def Let_def assms(2) split: option.splits)
qed

lemmas syscall_ticked = syscall_rel [OF tk.effect_rel_axioms, simplified]
lemmas syscall_frame = syscall_rel [OF fr.effect_rel_axioms, simplified]

lemma snd_with_target:
  "snd (with_target name p body k w) =
     (case follow link_limit w k of Inl e \<Rightarrow> w | Inr k' \<Rightarrow> snd (body k' (node_at w k') w))"
  by (simp add: with_target_def split: sum.splits)

lemma snd_fail_missing [simp]: "snd (fail_missing name p k w) = w"
  by (simp add: fail_missing_def)

lemma snd_ret [simp]: "snd (ret x w) = w"
  by (simp add: ret_def)

lemma snd_throw [simp]: "snd (throw e w) = w"
  by (simp add: throw_def)

lemma snd_modify [simp]: "snd (modify f w) = f w"
  by (simp add: modify_def)

lemma effects_os_stat [calls]: "effects ticked (os_stat E p)"
  unfolding os_stat_def
  by (rule syscall_ticked) (auto simp: snd_with_target split: sum.splits option.splits)

lemma effects_os_lstat [calls]: "effects ticked (os_lstat E p)"
  unfolding os_lstat_def by (rule syscall_ticked) (auto split: option.splits)

lemma effects_os_read_dir [calls]: "effects ticked (os_read_dir E p)"
  unfolding os_read_dir_def
  by (rule syscall_ticked) (auto simp: snd_with_target split: sum.splits option.splits node.splits)

lemma effects_os_readdirnames [calls]: "effects ticked (os_readdirnames E p)"
  unfolding os_readdirnames_def by (intro tk.keeps_combinators calls)

lemma effects_os_read_file [calls]: "effects ticked (os_read_file E p)"
  unfolding os_read_file_def
  by (rule syscall_ticked) (auto simp: snd_with_target split: sum.splits option.splits node.splits)

lemma effects_os_readlink [calls]: "effects ticked (os_readlink E p)"
  unfolding os_readlink_def by (rule syscall_ticked) (auto split: option.splits node.splits)

lemma effects_eval_symlinks [calls]: "effects ticked (eval_symlinks E p)"
  unfolding eval_symlinks_def by (rule syscall_ticked) (auto split: sum.splits)

lemma effects_file_read [calls]: "effects ticked (file_read E k)"
  by (rule effectsI) (auto simp: file_read_def Let_def split: option.splits node.splits)

text \<open>Opening and closing touch the count of handles, not the files.\<close>

lemma keeps_fs_simps [simp]:
  "keeps fs w w" "keeps fs w (w\<lparr>tick := n\<rparr>)" "keeps fs w (w\<lparr>handles := h\<rparr>)"
  by (simp_all add: keeps_def)

lemma syscall_fs:
  "(\<And>w. keeps fs w (snd (body (key_of (wd E) p) w))) \<Longrightarrow> effects (keeps fs) (syscall E name p body)"
  by (rule syscall_rel [OF kp.effect_rel_axioms]) simp_all

lemma effects_os_open [calls]: "effects (keeps fs) (os_open E p)"
  unfolding os_open_def
  by (rule syscall_fs)
    (auto simp: snd_with_target bnd_def modify_def ret_def split: sum.splits option.splits)

lemma effects_os_close [calls]: "effects (keeps fs) (os_close E k)"
  by (rule effectsI) (auto simp: os_close_def keeps_def Let_def split: option.splits)

lemma effects_log_event [calls]: "effects (keeps fs) (log_event e)"
  by (rule effectsI) (simp add: log_event_def keeps_def)

text \<open>The calls that write.\<close>

lemma effects_os_mkdir:
  "key_of (wd E) p \<in> K \<Longrightarrow> effects (frame K) (os_mkdir E p)"
  unfolding os_mkdir_def
  by (rule syscall_frame) (auto simp: in_parent_def frame_set_node split: option.splits node.splits)

lemma effects_os_remove:
  "key_of (wd E) p \<in> K \<Longrightarrow> effects (frame K) (os_remove E p)"
  unfolding os_remove_def
  by (rule syscall_frame) (auto simp: frame_del_node split: option.splits node.splits)

lemma frame_if_link: "is_link w k \<Longrightarrow> k \<in> K \<Longrightarrow> frame K w w'"
  by (auto simp: frame_def no_links_def)

lemma effects_os_create:
  assumes "key_of (wd E) p \<in> K"
  shows "effects (frame K) (os_open_file E p perm)"
  unfolding os_open_file_def
proof (rule syscall_frame)
  fix w
  let ?k = "key_of (wd E) p"
  let ?body = "\<lambda>k n. case n of Some Dir \<Rightarrow> throw (ErrPath ''open'' p EISDIR)
     | Some (File c m) \<Rightarrow> bnd (modify (\<lambda>w. set_node k (File (Raw []) m) w\<lparr>handles := handles w + 1\<rparr>)) (\<lambda>_. ret k)
     | _ \<Rightarrow> in_parent ''open'' p k
           (bnd (modify (\<lambda>w. set_node k (File (Raw []) (new_meta E perm)) w\<lparr>handles := handles w + 1\<rparr>)) (\<lambda>_. ret k))"
  show "frame K w (snd (with_target ''open'' p ?body ?k w))"
  proof (cases "is_link w ?k")
    case True
    then show ?thesis using assms by (rule frame_if_link)
  next
    case False
    then show ?thesis
      using assms
      by (auto simp: snd_with_target follow_no_link in_parent_def bnd_def modify_def ret_def
          frame_set_node split: option.splits node.splits)
  qed
qed

lemma effects_os_chown:
  assumes "key_of (wd E) p \<in> K"
  shows "effects (frame K) (os_chown E p u g)"
  unfolding os_chown_def
proof (rule syscall_frame)
  fix w
  let ?k = "key_of (wd E) p"
  let ?body = "\<lambda>k n. case n of None \<Rightarrow> fail_missing ''chown'' p k
     | Some (File c m) \<Rightarrow> modify (set_node k (File c (m\<lparr>m_uid := u, m_gid := g\<rparr>)))
     | Some x \<Rightarrow> ret ()"
  show "frame K w (snd (with_target ''chown'' p ?body ?k w))"
    using assms
    by (cases "is_link w ?k")
      (auto simp: frame_if_link snd_with_target follow_no_link frame_set_node
        split: option.splits node.splits)
qed

lemma effects_os_chmod:
  assumes "key_of (wd E) p \<in> K"
  shows "effects (frame K) (os_chmod E p md)"
  unfolding os_chmod_def
proof (rule syscall_frame)
  fix w
  let ?k = "key_of (wd E) p"
  let ?body = "\<lambda>k n. case n of None \<Rightarrow> fail_missing ''chmod'' p k
     | Some (File c m) \<Rightarrow> modify (set_node k (File c (m\<lparr>m_mode := md\<rparr>)))
     | Some x \<Rightarrow> ret ()"
  show "frame K w (snd (with_target ''chmod'' p ?body ?k w))"
    using assms
    by (cases "is_link w ?k")
      (auto simp: frame_if_link snd_with_target follow_no_link frame_set_node
        split: option.splits node.splits)
qed

lemma frame_set_content: "k \<in> K \<Longrightarrow> frame K w (set_content k f w)"
  by (auto simp: set_content_def frame_set_node split: option.splits node.splits)


section \<open>Directory listings\<close>

lemma mem_children:
  "n \<in> set (children w k) \<longleftrightarrow> (\<exists>x. (k @ [n], x) \<in> set (fs w))"
proof
  assume "n \<in> set (children w k)"
  then obtain k' x where "(k', x) \<in> set (fs w)" "k' \<noteq> []" "butlast k' = k" "last k' = n"
    by (auto simp: children_def)
  then show "\<exists>x. (k @ [n], x) \<in> set (fs w)"
    by (metis append_butlast_last_id)
next
  assume "\<exists>x. (k @ [n], x) \<in> set (fs w)"
  then obtain x where "(k @ [n], x) \<in> set (fs w)" ..
  then show "n \<in> set (children w k)"
    unfolding children_def by (force intro: image_eqI [where x = "k @ [n]"])
qed

lemma mem_children_iff: "n \<in> set (children w k) \<longleftrightarrow> node_at w (k @ [n]) \<noteq> None"
proof -
  have "node_at w (k @ [n]) \<noteq> None \<longleftrightarrow> k @ [n] \<in> fst ` set (fs w)"
    by (simp add: node_at_def dom_map_of_conv_image_fst [symmetric] dom_def)
  then show ?thesis by (force simp: mem_children)
qed

lemma sorted_children: "sorted (children w k)"
  by (simp add: children_def)

text \<open>A well-formed file system: every key once, and made of plain names.\<close>

definition fs_wf :: "world \<Rightarrow> bool" where
  "fs_wf w \<longleftrightarrow> distinct (map fst (fs w)) \<and> (\<forall>k \<in> fst ` set (fs w). plain_key k)"

lemma distinct_children:
  assumes "fs_wf w"
  shows "distinct (children w k)"
proof -
  let ?ks = "filter (\<lambda>k'. k' \<noteq> [] \<and> butlast k' = k) (map fst (fs w))"
  have "inj_on last (set ?ks)"
    by (rule inj_onI) (metis (mono_tags, lifting) append_butlast_last_id mem_Collect_eq set_filter)
  moreover have "distinct ?ks" using assms by (simp add: fs_wf_def)
  ultimately show ?thesis by (simp add: children_def distinct_map)
qed

lemma children_plain: "fs_wf w \<Longrightarrow> n \<in> set (children w k) \<Longrightarrow> plain_name n"
  by (force simp: mem_children fs_wf_def plain_key_def)

lemma children_cong: "fs w' = fs w \<Longrightarrow> children w' k = children w k"
  by (simp add: children_def)

text \<open>Two well-formed file systems with the same entries in a directory list the same.\<close>

lemma children_eqI:
  assumes "fs_wf w" and "fs_wf w'" and "\<And>n. node_at w (k @ [n]) = None \<longleftrightarrow> node_at w' (k @ [n]) = None"
  shows "children w k = children w' k"
proof (rule sorted_distinct_set_unique)
  show "set (children w k) = set (children w' k)"
    using assms(3) by (auto simp: mem_children_iff)
qed (use assms in \<open>auto intro: distinct_children sorted_children\<close>)

lemma fs_wf_set_node: "fs_wf w \<Longrightarrow> plain_key k \<Longrightarrow> fs_wf (set_node k n w)"
  unfolding fs_wf_def set_node_def set_map [symmetric]
  by (auto simp: distinct_update dom_update)

lemma fs_wf_more [simp]: "fs_wf (w\<lparr>tick := n\<rparr>) = fs_wf w" "fs_wf (w\<lparr>handles := h\<rparr>) = fs_wf w"
  by (simp_all add: fs_wf_def)

lemma fs_wf_set_content: "fs_wf w \<Longrightarrow> plain_key k \<Longrightarrow> fs_wf (set_content k f w)"
  by (auto simp: set_content_def fs_wf_set_node split: option.splits node.splits)

end
