(* ===== verification/FsRun.thy ===== *)
theory FsRun
  imports FsLaws
begin

text \<open>
  The system calls when none of them is made to fail: what each returns and how it changes
  the file system. The functional properties of the components are proved with these.
\<close>

definition no_faults :: "env \<Rightarrow> bool" where
  "no_faults E \<longleftrightarrow> (\<forall>t. fault E t = None)"

text \<open>A path the kernel accepts.\<close>

definition path_ok :: "string \<Rightarrow> bool" where
  "path_ok p \<longleftrightarrow> p \<noteq> [] \<and> length p < path_max"

abbreviation tock :: "world \<Rightarrow> world" where
  "tock w \<equiv> w\<lparr>tick := Suc (tick w)\<rparr>"

named_theorems fs_run

lemma syscall_run:
  "no_faults E \<Longrightarrow> path_ok p \<Longrightarrow> syscall E name p body w = body (key_of (wd E) p) (tock w)"
  by (simp add: syscall_def no_faults_def path_ok_def Let_def)

lemma follow_node: "node_at w k = Some n \<Longrightarrow> (\<And>t. n \<noteq> Link t) \<Longrightarrow> follow m w k = Inr k"
  by (subst follow.simps) (auto split: node.splits)

lemma follow_None: "node_at w k = None \<Longrightarrow> follow m w k = Inr k"
  by (subst follow.simps) simp

lemma os_stat_run [fs_run]:
  assumes "no_faults E" and "path_ok p" and "node_at w (key_of (wd E) p) = Some n"
    and "\<And>t. n \<noteq> Link t"
  shows "os_stat E p w = (Ok \<lparr>fi_name = base p, fi_kind = kind_of n\<rparr>, tock w)"
proof -
  have "node_at (tock w) (key_of (wd E) p) = Some n" using assms(3) by simp
  moreover from this have "follow link_limit (tock w) (key_of (wd E) p) = Inr (key_of (wd E) p)"
    using assms(4) by (rule follow_node)
  ultimately show ?thesis
    using assms(1,2) by (simp add: os_stat_def syscall_run with_target_def ret_def)
qed

lemma os_stat_missing [fs_run]:
  assumes "no_faults E" and "path_ok p" and "node_at w (key_of (wd E) p) = None"
  shows "os_stat E p w = (Fail (ErrPath ''stat'' p (missing (tock w) (key_of (wd E) p))), tock w)"
proof -
  have "node_at (tock w) (key_of (wd E) p) = None" using assms(3) by simp
  moreover from this have "follow link_limit (tock w) (key_of (wd E) p) = Inr (key_of (wd E) p)"
    by (rule follow_None)
  ultimately show ?thesis
    using assms(1,2) by (simp add: os_stat_def syscall_run with_target_def fail_missing_def)
qed

lemma missing_tock [simp]: "missing (w\<lparr>tick := n\<rparr>) k = missing w k"
  by (simp add: missing_def)

lemma children_tock [simp]: "children (w\<lparr>tick := n\<rparr>) k = children w k"
  by (simp add: children_def)

lemma follow_tick [simp]: "follow l (v\<lparr>tick := t\<rparr>) q = follow l v q"
proof (induction l arbitrary: q)
  case 0
  show ?case by (subst (1 2) follow.simps) (auto split: option.splits node.splits)
next
  case (Suc l)
  then show ?case by (subst (1 2) follow.simps) (auto split: option.splits node.splits)
qed

lemma os_readdirnames_run [fs_run]:
  assumes "no_faults E" and "path_ok p" and "node_at w (key_of (wd E) p) = Some Dir"
  shows "os_readdirnames E p w = (Ok (children w (key_of (wd E) p)), tock w)"
proof -
  have n: "node_at (tock w) (key_of (wd E) p) = Some Dir" using assms(3) by simp
  moreover from this have "follow link_limit (tock w) (key_of (wd E) p) = Inr (key_of (wd E) p)"
    by (rule follow_node) simp
  ultimately show ?thesis
    using assms(1,2)
    by (simp add: os_readdirnames_def os_read_dir_def bnd_def syscall_run with_target_def ret_def
        dir_entries_def comp_def)
qed

lemma os_remove_run [fs_run]:
  assumes "no_faults E" and "path_ok p" and "node_at w (key_of (wd E) p) = Some n" and "n \<noteq> Dir"
  shows "os_remove E p w = (Ok (), del_node (key_of (wd E) p) (tock w))"
  using assms
  by (cases n) (simp_all add: os_remove_def syscall_run modify_def)

lemma os_remove_empty_dir [fs_run]:
  assumes "no_faults E" and "path_ok p" and "node_at w (key_of (wd E) p) = Some Dir"
    and "key_of (wd E) p \<noteq> []" and "children w (key_of (wd E) p) = []"
  shows "os_remove E p w = (Ok (), del_node (key_of (wd E) p) (tock w))"
  using assms by (simp add: os_remove_def syscall_run modify_def)

lemma os_mkdir_run [fs_run]:
  assumes "no_faults E" and "path_ok p" and "node_at w (key_of (wd E) p) = None"
    and "node_at w (butlast (key_of (wd E) p)) = Some Dir"
  shows "os_mkdir E p w = (Ok (), set_node (key_of (wd E) p) Dir (tock w))"
  using assms by (simp add: os_mkdir_def syscall_run in_parent_def modify_def)

lemma os_create_run [fs_run]:
  assumes "no_faults E" and "path_ok p" and "node_at w (key_of (wd E) p) = None"
    and "node_at w (butlast (key_of (wd E) p)) = Some Dir"
  shows "os_open_file E p perm w =
    (Ok (key_of (wd E) p),
     set_node (key_of (wd E) p) (File (Raw []) (new_meta E perm)) (tock w)\<lparr>handles := handles w + 1\<rparr>)"
proof -
  have n: "node_at (tock w) (key_of (wd E) p) = None" using assms(3) by simp
  moreover from this have "follow link_limit (tock w) (key_of (wd E) p) = Inr (key_of (wd E) p)"
    by (rule follow_None)
  ultimately show ?thesis
    using assms by (simp add: os_open_file_def syscall_run with_target_def in_parent_def bnd_def modify_def ret_def)
qed

lemma os_close_run [fs_run]:
  "no_faults E \<Longrightarrow> os_close E k w = (Ok (), w\<lparr>tick := Suc (tick w), handles := handles w - 1\<rparr>)"
  by (simp add: os_close_def no_faults_def Let_def)

lemma file_read_run [fs_run]:
  "no_faults E \<Longrightarrow> node_at w k = Some (File c m) \<Longrightarrow> file_read E k w = (Ok c, tock w)"
  by (simp add: file_read_def no_faults_def Let_def)

lemma os_open_run [fs_run]:
  assumes "no_faults E" and "path_ok p" and "node_at w (key_of (wd E) p) = Some n"
    and "\<And>t. n \<noteq> Link t"
  shows "os_open E p w = (Ok (key_of (wd E) p), (tock w)\<lparr>handles := handles w + 1\<rparr>)"
proof -
  have "node_at (tock w) (key_of (wd E) p) = Some n" using assms(3) by simp
  moreover from this have "follow link_limit (tock w) (key_of (wd E) p) = Inr (key_of (wd E) p)"
    using assms(4) by (rule follow_node)
  ultimately show ?thesis
    using assms(1,2) by (simp add: os_open_def syscall_run with_target_def bnd_def modify_def ret_def)
qed

lemma os_lstat_run [fs_run]:
  assumes "no_faults E" and "path_ok p" and "node_at w (key_of (wd E) p) = Some n"
  shows "os_lstat E p w = (Ok \<lparr>fi_name = base p, fi_kind = kind_of n\<rparr>, tock w)"
  using assms by (simp add: os_lstat_def syscall_run ret_def)

lemma os_read_file_run [fs_run]:
  assumes "no_faults E" and "path_ok p" and "node_at w (key_of (wd E) p) = Some (File c m)"
  shows "os_read_file E p w = (Ok c, tock w)"
proof -
  have "node_at (tock w) (key_of (wd E) p) = Some (File c m)" using assms(3) by simp
  moreover from this have "follow link_limit (tock w) (key_of (wd E) p) = Inr (key_of (wd E) p)"
    by (rule follow_node) simp
  ultimately show ?thesis
    using assms(1,2) by (simp add: os_read_file_def syscall_run with_target_def ret_def)
qed

end
