(* ===== verification/GoGlob.thy ===== *)
theory GoGlob
  imports FsRun
begin

text \<open>
  Two pattern languages. The first part is \<open>filepath.Match\<close> and \<open>filepath.Glob\<close> of the
  standard library, with which \<open>ExpurgeDir\<close> lists a directory. The second is what the
  program relies on from \<open>github.com/gobwas/glob\<close>: the locale \<open>dated_glob\<close>, stating
  what a compiled backup pattern matches, interpreted on a matcher written from the grammar
  that package documents (alternatives in braces are rejected there).
\<close>

section \<open>filepath.Match\<close>

datatype pat = PStar | PAny | PChr char | PClass bool "(char \<times> char) list"

fun get_esc :: "string \<Rightarrow> (char \<times> string) option" where
  "get_esc [] = None"
| "get_esc (c # r) =
     (if c = CHR ''-'' \<or> c = CHR '']'' then None
      else if c = CHR 0x5C then
        (case r of d # r' \<Rightarrow> if r' = [] then None else Some (d, r') | [] \<Rightarrow> None)
      else if r = [] then None else Some (c, r))"

lemma get_esc_shorter: "get_esc s = Some (c, r) \<Longrightarrow> length r < length s"
  by (cases s) (auto split: if_splits list.splits)

text \<open>One range \<open>lo\<close> or \<open>lo-hi\<close>.\<close>

definition get_range :: "string \<Rightarrow> ((char \<times> char) \<times> string) option" where
  "get_range s =
     (case get_esc s of
        None \<Rightarrow> None
      | Some (lo, r) \<Rightarrow>
          (case r of
             x # r' \<Rightarrow>
               if x = CHR ''-'' then
                 (case get_esc r' of Some (hi, r'') \<Rightarrow> Some ((lo, hi), r'') | None \<Rightarrow> None)
               else Some ((lo, lo), r)
           | [] \<Rightarrow> None))"

lemma get_range_shorter: "get_range s = Some (p, r) \<Longrightarrow> length r < length s"
  by (auto simp: get_range_def split: option.splits list.splits if_splits dest!: get_esc_shorter)

function parse_ranges :: "bool \<Rightarrow> string \<Rightarrow> ((char \<times> char) list \<times> string) option" where
  "parse_ranges some s =
     (if some \<and> s \<noteq> [] \<and> hd s = CHR '']'' then Some ([], tl s)
      else (case get_range s of
              None \<Rightarrow> None
            | Some (p, r) \<Rightarrow>
                (case parse_ranges True r of None \<Rightarrow> None | Some (ps, r') \<Rightarrow> Some (p # ps, r'))))"
  by pat_completeness auto
termination
  by (relation "measure (\<lambda>(b, s). length s)") (auto dest: get_range_shorter)

declare parse_ranges.simps [simp del]

lemma parse_ranges_shorter: "parse_ranges b s = Some (ps, r) \<Longrightarrow> length r < length s \<or> s = []"
proof (induction b s arbitrary: ps r rule: parse_ranges.induct)
  case (1 b s)
  show ?case
  proof (cases "b \<and> s \<noteq> [] \<and> hd s = CHR '']''")
    case True
    from "1.prems" True have "r = tl s" by (subst (asm) parse_ranges.simps) simp
    with True show ?thesis by (cases s) simp_all
  next
    case False
    with "1.prems" obtain p r1 ps' where g: "get_range s = Some (p, r1)"
      and p: "parse_ranges True r1 = Some (ps', r)"
      by (auto simp: parse_ranges.simps [of b s] split: option.splits)
    have "length r < length r1 \<or> r1 = []" using "1.IH" [OF False g _ p] by simp
    moreover have "r1 \<noteq> []"
      using p by (auto simp: parse_ranges.simps [of True "[]"] get_range_def)
    ultimately show ?thesis using get_range_shorter [OF g] by simp
  qed
qed

definition parse_class :: "string \<Rightarrow> (pat \<times> string) option" where
  "parse_class s =
     (let neg = (s \<noteq> [] \<and> hd s = CHR ''^'') in
      case parse_ranges False (if neg then tl s else s) of
        Some (ps, r) \<Rightarrow> Some (PClass neg ps, r)
      | None \<Rightarrow> None)"

lemma parse_ranges_Nil [simp]: "parse_ranges b [] = None"
  by (subst parse_ranges.simps) (simp add: get_range_def)

lemma parse_class_shorter: "parse_class s = Some (p, r) \<Longrightarrow> length r \<le> length s"
  by (cases s; cases "tl s")
    (auto simp: parse_class_def Let_def split: option.splits if_splits dest!: parse_ranges_shorter)

function parse_pat :: "string \<Rightarrow> pat list option" where
  "parse_pat [] = Some []"
| "parse_pat (c # r) =
     (if c = CHR ''*'' then map_option ((#) PStar) (parse_pat r)
      else if c = CHR ''?'' then map_option ((#) PAny) (parse_pat r)
      else if c = CHR 0x5C then
        (case r of [] \<Rightarrow> None | d # r' \<Rightarrow> map_option ((#) (PChr d)) (parse_pat r'))
      else if c = CHR ''['' then
        (case parse_class r of None \<Rightarrow> None | Some (p, r') \<Rightarrow> map_option ((#) p) (parse_pat r'))
      else map_option ((#) (PChr c)) (parse_pat r))"
  by pat_completeness auto
termination
  by (relation "measure length") (auto dest: parse_class_shorter)

fun pat_match :: "pat list \<Rightarrow> string \<Rightarrow> bool" where
  "pat_match [] s = (s = [])"
| "pat_match (PStar # ps) [] = pat_match ps []"
| "pat_match (PStar # ps) (c # s) = (pat_match ps (c # s) \<or> (c \<noteq> slash \<and> pat_match (PStar # ps) s))"
| "pat_match (PAny # ps) [] = False"
| "pat_match (PAny # ps) (c # s) = (c \<noteq> slash \<and> pat_match ps s)"
| "pat_match (PChr d # ps) [] = False"
| "pat_match (PChr d # ps) (c # s) = (c = d \<and> pat_match ps s)"
| "pat_match (PClass neg rs # ps) [] = False"
| "pat_match (PClass neg rs # ps) (c # s) =
     ((list_ex (\<lambda>(lo, hi). lo \<le> c \<and> c \<le> hi) rs \<noteq> neg) \<and> pat_match ps s)"

lemma pat_match_text: "pat_match (map PChr xs) s \<longleftrightarrow> s = xs"
proof (induction xs arbitrary: s)
  case Nil
  then show ?case by simp
next
  case (Cons x xs)
  then show ?case by (cases s) auto
qed

lemma pat_match_star_text:
  "pat_match (PStar # map PChr xs) s \<longleftrightarrow> (\<exists>a. s = a @ xs \<and> slash \<notin> set a)"
proof (induction s)
  case Nil
  then show ?case by (auto simp: pat_match_text)
next
  case (Cons c s)
  have "pat_match (PStar # map PChr xs) (c # s) \<longleftrightarrow>
      c # s = xs \<or> (c \<noteq> slash \<and> (\<exists>a. s = a @ xs \<and> slash \<notin> set a))"
    by (simp add: pat_match_text Cons.IH)
  also have "\<dots> \<longleftrightarrow> (\<exists>a. c # s = a @ xs \<and> slash \<notin> set a)"
    unfolding Cons_eq_append_conv by fastforce
  finally show ?case .
qed

lemma parse_pat_zip: "parse_pat ''*.zip'' = Some (PStar # map PChr ''.zip'')"
  by simp

lemma pat_match_zip:
  assumes "slash \<notin> set n"
  shows "pat_match (the (parse_pat ''*.zip'')) n \<longleftrightarrow> has_suffix n ''.zip''"
proof -
  have "pat_match (the (parse_pat ''*.zip'')) n \<longleftrightarrow> (\<exists>a. n = a @ ''.zip'' \<and> slash \<notin> set a)"
    by (simp only: parse_pat_zip option.sel pat_match_star_text)
  with assms show ?thesis by (auto simp: has_suffix_iff)
qed


section \<open>filepath.Glob\<close>

definition has_meta :: "string \<Rightarrow> bool" where
  "has_meta s \<longleftrightarrow> list_ex (\<lambda>c. c \<in> {CHR ''*'', CHR ''?'', CHR ''['', CHR 0x5C}) s"

text \<open>The last slash splits a pattern into its directory and its file part.\<close>

definition split_dir :: "string \<Rightarrow> string \<times> string" where
  "split_dir p =
     (let parts = split_on slash p;
          d = str_join [slash] (butlast parts)
      in (if length parts = 1 then dot else if d = [] then ''/'' else d, last parts))"

definition glob_dir :: "env \<Rightarrow> string \<Rightarrow> string \<Rightarrow> (world, string list) go" where
  "glob_dir E d f =
     bnd (attempt (os_stat E d)) (\<lambda>r.
       case r of
         Inl e \<Rightarrow> ret []
       | Inr fi \<Rightarrow>
           if \<not> IsDir fi then ret []
           else bnd (attempt (os_readdirnames E d)) (\<lambda>r.
             case r of
               Inl e \<Rightarrow> ret []
             | Inr names \<Rightarrow>
                 ret (map (\<lambda>n. path_join [d, n])
                   (filter (pat_match (the (parse_pat f))) names))))"

fun glob_dirs :: "env \<Rightarrow> string list \<Rightarrow> string \<Rightarrow> (world, string list) go" where
  "glob_dirs E [] f = ret []"
| "glob_dirs E (d # ds) f =
     bnd (glob_dir E d f) (\<lambda>m. bnd (glob_dirs E ds f) (\<lambda>ms. ret (m @ ms)))"

fun glob_rec :: "nat \<Rightarrow> env \<Rightarrow> string \<Rightarrow> (world, string list) go" where
  "glob_rec n E p =
     (if parse_pat p = None then throw (ErrNew ''syntax error in pattern'')
      else if \<not> has_meta p then
        bnd (attempt (os_lstat E p)) (\<lambda>r. case r of Inl e \<Rightarrow> ret [] | Inr fi \<Rightarrow> ret [p])
      else (case split_dir p of (d, f) \<Rightarrow>
        if \<not> has_meta d then glob_dir E d f
        else (case n of
                0 \<Rightarrow> throw (ErrNew ''syntax error in pattern'')
              | Suc m \<Rightarrow> bnd (glob_rec m E d) (\<lambda>ds. glob_dirs E ds f))))"

declare glob_rec.simps [simp del]

text \<open>Each level of the recursion drops a path component, so the pattern's length is enough.\<close>

definition filepath_glob :: "env \<Rightarrow> string \<Rightarrow> (world, string list) go" where
  "filepath_glob E p = glob_rec (length p) E p"

lemma effects_glob_dir: "effects ticked (glob_dir E d f)"
  unfolding glob_dir_def
  by (intro tk.keeps_bnd tk.keeps_attempt calls)
    (auto split: sum.splits intro!: tk.keeps_bnd tk.keeps_attempt calls)

lemma effects_glob_dirs: "effects ticked (glob_dirs E ds f)"
  by (induction ds) (auto intro!: tk.keeps_bnd effects_glob_dir)

lemma effects_glob_rec: "effects ticked (glob_rec n E p)"
proof (induction n arbitrary: p)
  case 0
  show ?case
    by (subst glob_rec.simps)
      (auto split: sum.splits prod.splits intro!: tk.keeps_bnd tk.keeps_attempt calls effects_glob_dir)
next
  case (Suc n)
  show ?case
    by (subst glob_rec.simps)
      (auto split: sum.splits prod.splits
        intro!: tk.keeps_bnd tk.keeps_attempt calls effects_glob_dir effects_glob_dirs Suc)
qed

lemma effects_filepath_glob [calls]: "effects ticked (filepath_glob E p)"
  unfolding filepath_glob_def by (rule effects_glob_rec)

text \<open>Without failing calls, the pattern \<open><dir>/*.zip\<close> lists the zip files of a directory.\<close>

lemma parse_pat_plain:
  "\<not> has_meta p \<Longrightarrow> parse_pat (p @ r) = map_option ((@) (map PChr p)) (parse_pat r)"
proof (induction p)
  case Nil
  then show ?case by (cases "parse_pat r") simp_all
next
  case (Cons c p)
  then have "\<not> has_meta p" and c: "c \<notin> {CHR ''*'', CHR ''?'', CHR ''['', CHR 0x5C}"
    by (simp_all add: has_meta_def)
  then have "parse_pat (c # p @ r) = map_option ((#) (PChr c)) (parse_pat (p @ r))"
    by (subst parse_pat.simps(2)) (simp only: insert_iff empty_iff de_Morgan_disj if_False)
  with Cons.IH \<open>\<not> has_meta p\<close> show ?case by (cases "parse_pat r") simp_all
qed

lemma has_meta_append [simp]: "has_meta (a @ b) \<longleftrightarrow> has_meta a \<or> has_meta b"
  by (simp add: has_meta_def)

lemma split_dir_zip:
  assumes "p \<noteq> []"
  shows "split_dir (p @ ''/*.zip'') = (p, ''*.zip'')"
proof -
  have "split_on slash (p @ ''/*.zip'') = split_on slash p @ [''*.zip'']"
    using split_on_append_sep [of slash p "''*.zip''"] by (simp add: split_on_no_sep)
  then show ?thesis using assms by (simp add: split_dir_def Let_def str_join_split_on)
qed

lemma filepath_glob_zip_run:
  assumes "no_faults E" and "path_ok p" and "\<not> has_meta p" and "fs_wf w"
    and dir: "node_at w (key_of (wd E) p) = Some Dir"
  shows "filepath_glob E (p @ ''/*.zip'') w =
    (Ok (map (\<lambda>n. path_join [p, n])
       (filter (\<lambda>n. has_suffix n ''.zip'') (children w (key_of (wd E) p)))), tock (tock w))"
proof -
  have "p \<noteq> []" using assms(2) by (simp add: path_ok_def)
  obtain ps where "parse_pat (p @ ''/*.zip'') = Some ps"
    using assms(3) by (simp add: parse_pat_plain)
  moreover have "has_meta (p @ ''/*.zip'')" by (simp add: has_meta_def)
  ultimately have "filepath_glob E (p @ ''/*.zip'') w = glob_dir E p ''*.zip'' w"
    unfolding filepath_glob_def
    by (subst glob_rec.simps) (simp add: split_dir_zip [OF \<open>p \<noteq> []\<close>] assms(3) del: parse_pat.simps)
  also have "\<dots> = (Ok (map (\<lambda>n. path_join [p, n])
       (filter (pat_match (the (parse_pat ''*.zip''))) (children w (key_of (wd E) p)))), tock (tock w))"
    using assms(1,2) dir
    by (simp add: glob_dir_def bnd_def attempt_def os_stat_run os_readdirnames_run IsDir_def ret_def
        del: parse_pat.simps)
  also have "filter (pat_match (the (parse_pat ''*.zip''))) (children w (key_of (wd E) p)) =
      filter (\<lambda>n. has_suffix n ''.zip'') (children w (key_of (wd E) p))"
    by (rule filter_cong)
      (use children_plain [OF assms(4)] in \<open>auto simp: pat_match_zip plain_name_def simp del: parse_pat.simps\<close>)
  finally show ?thesis .
qed


section \<open>Backup patterns of gobwas/glob\<close>

definition stamp_pattern :: string where
  "stamp_pattern =
     ''_[0-9][0-9][0-9][0-9]_[0-9][0-9]_[0-9][0-9]-[0-9][0-9]:[0-9][0-9]:[0-9][0-9]_backup.zip''"

definition backup_pattern :: "string \<Rightarrow> string" where
  "backup_pattern name = name @ stamp_pattern"

text \<open>A name without the characters that are special in a pattern, and ASCII.\<close>

definition glob_plain :: "string \<Rightarrow> bool" where
  "glob_plain s \<longleftrightarrow>
     list_all (\<lambda>c. c \<notin> {CHR ''*'', CHR ''?'', CHR ''['', CHR 0x5C, CHR ''{''} \<and>
       c \<noteq> CHR 0x00 \<and> (of_char c :: nat) < 128) s"

text \<open>What the pattern is meant to match: the name, and then a date stamp and the suffix.\<close>

definition suffix_template :: string where
  "suffix_template = ''_'' @ stamp_template @ ''_backup.zip''"

definition is_backup_of :: "string \<Rightarrow> string \<Rightarrow> bool" where
  "is_backup_of name f \<longleftrightarrow>
     take (length name) f = name \<and> fits suffix_template (drop (length name) f)"

locale dated_glob =
  fixes gc :: "string \<Rightarrow> goerr + (string \<Rightarrow> bool)"
  assumes compiles: "glob_plain name \<Longrightarrow> \<exists>m. gc (backup_pattern name) = Inr m"
    and matches: "glob_plain name \<Longrightarrow> gc (backup_pattern name) = Inr m \<Longrightarrow> m f = is_backup_of name f"
begin

lemma compiled:
  assumes "glob_plain name"
  obtains m where "gc (backup_pattern name) = Inr m" and "m = is_backup_of name"
  using compiles [OF assms] matches [OF assms] by blast

end

text \<open>A matcher for the documented grammar, without alternatives.\<close>

datatype gterm = GChar char | GSingle | GStar | GRange bool char char | GList bool "char list"

definition parse_gclass :: "bool \<Rightarrow> string \<Rightarrow> (gterm \<times> string) option" where
  "parse_gclass neg s =
     (if 4 \<le> length s \<and> s ! 1 = CHR ''-'' \<and> s ! 3 = CHR '']'' then
        Some (GRange neg (s ! 0) (s ! 2), drop 4 s)
      else
        (let cs = takeWhile (\<lambda>c. c \<noteq> CHR '']'') s; r = dropWhile (\<lambda>c. c \<noteq> CHR '']'') s in
         if cs = [] \<or> r = [] then None else Some (GList neg cs, tl r)))"

lemma dropWhile_shorter: "length (dropWhile P s) \<le> length s"
  by (induction s) auto

lemma parse_gclass_shorter: "parse_gclass neg s = Some (t, r) \<Longrightarrow> length r \<le> length s"
  using dropWhile_shorter [of "\<lambda>c. c \<noteq> CHR '']''" s]
  by (auto simp: parse_gclass_def Let_def split: if_splits)

function parse_glob :: "string \<Rightarrow> gterm list option" where
  "parse_glob [] = Some []"
| "parse_glob (c # r) =
     (if c = CHR ''*'' then map_option ((#) GStar) (parse_glob r)
      else if c = CHR ''?'' then map_option ((#) GSingle) (parse_glob r)
      else if c = CHR ''{'' then None
      else if c = CHR 0x5C then
        (case r of [] \<Rightarrow> Some [] | d # r' \<Rightarrow> map_option ((#) (GChar d)) (parse_glob r'))
      else if c = CHR ''['' then
        (let neg = (r \<noteq> [] \<and> hd r = CHR ''!'') in
         case parse_gclass neg (if neg then tl r else r) of
           None \<Rightarrow> None
         | Some (t, r') \<Rightarrow> map_option ((#) t) (parse_glob r'))
      else map_option ((#) (GChar c)) (parse_glob r))"
  by pat_completeness auto
termination
  by (relation "measure length")
    (auto dest!: parse_gclass_shorter split: if_splits)

fun term_ok :: "gterm \<Rightarrow> char \<Rightarrow> bool" where
  "term_ok (GChar d) c = (c = d)"
| "term_ok GSingle c = True"
| "term_ok GStar c = True"
| "term_ok (GRange neg lo hi) c = ((lo \<le> c \<and> c \<le> hi) \<noteq> neg)"
| "term_ok (GList neg cs) c = ((c \<in> set cs) \<noteq> neg)"

fun glob_match :: "gterm list \<Rightarrow> string \<Rightarrow> bool" where
  "glob_match [] s = (s = [])"
| "glob_match (GStar # ts) [] = glob_match ts []"
| "glob_match (GStar # ts) (c # s) = (glob_match ts (c # s) \<or> glob_match (GStar # ts) s)"
| "glob_match (t # ts) [] = False"
| "glob_match (t # ts) (c # s) = (term_ok t c \<and> glob_match ts s)"

definition glob_ref :: "string \<Rightarrow> goerr + (string \<Rightarrow> bool)" where
  "glob_ref p =
     (case parse_glob p of
        None \<Rightarrow> Inl (ErrNew ''syntax error'')
      | Some ts \<Rightarrow> Inr (glob_match ts))"

lemma glob_match_chars:
  "GStar \<notin> set ts \<Longrightarrow> glob_match ts s \<longleftrightarrow> list_all2 term_ok ts s"
proof (induction ts arbitrary: s)
  case Nil
  then show ?case by simp
next
  case (Cons t ts)
  then show ?case by (cases s; cases t) auto
qed

lemma parse_glob_char:
  "c \<notin> {CHR ''*'', CHR ''?'', CHR ''['', CHR 0x5C, CHR ''{''} \<Longrightarrow>
     parse_glob (c # r) = map_option ((#) (GChar c)) (parse_glob r)"
  by (subst parse_glob.simps(2)) (simp only: insert_iff empty_iff de_Morgan_disj if_False)

lemma parse_glob_plain:
  assumes "glob_plain name"
  shows "parse_glob (name @ r) = map_option ((@) (map GChar name)) (parse_glob r)"
  using assms
proof (induction name)
  case Nil
  show ?case by (cases "parse_glob r") simp_all
next
  case (Cons c name)
  then have "parse_glob (c # name @ r) = map_option ((#) (GChar c)) (parse_glob (name @ r))"
    by (intro parse_glob_char) (simp add: glob_plain_def)
  moreover have "glob_plain name" using Cons.prems by (simp add: glob_plain_def)
  ultimately show ?case using Cons.IH by (cases "parse_glob r") simp_all
qed

definition stamp_term :: "char \<Rightarrow> gterm" where
  "stamp_term c = (if c = CHR ''d'' then GRange False (CHR ''0'') (CHR ''9'') else GChar c)"

lemma parse_stamp_pattern: "parse_glob stamp_pattern = Some (map stamp_term suffix_template)"
  by (simp add: stamp_pattern_def suffix_template_def stamp_template_def stamp_term_def
      parse_gclass_def)

lemma list_all2_stamp: "list_all2 term_ok (map stamp_term tpl) s \<longleftrightarrow> fits tpl s"
  by (simp add: fits_def list_all2_map1 stamp_term_def is_digit_def if_distrib if_distribR
      cong: if_cong)

lemma list_all2_GChar: "list_all2 term_ok (map GChar xs) s \<longleftrightarrow> s = xs"
  by (auto simp: list_all2_map1 list_all2_eq [symmetric] eq_commute)

lemma no_star: "GStar \<notin> set (map GChar name @ map stamp_term tpl)"
  by (auto simp: stamp_term_def split: if_splits)

lemma is_backup_of_split:
  "is_backup_of name f \<longleftrightarrow> (\<exists>s. f = name @ s \<and> fits suffix_template s)"
  unfolding is_backup_of_def
  by (metis append_eq_conv_conj append_take_drop_id)

lemma glob_ref_backup:
  assumes "glob_plain name"
  shows "glob_ref (backup_pattern name) = Inr (is_backup_of name)"
proof -
  let ?ts = "map GChar name @ map stamp_term suffix_template"
  have "glob_ref (backup_pattern name) = Inr (glob_match ?ts)"
    by (simp add: glob_ref_def backup_pattern_def parse_glob_plain [OF assms] parse_stamp_pattern
        del: parse_glob.simps)
  moreover have "glob_match ?ts f = is_backup_of name f" for f
  proof -
    have "glob_match ?ts f \<longleftrightarrow> list_all2 term_ok ?ts f"
      by (rule glob_match_chars [OF no_star])
    also have "\<dots> \<longleftrightarrow> is_backup_of name f"
      by (auto simp: list_all2_append1 list_all2_GChar list_all2_stamp is_backup_of_split
          intro: fits_length [symmetric])
    finally show ?thesis .
  qed
  ultimately show ?thesis by (simp add: fun_eq_iff)
qed

interpretation gobwas: dated_glob glob_ref
  by standard (simp_all add: glob_ref_backup)

end
