(* ===== verification/RefEnv.thy ===== *)
theory RefEnv
  imports GoGlob
begin

text \<open>
  A concrete environment, on which the theorems with hypotheses are instantiated: no call
  fails, the clock stands still, patterns are compiled by the reference matcher, and every
  service answers in the simplest way it can.
\<close>

definition quiet_proc :: "string \<Rightarrow> proc_res" where
  "quiet_proc out = \<lparr>pr_pipe = None, pr_start = None, pr_out = out, pr_copy = None, pr_wait = None\<rparr>"

definition empty_profile :: profileV1 where
  "empty_profile = \<lparr>v1_Name = [], v1_Type = [],
     v1_Ssh = \<lparr>ssh_Type = [], ssh_Host = [], ssh_Port = 0, ssh_User = [], ssh_Password = [],
       ssh_PrivateKey = [], ssh_Passphrase = []\<rparr>,
     v1_Dirs = [], v1_Dbs = [],
     v1_Destination = \<lparr>dest_Path = [], dest_Keep = 0, dest_Owner = [], dest_Mode = []\<rparr>,
     v1_Notify = \<lparr>en_Host = [], en_Port = [], en_User = [], en_Password = [], en_From = [],
       en_To = [], en_OnSuccess = False\<rparr>\<rparr>"

definition ref_time :: dtime where
  "ref_time = DTime 2024 2 29 23 59 58"

definition ref_env :: env where
  "ref_env = \<lparr>fault = (\<lambda>t. None), cut = (\<lambda>t. 0), clock = (\<lambda>t. ref_time), rfc1123 = (\<lambda>t. ''now''),
     wd = [], euid = 0, egid = 0, umask = 18, home_dir = Inr ''/root'', current_home = Some ''/root'', getenv = (\<lambda>v. []),
     user_lookup = (\<lambda>u. Inr (''1000'', ''1000'')), look_path = (\<lambda>b. Inr (''/usr/bin/'' @ b)),
     run_proc = (\<lambda>t b a v. quiet_proc ''dump''),
     glob_compile = glob_ref, yaml_version = (\<lambda>s. Inr 1), yaml_v1 = (\<lambda>s. Inr empty_profile),
     ini_load = (\<lambda>t p. Inr (\<lambda>s k. None)), smtp_send = (\<lambda>t m. None),
     parse_key = (\<lambda>k p. Inr k), agent_dial = (\<lambda>t s. None), agent_signers = (\<lambda>t. Inr []),
     known_hosts = (\<lambda>p. None), ssh_dial = (\<lambda>t a c. None), ssh_close = (\<lambda>t. None),
     ssh_session = (\<lambda>t. None), ssh_session_close = (\<lambda>t. None), ssh_combined = (\<lambda>t c. ([], None)),
     ssh_output = (\<lambda>t c. Inr []), ssh_run = (\<lambda>t c. quiet_proc ''dump''),
     sftp_client = (\<lambda>t. None), sftp_close = (\<lambda>t. None), sftp_getwd = (\<lambda>t. Inr ''/''),
     sftp_stat = (\<lambda>t p. Inr True), sftp_readdir = (\<lambda>t p. Inr []), sftp_walk = (\<lambda>t p. []),
     sftp_open = (\<lambda>t p. Inr ''data''), sftp_read = (\<lambda>t p. None), sftp_file_close = (\<lambda>t. None),
     docker_client = (\<lambda>t. None), docker_client_close = (\<lambda>t. None),
     docker_create = (\<lambda>t c a v. Inr ''id''), docker_attach = (\<lambda>t i. Inr ''dump''),
     docker_demux = (\<lambda>t s. (s, None)), docker_read = (\<lambda>t. None), docker_inspect = (\<lambda>t i. Inr 0)\<rparr>"

lemma ref_env_simps [simp]:
  "fault ref_env = (\<lambda>t. None)" "clock ref_env = (\<lambda>t. ref_time)" "wd ref_env = []"
  "glob_compile ref_env = glob_ref" "smtp_send ref_env = (\<lambda>t m. None)"
  "home_dir ref_env = Inr ''/root''" "getenv ref_env = (\<lambda>v. [])"
  "current_home ref_env = Some ''/root''"
  "yaml_version ref_env = (\<lambda>s. Inr 1)" "yaml_v1 ref_env = (\<lambda>s. Inr empty_profile)"
  "look_path ref_env = (\<lambda>b. Inr (''/usr/bin/'' @ b))"
  "run_proc ref_env = (\<lambda>t b a v. quiet_proc ''dump'')"
  by (simp_all add: ref_env_def)

lemma no_faults_ref_env [simp]: "no_faults ref_env"
  by (simp add: no_faults_def)

lemma dated_glob_ref [simp]: "dated_glob glob_ref"
  by (rule gobwas.dated_glob_axioms)

text \<open>A world with the given files, nothing open and nothing sent.\<close>

definition world_of :: "(key \<times> node) list \<Rightarrow> world" where
  "world_of f = \<lparr>fs = f, tick = 0, handles = 0, conns = 0, sessions = 0, mails = [], trace = []\<rparr>"

lemma world_of_simps [simp]:
  "fs (world_of f) = f" "tick (world_of f) = 0" "handles (world_of f) = 0" "conns (world_of f) = 0"
  "sessions (world_of f) = 0" "mails (world_of f) = []" "trace (world_of f) = []"
  by (simp_all add: world_of_def)

lemma node_at_world_of: "node_at (world_of f) k = (if k = [] then Some Dir else map_of f k)"
  by (simp add: node_at_def)

definition plain_file :: "string \<Rightarrow> node" where
  "plain_file s = File (Raw s) (new_meta ref_env 438)"

end
