(* ===== verification/Io.thy ===== *)
theory Io
  imports RefEnv
begin

text \<open>
  \<open>io.Reader\<close>, \<open>io.Writer\<close> and \<open>io.Copy\<close>. A writer is its \<open>Write\<close> method; a reader
  gives all it holds, and the error that ended the reading when that was not the end of
  the data.
\<close>

type_synonym io_writer = "content \<Rightarrow> (world, unit) go"
type_synonym io_reader = "(world, content \<times> goerr option) go"

fun content_append :: "content \<Rightarrow> content \<Rightarrow> content" where
  "content_append (Raw a) (Raw b) = Raw (a @ b)"
| "content_append (Raw a) c = (if a = [] then c else Raw a)"
| "content_append c d = c"

text \<open>What a failed read or write has moved of some content.\<close>

fun cut_content :: "nat \<Rightarrow> content \<Rightarrow> content" where
  "cut_content n (Raw s) = Raw (take n s)"
| "cut_content n (Archive es b) = Raw []"

definition io_copy :: "io_writer \<Rightarrow> io_reader \<Rightarrow> (world, unit) go" where
  "io_copy dst src =
     bnd src (\<lambda>(c, e). bnd (if c = Raw [] then ret () else dst c) (\<lambda>_. check_err e))"

text \<open>An open file of the file system, read and written.\<close>

definition file_reader :: "env \<Rightarrow> key \<Rightarrow> io_reader" where
  "file_reader E k w = (case file_read E k w of
     (Ok c, w') \<Rightarrow> (Ok (c, None), w')
   | (Fail e, w') \<Rightarrow>
       (Ok (case node_at w k of Some (File c m) \<Rightarrow> cut_content (cut E (tick w)) c | _ \<Rightarrow> Raw [], Some e), w')
   | (Panic, w') \<Rightarrow> (Panic, w'))"

text \<open>One write into an open file: \<open>upd\<close> changes the content by what was written.\<close>

definition file_update :: "env \<Rightarrow> key \<Rightarrow> (content \<Rightarrow> content \<Rightarrow> content) \<Rightarrow> io_writer" where
  "file_update E k upd c w =
     (case fault E (tick w) of
        Some e \<Rightarrow>
          (Fail (ErrPath ''write'' (render True k) e),
           set_content k (upd (cut_content (cut E (tick w)) c)) (tock w))
      | None \<Rightarrow> (Ok (), set_content k (upd c) (tock w)))"

definition file_writer :: "env \<Rightarrow> key \<Rightarrow> io_writer" where
  "file_writer E k = file_update E k (\<lambda>c old. content_append old c)"

text \<open>
  A relation between states that the calls which leave the files alone keep, and a writer
  that keeps it too: copying into such a writer keeps it.
\<close>

locale fs_rel = effect_rel R for R :: "world \<Rightarrow> world \<Rightarrow> bool" +
  assumes keeps_fs_rel: "keeps fs w w' \<Longrightarrow> R w w'"
begin

lemma from_fs: "effects (keeps fs) m \<Longrightarrow> effects R m"
  by (erule effects_mono) (rule keeps_fs_rel)

lemma from_ticked: "effects ticked m \<Longrightarrow> effects R m"
  by (intro from_fs effects_ticked_fs)

end

locale io_sink = fs_rel R for R :: "world \<Rightarrow> world \<Rightarrow> bool" +
  fixes sink :: io_writer
  assumes sink_keeps: "effects R (sink c)"
begin

lemma io_copy_keeps:
  assumes "effects R src"
  shows "effects R (io_copy sink src)"
  unfolding io_copy_def
  by (auto split: prod.splits intro!: keeps_bnd keeps_if keeps_ret sink_keeps keeps_check_err assms)

end

interpretation fr: fs_rel "frame K" for K
  by standard (rule keeps_fs_frame)

interpretation kfs: fs_rel "keeps fs"
  by standard

lemma effects_file_reader [calls]: "effects ticked (file_reader E k)"
proof (rule effectsI)
  fix w
  have "ticked w (snd (file_read E k w))" by (rule effects_snd [OF effects_file_read])
  then show "ticked w (snd (file_reader E k w))"
    by (auto simp: file_reader_def split: prod.splits res.splits)
qed

lemma effects_file_update: "k \<in> K \<Longrightarrow> effects (frame K) (file_update E k upd c)"
proof (rule effectsI)
  fix w assume k: "k \<in> K"
  have "frame K w (set_content k f (tock w))" for f
    using frame_set_content [OF k, of "tock w" f] by simp
  then show "frame K w (snd (file_update E k upd c w))"
    by (auto simp: file_update_def split: option.splits)
qed

interpretation file_sink: io_sink "frame {k}" "file_writer E k" for E k
  by standard (simp add: file_writer_def effects_file_update)

lemma effects_file_writer: "k \<in> K \<Longrightarrow> effects (frame K) (file_writer E k c)"
  by (simp add: file_writer_def effects_file_update)

text \<open>The calls that leave the files alone keep every frame.\<close>

lemmas frame_calls =
  effects_service [THEN fr.from_ticked] effects_service_err [THEN fr.from_ticked]
  effects_from_sum [THEN fr.from_ticked] effects_service_sum [THEN fr.from_ticked]
  effects_time_now [THEN fr.from_ticked] effects_os_stat [THEN fr.from_ticked]
  effects_os_lstat [THEN fr.from_ticked] effects_os_read_dir [THEN fr.from_ticked]
  effects_os_readdirnames [THEN fr.from_ticked] effects_os_read_file [THEN fr.from_ticked]
  effects_os_readlink [THEN fr.from_ticked] effects_eval_symlinks [THEN fr.from_ticked]
  effects_file_read [THEN fr.from_ticked] effects_file_reader [THEN fr.from_ticked]
  effects_filepath_glob [THEN fr.from_ticked]
  effects_os_open [THEN fr.from_fs] effects_os_close [THEN fr.from_fs]
  effects_log_event [THEN fr.from_fs]

lemma effects_io_copy:
  "(\<And>c. effects (frame K) (dst c)) \<Longrightarrow> effects (frame K) src \<Longrightarrow> effects (frame K) (io_copy dst src)"
  by (rule io_sink.io_copy_keeps) (unfold_locales, auto)

text \<open>A file opened for writing is the one its path names, unless a link is in the way.\<close>

lemma os_create_key:
  assumes "os_open_file E p perm w = (Ok k, w')" and "\<not> is_link w (key_of (wd E) p)"
  shows "k = key_of (wd E) p"
proof -
  have "\<not> is_link (tock w) (key_of (wd E) p)" using assms(2) by simp
  then show ?thesis
    using assms(1)
    by (auto simp: os_open_file_def syscall_def Let_def with_target_def follow_no_link in_parent_def
        bnd_def modify_def ret_def throw_def
        split: option.splits if_splits node.splits)
qed

lemma frame_bnd_create:
  assumes k: "key_of (wd E) p \<in> K" and f: "effects (frame K) (f (key_of (wd E) p))"
  shows "effects (frame K) (bnd (map_err g (os_open_file E p perm)) f)"
proof (rule fr.keeps_bnd_before)
  show "effects (frame K) (map_err g (os_open_file E p perm))"
    by (intro fr.keeps_map_err effects_os_create k)
next
  fix x and s t :: world
  assume "map_err g (os_open_file E p perm) s = (Ok x, t)"
  then have c: "os_open_file E p perm s = (Ok x, t)" by simp
  show "frame K s (snd (f x t))"
  proof (cases "is_link s (key_of (wd E) p)")
    case True
    then show ?thesis using k by (rule frame_if_link)
  next
    case False
    with c have "x = key_of (wd E) p" by (rule os_create_key)
    with f have "frame K t (snd (f x t))" by (simp add: effects_snd)
    moreover have "frame K s t" using effectsD [OF effects_os_create [OF k] c] .
    ultimately show ?thesis by (rule frame_trans [rotated])
  qed
qed

text \<open>Copying when nothing fails.\<close>

lemma node_at_set_content:
  "node_at (set_content k f w) k' =
     (if k' = k then (case node_at w k of Some (File c m) \<Rightarrow> Some (File (f c) m) | x \<Rightarrow> x)
      else node_at w k')"
  by (auto simp: set_content_def node_at_set split: option.splits node.splits)

lemma set_content_other [simp]:
  "tick (set_content k f w) = tick w" "handles (set_content k f w) = handles w"
  "conns (set_content k f w) = conns w" "sessions (set_content k f w) = sessions w"
  "mails (set_content k f w) = mails w" "trace (set_content k f w) = trace w"
  by (simp_all add: set_content_def split: option.splits node.splits)

lemma file_writer_run:
  "no_faults E \<Longrightarrow> file_writer E k c w = (Ok (), set_content k (\<lambda>old. content_append old c) (tock w))"
  by (simp add: file_writer_def file_update_def no_faults_def)

lemma content_append_Nil [simp]: "content_append c (Raw []) = c"
  by (cases c) simp_all

lemma Raw_Nil_append [simp]: "content_append (Raw []) c = c"
  by (cases c) simp_all

end
