(* ===== verification/Walk.thy ===== *)
theory Walk
  imports Io
begin

text \<open>
  \<open>filepath.Walk\<close>. The callback gets the path, the file info (absent when \<open>lstat\<close> failed)
  and the error, and carries the variables of the enclosing function it updates. Neither of
  the program's callbacks returns \<open>SkipDir\<close> or \<open>SkipAll\<close>, so their handling is left out.

  The recursion is bounded by a number of directory levels. The kernel refuses paths of
  \<open>path_max\<close> bytes, and every level makes the path longer, so a walk that is given more
  levels than that never runs out of them; this is proved below.
\<close>

type_synonym 'a walk_fn = "'a \<Rightarrow> string \<Rightarrow> finfo option \<Rightarrow> goerr option \<Rightarrow> (world, 'a) go"

definition walk_dir ::
  "env \<Rightarrow> 'a walk_fn \<Rightarrow> (string list \<Rightarrow> 'a \<Rightarrow> (world, 'a) go) \<Rightarrow> 'a \<Rightarrow> string \<Rightarrow> finfo \<Rightarrow> (world, 'a) go" where
  "walk_dir E fn next acc p info =
     bnd (attempt (os_readdirnames E p)) (\<lambda>r.
     bnd (fn acc p (Some info) (case r of Inl e \<Rightarrow> Some e | Inr names \<Rightarrow> None)) (\<lambda>acc.
     case r of Inl e \<Rightarrow> ret acc | Inr names \<Rightarrow> next names acc))"

definition walk_entry ::
  "env \<Rightarrow> 'a walk_fn \<Rightarrow> ('a \<Rightarrow> string \<Rightarrow> finfo \<Rightarrow> (world, 'a) go) \<Rightarrow> string \<Rightarrow> string \<Rightarrow> 'a \<Rightarrow> (world, 'a) go" where
  "walk_entry E fn wlk p name acc =
     bnd (attempt (os_lstat E (path_join [p, name]))) (\<lambda>l.
     case l of
       Inl e \<Rightarrow> fn acc (path_join [p, name]) None (Some e)
     | Inr info \<Rightarrow> wlk acc (path_join [p, name]) info)"

primrec walk :: "nat \<Rightarrow> env \<Rightarrow> 'a walk_fn \<Rightarrow> 'a \<Rightarrow> string \<Rightarrow> finfo \<Rightarrow> (world, 'a) go" where
  "walk 0 E fn acc p info =
     (if \<not> IsDir info then fn acc p (Some info) None
      else walk_dir E fn (\<lambda>names acc. gopanic) acc p info)"
| "walk (Suc n) E fn acc p info =
     (if \<not> IsDir info then fn acc p (Some info) None
      else walk_dir E fn (\<lambda>names acc. go_fold (walk_entry E fn (walk n E fn) p) names acc) acc p info)"

definition walk_root :: "nat \<Rightarrow> env \<Rightarrow> 'a walk_fn \<Rightarrow> 'a \<Rightarrow> string \<Rightarrow> (world, 'a) go" where
  "walk_root n E fn acc root =
     bnd (attempt (os_lstat E root)) (\<lambda>r.
     case r of
       Inl e \<Rightarrow> fn acc root None (Some e)
     | Inr info \<Rightarrow> walk n E fn acc root info)"

definition filepath_Walk :: "env \<Rightarrow> 'a walk_fn \<Rightarrow> 'a \<Rightarrow> string \<Rightarrow> (world, 'a) go" where
  "filepath_Walk E fn acc root = walk_root (Suc path_max) E fn acc root"

context fs_rel
begin

lemma walk_dir_keeps:
  assumes "\<And>acc p i e. effects R (fn acc p i e)" and "\<And>names acc. effects R (next names acc)"
  shows "effects R (walk_dir E fn next acc p info)"
  unfolding walk_dir_def
  by (intro keeps_bnd keeps_attempt keeps_case_sum keeps_ret assms from_ticked effects_os_readdirnames)

lemma walk_entry_keeps:
  assumes "\<And>acc p i e. effects R (fn acc p i e)" and "\<And>acc p i. effects R (wlk acc p i)"
  shows "effects R (walk_entry E fn wlk p name acc)"
  unfolding walk_entry_def
  by (intro keeps_bnd keeps_attempt keeps_case_sum assms from_ticked effects_os_lstat)

lemma walk_keeps:
  assumes fn: "\<And>acc p i e. effects R (fn acc p i e)"
  shows "effects R (walk n E fn acc p info)"
proof (induction n arbitrary: acc p info)
  case 0
  show ?case unfolding walk.simps by (intro keeps_if fn walk_dir_keeps keeps_gopanic)
next
  case (Suc n)
  show ?case
    unfolding walk.simps by (intro keeps_if fn walk_dir_keeps keeps_go_fold walk_entry_keeps Suc)
qed

lemma walk_root_keeps:
  assumes fn: "\<And>acc p i e. effects R (fn acc p i e)"
  shows "effects R (walk_root n E fn acc root)"
  unfolding walk_root_def
  by (intro keeps_bnd keeps_attempt keeps_case_sum fn walk_keeps from_ticked effects_os_lstat)

lemma filepath_Walk_keeps:
  "(\<And>acc p i e. effects R (fn acc p i e)) \<Longrightarrow> effects R (filepath_Walk E fn acc root)"
  unfolding filepath_Walk_def by (rule walk_root_keeps)

end


section \<open>The bound is enough\<close>

text \<open>The names of files stay the same.\<close>

definition same_keys :: "world \<Rightarrow> world \<Rightarrow> bool" where
  "same_keys w w' \<longleftrightarrow> map fst (fs w') = map fst (fs w)"

interpretation sk: fs_rel same_keys
  by standard (auto simp: same_keys_def keeps_def)

lemma same_keys_wf: "same_keys w w' \<Longrightarrow> fs_wf w' = fs_wf w"
  unfolding same_keys_def fs_wf_def set_map [symmetric] by simp

lemma same_keys_children: "same_keys w w' \<Longrightarrow> children w' k = children w k"
  by (simp add: same_keys_def children_def)

lemma same_keys_set_content: "same_keys w (set_content k f w)"
proof -
  have "same_keys w (set_node k n w)" if "node_at w k = Some m" "m \<noteq> Dir" for n m
  proof -
    have "map_of (fs w) k = Some m" using that by (auto simp: node_at_def split: if_splits)
    then have "k \<in> set (map fst (fs w))" by (force dest: map_of_SomeD)
    then show ?thesis by (simp add: same_keys_def set_node_def AList.update_keys)
  qed
  then show ?thesis
    by (auto simp: set_content_def same_keys_def split: option.splits node.splits)
qed

lemma same_keys_tick [simp]:
  "same_keys (w\<lparr>tick := n\<rparr>) w' = same_keys w w'" "same_keys w (w'\<lparr>tick := n\<rparr>) = same_keys w w'"
  "same_keys w (w'\<lparr>handles := h\<rparr>) = same_keys w w'" "same_keys (w\<lparr>handles := h\<rparr>) w' = same_keys w w'"
  "same_keys w w"
  by (simp_all add: same_keys_def)

lemma os_readdirnames_long:
  assumes "path_max \<le> length p"
  shows "\<exists>e. os_readdirnames E p w = (Fail e, tock w)"
  using assms
  by (auto simp: os_readdirnames_def os_read_dir_def syscall_def Let_def bnd_def path_max_def split: option.splits)

lemma syscall_OkD:
  "syscall E name p body w = (Ok x, w') \<Longrightarrow> body (key_of (wd E) p) (tock w) = (Ok x, w')"
  by (auto simp: syscall_def Let_def split: option.splits if_splits)

lemma with_target_OkD:
  "with_target name p body k w = (Ok x, w') \<Longrightarrow> \<exists>k'. body k' (node_at w k') w = (Ok x, w')"
  by (auto simp: with_target_def split: sum.splits)

lemma os_read_dir_OkD:
  assumes "os_read_dir E p w = (Ok es, w')"
  shows "\<exists>k. es = dir_entries w k"
proof -
  obtain k' where "(case node_at (tock w) k' of None \<Rightarrow> fail_missing ''open'' p k'
     | Some Dir \<Rightarrow> (\<lambda>w. ret (dir_entries w k') w)
     | Some x \<Rightarrow> throw (ErrPath ''readdirent'' p ENOTDIR)) (tock w) = (Ok es, w')"
    using with_target_OkD [OF syscall_OkD [OF assms [unfolded os_read_dir_def]]] by blast
  then have "es = dir_entries (tock w) k'"
    by (auto simp: ret_def throw_def fail_missing_def split: option.splits node.splits)
  then show ?thesis by (auto simp: dir_entries_def)
qed

lemma os_readdirnames_plain:
  assumes "os_readdirnames E p w = (Ok names, w')" and "fs_wf w" and "n \<in> set names"
  shows "plain_name n"
proof -
  obtain es where "os_read_dir E p w = (Ok es, w')" and names: "names = map fst es"
    using assms(1) by (auto simp: os_readdirnames_def)
  then obtain k where "es = dir_entries w k" using os_read_dir_OkD by blast
  then have "n \<in> set (children w k)" using assms(3) names by (simp add: dir_entries_def)
  then show ?thesis using assms(2) children_plain by blast
qed

lemma walk_dir_cong:
  assumes "\<And>names acc w1. os_readdirnames E p w = (Ok names, w1) \<Longrightarrow>
      next names acc (snd (fn a p (Some info) None w1)) = next' names acc (snd (fn a p (Some info) None w1))"
  shows "walk_dir E fn next a p info w = walk_dir E fn next' a p info w"
proof (cases "os_readdirnames E p w")
  case (Pair r w1)
  show ?thesis
  proof (cases r)
    case (Ok names)
    with Pair assms [of names w1] show ?thesis
      by (cases "fn a p (Some info) None w1") (auto simp: walk_dir_def bnd_def attempt_def split: res.splits)
  qed (use Pair in \<open>simp_all add: walk_dir_def bnd_def attempt_def\<close>)
qed

lemma walk_level:
  assumes fn: "\<And>acc p i e. effects same_keys (fn acc p i e)" and "fs_wf w"
    and eq: "\<And>x b fi t. plain_name x \<Longrightarrow> fs_wf t \<Longrightarrow>
      walk m E fn b (path_join [p, x]) fi t = walk m' E fn b (path_join [p, x]) fi t"
  shows "walk (Suc m) E fn acc p info w = walk (Suc m') E fn acc p info w"
proof -
  have "walk_dir E fn (\<lambda>names acc. go_fold (walk_entry E fn (walk m E fn) p) names acc) acc p info w =
      walk_dir E fn (\<lambda>names acc. go_fold (walk_entry E fn (walk m' E fn) p) names acc) acc p info w"
  proof (rule walk_dir_cong, rule go_fold_cong [where I = fs_wf])
    fix names b w1
    assume r: "os_readdirnames E p w = (Ok names, w1)"
    have "fs_wf w1" using effectsD [OF effects_os_readdirnames r] assms(2)
      by (simp add: fs_wf_def ticked_fields)
    then show "fs_wf (snd (fn acc p (Some info) None w1))"
      using effects_snd [OF fn] same_keys_wf by blast
    fix x a and s :: world
    assume x: "x \<in> set names" and s: "fs_wf s"
    have plain: "plain_name x" using os_readdirnames_plain [OF r assms(2) x] .
    have wf: "fs_wf t" if "os_lstat E (path_join [p, x]) s = (r, t)" for r t
      using effectsD [OF effects_os_lstat that] s by (simp add: fs_wf_def ticked_fields)
    have "walk_entry E fn (walk m E fn) p x a s = walk_entry E fn (walk m' E fn) p x a s"
      using eq [OF plain] wf
      by (auto simp: walk_entry_def bnd_def attempt_def split: prod.splits res.splits)
    moreover have k: "effects same_keys (walk_entry E fn (walk m E fn) p x a)"
      by (intro sk.walk_entry_keeps sk.walk_keeps fn)
    have "fs_wf (snd (walk_entry E fn (walk m E fn) p x a s))"
      by (simp only: same_keys_wf [OF effects_snd [OF k]] s)
    ultimately show "walk_entry E fn (walk m E fn) p x a s = walk_entry E fn (walk m' E fn) p x a s \<and>
        fs_wf (snd (walk_entry E fn (walk m E fn) p x a s))" by (intro conjI)
  qed
  then show ?thesis by (cases "IsDir info") simp_all
qed

lemma walk_more:
  assumes fn: "\<And>acc p i e. effects same_keys (fn acc p i e)"
    and "path_max \<le> n + weight p" and "clean p = p" and "fs_wf w"
  shows "walk (Suc n) E fn acc p info w = walk n E fn acc p info w"
  using assms(2-4)
proof (induction n arbitrary: acc p info w)
  case 0
  then have "path_max \<le> length p" by (simp add: weight_def path_max_def split: if_splits)
  then obtain e where "os_readdirnames E p w = (Fail e, tock w)"
    using os_readdirnames_long by blast
  then have eq: "walk_dir E fn nxt acc p info w = walk_dir E fn nxt' acc p info w" for nxt nxt'
    by (intro walk_dir_cong) simp
  show ?case by simp (rule impI, rule eq)
next
  case (Suc n)
  show ?case
  proof (rule walk_level [OF fn Suc.prems(3)])
    fix x b fi and t :: world
    assume x: "plain_name x" and "fs_wf t"
    moreover have "path_max \<le> n + weight (path_join [p, x])"
      using weight_join [OF x Suc.prems(2)] Suc.prems(1) by simp
    ultimately show "walk (Suc n) E fn b (path_join [p, x]) fi t = walk n E fn b (path_join [p, x]) fi t"
      by (intro Suc.IH clean_join)
  qed
qed

lemma walk_root_enough:
  assumes fn: "\<And>acc p i e. effects same_keys (fn acc p i e)" and "fs_wf w" and "Suc path_max \<le> n"
  shows "walk_root n E fn acc root w = filepath_Walk E fn acc root w"
proof -
  have more: "walk (path_max + j) E fn a q fi t = walk path_max E fn a q fi t"
    if "clean q = q" and "fs_wf t" for j a q fi t
  proof (induction j)
    case (Suc j)
    have "walk (Suc (path_max + j)) E fn a q fi t = walk (path_max + j) E fn a q fi t"
      by (rule walk_more [OF fn _ that]) simp
    with Suc show ?case by (simp only: add_Suc_right)
  qed simp
  obtain j where n: "n = Suc (path_max + j)" using assms(3) by (metis add_Suc less_eqE)
  have "walk n E fn acc root info t = walk (Suc path_max) E fn acc root info t" if "fs_wf t" for info t
    unfolding n by (rule walk_level [OF fn that]) (rule more [OF clean_join])
  moreover have "fs_wf t" if "os_lstat E root w = (r, t)" for r t
    using effectsD [OF effects_os_lstat that] assms(2) by (simp add: fs_wf_def ticked_fields)
  ultimately show ?thesis
    by (auto simp: walk_root_def filepath_Walk_def bnd_def attempt_def simp del: walk.simps
        split: prod.splits res.splits)
qed


section \<open>What is visited when nothing fails\<close>

text \<open>The files and links below a key, as the walk meets them, by their names below it.\<close>

primrec visit :: "nat \<Rightarrow> world \<Rightarrow> key \<Rightarrow> string list \<Rightarrow> (string list \<times> node) list" where
  "visit 0 w k ns = (case node_at w (k @ ns) of Some x \<Rightarrow> if x = Dir then [] else [(ns, x)] | None \<Rightarrow> [])"
| "visit (Suc n) w k ns =
     (case node_at w (k @ ns) of
        Some x \<Rightarrow> if x = Dir then concat (map (\<lambda>c. visit n w k (ns @ [c])) (children w (k @ ns))) else [(ns, x)]
      | None \<Rightarrow> [])"

definition files_below :: "world \<Rightarrow> key \<Rightarrow> (string list \<times> node) list" where
  "files_below w k = visit (Suc path_max) w k []"

lemma visit_node: "(ns', x) \<in> set (visit n w k ns) \<Longrightarrow> node_at w (k @ ns') = Some x \<and> x \<noteq> Dir"
proof (induction n arbitrary: ns)
  case 0
  then show ?case by (auto split: option.splits if_splits)
next
  case (Suc n)
  show ?case
    using Suc.prems Suc.IH by (auto split: option.splits if_splits)
qed

lemma visit_reaches:
  assumes "node_at w (k @ ns @ rest) = Some x" and "x \<noteq> Dir" and "length rest \<le> n"
    and "\<And>i. i < length rest \<Longrightarrow> node_at w (k @ ns @ take i rest) = Some Dir"
  shows "(ns @ rest, x) \<in> set (visit n w k ns)"
  using assms
proof (induction rest arbitrary: n ns)
  case Nil
  then show ?case by (cases n) simp_all
next
  case (Cons c rest)
  then obtain m where n: "n = Suc m" by (cases n) auto
  have dir: "node_at w (k @ ns) = Some Dir" using Cons.prems(4) [of 0] by simp
  have steps: "node_at w (k @ (ns @ [c]) @ take i rest) = Some Dir" if "i < length rest" for i
    using Cons.prems(4) [of "Suc i"] that by simp
  have "((ns @ [c]) @ rest, x) \<in> set (visit m w k (ns @ [c]))"
    using Cons.prems(1-3) n steps by (intro Cons.IH) auto
  moreover have "c \<in> set (children w (k @ ns))"
  proof (cases rest)
    case Nil
    then show ?thesis using Cons.prems(1) by (simp add: mem_children_iff)
  next
    case (Cons d ds)
    then show ?thesis using steps [of 0] by (simp add: mem_children_iff)
  qed
  ultimately show ?case using dir n by auto
qed

lemma weight_below: "list_all plain_name ns \<Longrightarrow> ns \<noteq> [] \<Longrightarrow> length ns \<le> weight (path_below root ns)"
proof (induction ns rule: rev_induct)
  case Nil
  then show ?case by simp
next
  case (snoc n ns)
  then have n: "plain_name n" and ns: "list_all plain_name ns" by simp_all
  show ?case
  proof (cases "ns = []")
    case True
    have "path_join [root, n] \<noteq> dot \<and> path_join [root, n] \<noteq> []"
      using n comps_join [OF n, of root] path_join_not_Nil [of n root]
      by (auto simp: plain_name_def comps_def is_abs_def has_prefix_def split_on_no_sep norm_def push_def)
    then show ?thesis using True by (simp add: weight_def path_below_def Suc_le_eq)
  next
    case False
    then obtain ns' m where ns': "ns = ns' @ [m]" by (cases ns rule: rev_cases) auto
    then have "clean (path_below root ns) = path_below root ns" using ns by (simp add: clean_join)
    then have "weight (path_below root ns) < weight (path_join [path_below root ns, n])"
      by (rule weight_join [OF n])
    moreover have "length ns \<le> weight (path_below root ns)" using snoc.IH ns False by simp
    ultimately show ?thesis by simp
  qed
qed

text \<open>Every path below the root is one the kernel accepts.\<close>

definition paths_ok :: "world \<Rightarrow> key \<Rightarrow> string \<Rightarrow> bool" where
  "paths_ok w k root \<longleftrightarrow> path_ok root \<and>
     (\<forall>ns. list_all plain_name ns \<and> node_at w (k @ ns) \<noteq> None \<longrightarrow> path_ok (path_below root ns))"

lemma depth_bound:
  assumes "paths_ok w k root" and "list_all plain_name ns" and "node_at w (k @ ns) \<noteq> None"
  shows "length ns < path_max"
proof (cases "ns = []")
  case False
  have "path_ok (path_below root ns)" using assms by (simp add: paths_ok_def)
  moreover have "weight p \<le> length p" for p by (simp add: weight_def)
  ultimately show ?thesis
    using weight_below [OF assms(2) False, of root] le_trans le_less_trans unfolding path_ok_def by metis
qed (simp add: path_max_def)

text \<open>
  The general rule: \<open>S\<close> holds of the states in which the tree is as it was, \<open>P\<close> of what
  has been visited so far; a directory changes nothing, a file is one step.
\<close>

lemma walk_run:
  fixes fn :: "'a walk_fn" and S :: "world \<Rightarrow> bool" and P :: "(string list \<times> node) list \<Rightarrow> 'a \<Rightarrow> world \<Rightarrow> bool"
  assumes k_def: "k = key_of (wd E) root" and nf: "no_faults E" and wf: "fs_wf w" and ok: "paths_ok w k root"
    and tree: "\<And>v ns. S v \<Longrightarrow> node_at v (k @ ns) = node_at w (k @ ns) \<and> children v (k @ ns) = children w (k @ ns)"
    and tick: "\<And>v. S v \<Longrightarrow> S (tock v)" "\<And>seen a v. P seen a v \<Longrightarrow> P seen a (tock v)"
    and dirs: "\<And>a p v i. IsDir i \<Longrightarrow> fn a p (Some i) None v = (Ok a, v)"
    and leaf: "\<And>seen a v ns x. S v \<Longrightarrow> P seen a v \<Longrightarrow> list_all plain_name ns \<Longrightarrow>
        node_at w (k @ ns) = Some x \<Longrightarrow> x \<noteq> Dir \<Longrightarrow>
        \<exists>a' v'. fn a (path_below root ns) (Some \<lparr>fi_name = base (path_below root ns), fi_kind = kind_of x\<rparr>) None v = (Ok a', v') \<and>
          S v' \<and> P (seen @ [(ns, x)]) a' v'"
    and "S v" and "P seen a v" and "list_all plain_name ns" and "node_at w (k @ ns) = Some x"
    and "n + length ns = Suc path_max"
  shows "\<exists>a' v'. walk n E fn a (path_below root ns) \<lparr>fi_name = base (path_below root ns), fi_kind = kind_of x\<rparr> v = (Ok a', v') \<and>
    S v' \<and> P (seen @ visit n w k ns) a' v'"
  using assms(10-14)
proof (induction n arbitrary: ns x v seen a)
  case 0
  then have "length ns < path_max" using ok by (intro depth_bound [OF ok]) auto
  then show ?case using 0 by simp
next
  case (Suc n)
  let ?p = "path_below root ns"
  let ?i = "\<lparr>fi_name = base ?p, fi_kind = kind_of x\<rparr>"
  show ?case
  proof (cases "x = Dir")
    case False
    then have "\<not> IsDir ?i" by (cases x) (simp_all add: IsDir_def)
    then show ?thesis using leaf [OF Suc.prems(1-4) False] Suc.prems(4) False by simp
  next
    case True
    have po: "path_ok ?p" using ok Suc.prems(3,4) by (simp add: paths_ok_def)
    have key: "key_of (wd E) ?p = k @ ns" using Suc.prems(3) by (simp add: k_def key_of_below)
    have "os_readdirnames E ?p v = (Ok (children w (k @ ns)), tock v)"
      using os_readdirnames_run [OF nf po, of v] tree [OF Suc.prems(1), of ns] Suc.prems(4) True key by simp
    then have step: "walk (Suc n) E fn a ?p ?i v =
        go_fold (walk_entry E fn (walk n E fn) ?p) (children w (k @ ns)) a (tock v)"
      using True dirs [of ?i] by (simp add: IsDir_def walk_dir_def bnd_def attempt_def)
    have "\<exists>a' v'. go_fold (walk_entry E fn (walk n E fn) ?p) cs b u = (Ok a', v') \<and> S v' \<and>
        P (d @ concat (map (\<lambda>c. visit n w k (ns @ [c])) cs)) a' v'"
      if "set cs \<subseteq> set (children w (k @ ns))" and "S u" and "P d b u" for cs b u d
      using that
    proof (induction cs arbitrary: b u d)
      case Nil
      then show ?case by (auto simp: ret_def)
    next
      case (Cons c cs)
      obtain y where y: "node_at w (k @ ns @ [c]) = Some y"
        using Cons.prems(1) by (auto simp: mem_children_iff)
      have c: "plain_name c" using Cons.prems(1) children_plain [OF wf] by auto
      then have pns: "list_all plain_name (ns @ [c])" using Suc.prems(3) by simp
      then have key': "key_of (wd E) (path_below root (ns @ [c])) = k @ ns @ [c]"
        by (simp only: k_def key_of_below)
      have "path_ok (path_below root (ns @ [c]))" using ok pns y unfolding paths_ok_def by (metis option.distinct(1))
      moreover have "node_at u (key_of (wd E) (path_below root (ns @ [c]))) = Some y"
        using tree [OF Cons.prems(2), of "ns @ [c]"] y key' by simp
      ultimately have l: "os_lstat E (path_join [?p, c]) u =
          (Ok \<lparr>fi_name = base (path_join [?p, c]), fi_kind = kind_of y\<rparr>, tock u)"
        using os_lstat_run [OF nf] by simp
      have "\<exists>a' v'. walk n E fn b (path_below root (ns @ [c]))
            \<lparr>fi_name = base (path_below root (ns @ [c])), fi_kind = kind_of y\<rparr> (tock u) = (Ok a', v') \<and>
          S v' \<and> P (d @ visit n w k (ns @ [c])) a' v'"
        using Suc.IH [OF tick(1) [OF Cons.prems(2)] tick(2) [OF Cons.prems(3)] pns] y Suc.prems(5) by simp
      then obtain b' u' where w1: "walk n E fn b (path_join [?p, c])
            \<lparr>fi_name = base (path_join [?p, c]), fi_kind = kind_of y\<rparr> (tock u) = (Ok b', u')"
          and "S u'" and "P (d @ visit n w k (ns @ [c])) b' u'" by auto
      moreover have "walk_entry E fn (walk n E fn) ?p c b u = (Ok b', u')"
        using l w1 by (simp add: walk_entry_def bnd_def attempt_def)
      moreover have "set cs \<subseteq> set (children w (k @ ns))" using Cons.prems(1) by simp
      ultimately show ?case
        using Cons.IH [of u' "d @ visit n w k (ns @ [c])" b'] by (simp add: bnd_OkI)
    qed
    from this [OF order_refl tick(1) [OF Suc.prems(1)] tick(2) [OF Suc.prems(2)]] step
    show ?thesis using Suc.prems(4) True by simp
  qed
qed

end
