(* ===== verification/Zip.thy ===== *)
theory Zip
  imports Walk "HOL-Library.Sublist"
begin

text \<open>
  \<open>lib/zip/zip.go\<close>: the handler of a zip file being written, and listing one. The
  handler's \<open>zipWriter\<close> writes into the open file: what it has been given so far is the
  archive in that file, whose directory is missing until \<open>Close\<close> writes it.
\<close>

section \<open>The archive in the open file\<close>

fun add_entry :: "zentry \<Rightarrow> content \<Rightarrow> content" where
  "add_entry e (Archive es b) = Archive (es @ [e]) b"
| "add_entry e (Raw s) = Archive [e] False"

fun add_data :: "content \<Rightarrow> content \<Rightarrow> content" where
  "add_data c (Archive es b) =
     (if es = [] then Archive es b
      else Archive (butlast es @
        [ZEntry (ze_name (last es)) (ze_link (last es)) (content_append (ze_data (last es)) c)]) b)"
| "add_data c (Raw s) = Raw s"

fun finish :: "content \<Rightarrow> content" where
  "finish (Archive es b) = Archive es True"
| "finish (Raw s) = Archive [] True"

text \<open>A write of the library into the file; a failing one leaves the entries as they are.\<close>

definition zip_update :: "env \<Rightarrow> key \<Rightarrow> (content \<Rightarrow> content) \<Rightarrow> (world, unit) go" where
  "zip_update E k f w =
     (case fault E (tick w) of
        Some e \<Rightarrow> (Fail (ErrPath ''write'' (render True k) e), tock w)
      | None \<Rightarrow> (Ok (), set_content k f (tock w)))"

text \<open>\<open>zip.Writer.CreateHeader\<close>, with the limit the format puts on names.\<close>

definition zip_create :: "env \<Rightarrow> key \<Rightarrow> string \<Rightarrow> bool \<Rightarrow> (world, unit) go" where
  "zip_create E k dest link =
     (if 65535 < length dest then throw (ErrNew ''zip: FileHeader.Name too long'')
      else zip_update E k (add_entry (ZEntry dest link (Raw []))))"

text \<open>The writer of an entry; a name that ends in a slash is a directory.\<close>

definition entry_writer :: "env \<Rightarrow> key \<Rightarrow> string \<Rightarrow> io_writer" where
  "entry_writer E k dest c =
     (if has_suffix dest ''/'' then throw (ErrNew ''zip: write to directory'')
      else file_update E k add_data c)"


section \<open>The handler\<close>

record Handler =
  isOpen :: bool
  zfile :: key

definition New :: "env \<Rightarrow> string \<Rightarrow> (world, Handler) go" where
  "New E dest =
     (if \<not> has_suffix dest ''.zip'' then throw (ErrNew ''destination does not end in .zip'')
      else bnd (map_err (errorf_v ''failed to open zip for writing: '') (os_open_file E dest 384))
        (\<lambda>file. ret \<lparr>isOpen = True, zfile = file\<rparr>))"

text \<open>\<open>Close\<close> drops the errors of both calls; it gives the handler as it is afterwards.\<close>

definition Close :: "env \<Rightarrow> Handler \<Rightarrow> (world, Handler) go" where
  "Close E z =
     (if isOpen z then
        bnd (attempt (zip_update E (zfile z) finish)) (\<lambda>_.
        bnd (attempt (os_close E (zfile z))) (\<lambda>_.
        ret (z\<lparr>isOpen := False\<rparr>)))
      else ret z)"

definition FileWriter :: "env \<Rightarrow> Handler \<Rightarrow> string \<Rightarrow> (world, io_writer) go" where
  "FileWriter E z dest =
     (if \<not> isOpen z then throw (ErrNew ''zip handler is closed'')
      else bnd (map_err (\<lambda>e. ErrNew (''failed to create entry for '' @ dest @ '' in zip file: '' @ error_text e))
          (zip_create E (zfile z) dest False))
        (\<lambda>_. ret (entry_writer E (zfile z) dest)))"

definition WriteFile :: "env \<Rightarrow> Handler \<Rightarrow> io_reader \<Rightarrow> string \<Rightarrow> (world, unit) go" where
  "WriteFile E z rd dest =
     bnd (FileWriter E z dest) (\<lambda>wr.
     map_err (errorf_v ''failed to write from reader to zip: '') (io_copy wr rd))"

definition AddFile :: "env \<Rightarrow> Handler \<Rightarrow> string \<Rightarrow> string \<Rightarrow> (world, unit) go" where
  "AddFile E z origin zipDest =
     (if \<not> isOpen z then throw (ErrNew ''zip handler is closed'')
      else bnd (map_err (errorf_v (''failed to open '' @ origin @ '': '')) (os_open E origin)) (\<lambda>file.
        defer_errors_join (WriteFile E z (file_reader E file) zipDest) (os_close E file)))"

text \<open>
  \<open>AddSymlink\<close> does not look at \<open>isOpen\<close>. On a closed handler the header and the target
  stay in the library's buffer of 4096 bytes, which nothing flushes any more; only a name too
  long for it reaches the closed file.
\<close>

definition link_header :: "env \<Rightarrow> Handler \<Rightarrow> string \<Rightarrow> bool \<Rightarrow> (world, unit) go" where
  "link_header E z dest link =
     (if isOpen z then zip_create E (zfile z) dest link
      else if 4057 < length dest then
        throw (ErrNew (''write '' @ render True (zfile z) @ '': file already closed''))
      else ret ())"

definition link_writer :: "env \<Rightarrow> Handler \<Rightarrow> string \<Rightarrow> io_writer" where
  "link_writer E z dest c =
     (if isOpen z then entry_writer E (zfile z) dest c
      else if has_suffix dest ''/'' then throw (ErrNew ''zip: write to directory'')
      else ret ())"

definition AddSymlink :: "env \<Rightarrow> Handler \<Rightarrow> string \<Rightarrow> string \<Rightarrow> (world, unit) go" where
  "AddSymlink E z origin zipDest =
     bnd (map_err (errorf_v (''failed to open '' @ origin @ '': '')) (os_open E origin)) (\<lambda>file.
     defer_errors_join
       (bnd (map_err (errorf_v ''failed to stat link: '') (os_lstat E origin)) (\<lambda>info.
        bnd (map_err (errorf_v ''failed to create header from link: '')
               (link_header E z zipDest (IsSymlink info))) (\<lambda>_.
        bnd (map_err (errorf_v ''failed to read target from link: '') (os_readlink E origin)) (\<lambda>linkVal.
        map_err (errorf_v ''failed to write link into zip file: '')
          (link_writer E z zipDest (Raw linkVal))))))
       (os_close E file))"

definition zip_OpenReader :: "env \<Rightarrow> string \<Rightarrow> (world, key \<times> zentry list) go" where
  "zip_OpenReader E p =
     bnd (os_open E p) (\<lambda>k.
     bnd (attempt (file_read E k)) (\<lambda>r.
     case r of
       Inr (Archive es b) \<Rightarrow>
         if b then ret (k, es)
         else bnd (attempt (os_close E k)) (\<lambda>_. throw (ErrNew ''zip: not a valid zip file''))
     | Inr (Raw s) \<Rightarrow> bnd (attempt (os_close E k)) (\<lambda>_. throw (ErrNew ''zip: not a valid zip file''))
     | Inl e \<Rightarrow> bnd (attempt (os_close E k)) (\<lambda>_. throw e)))"

definition ListFiles :: "env \<Rightarrow> string \<Rightarrow> (world, string list) go" where
  "ListFiles E p =
     bnd (map_err (errorf_v ''failed to open: '') (zip_OpenReader E p)) (\<lambda>(k, es).
     defer_errors_join (ret (map ze_name es)) (os_close E k))"


section \<open>What the operations do to the files\<close>

lemma FileWriter_Ok:
  "FileWriter E z dest w = (Ok wr, w') \<Longrightarrow> wr = entry_writer E (zfile z) dest"
  by (auto simp: FileWriter_def split: if_splits)

lemma set_content_tick: "set_content k f (w\<lparr>tick := n\<rparr>) = (set_content k f w)\<lparr>tick := n\<rparr>"
  by (cases w) (auto simp: set_content_def set_node_def node_at_def split: option.splits node.splits)

text \<open>
  What writing an archive may do to its file: add an entry, and add data to the last one.
  A relation that both keep is kept by every operation that adds something.
\<close>

locale zip_file = fs_rel R for R :: "world \<Rightarrow> world \<Rightarrow> bool" +
  fixes k :: key
  assumes add_entry_rel: "R w (set_content k (add_entry e) w)"
    and add_data_rel: "R w (set_content k (add_data c) w)"
begin

lemma tock_rel: "R w (tock w)"
  by (rule keeps_fs_rel) (simp add: keeps_def)

lemma zip_create_keeps: "effects R (zip_create E k d l)"
  unfolding zip_create_def zip_update_def
  by (intro keeps_if keeps_throw effectsI)
    (auto intro: tock_rel rel_trans [OF tock_rel add_entry_rel] split: option.splits)

lemma entry_writer_keeps: "effects R (entry_writer E k d c)"
  unfolding entry_writer_def file_update_def
  by (intro keeps_if keeps_throw effectsI)
    (auto intro: rel_trans [OF tock_rel add_data_rel] split: option.splits)

lemma FileWriter_keeps:
  assumes "zfile z = k"
  shows "effects R (FileWriter E z d)"
  unfolding FileWriter_def assms
  by (intro keeps_if keeps_throw keeps_bnd keeps_ret keeps_map_err zip_create_keeps)

text \<open>A body that only uses the writer it was given.\<close>

lemma bnd_FileWriter_keeps:
  assumes "zfile z = k" and "effects R (f (entry_writer E k d))"
  shows "effects R (bnd (FileWriter E z d) f)"
proof (rule keeps_bnd_Ok [OF FileWriter_keeps [OF assms(1)]])
  fix wr and s t :: world
  assume "FileWriter E z d s = (Ok wr, t)"
  then have "wr = entry_writer E k d" using FileWriter_Ok assms(1) by blast
  with assms(2) show "R t (snd (f wr t))" by (simp add: effects_snd)
qed

lemma entry_sink: "io_sink R (entry_writer E k d)"
  by unfold_locales (rule entry_writer_keeps)

lemma WriteFile_keeps: "zfile z = k \<Longrightarrow> effects R rd \<Longrightarrow> effects R (WriteFile E z rd d)"
  unfolding WriteFile_def
  by (intro bnd_FileWriter_keeps keeps_map_err io_sink.io_copy_keeps entry_sink)

lemmas reading =
  effects_file_reader [THEN from_ticked] effects_os_open [THEN from_fs]
  effects_os_close [THEN from_fs] effects_os_lstat [THEN from_ticked]
  effects_os_readlink [THEN from_ticked]

lemma AddFile_keeps: "zfile z = k \<Longrightarrow> effects R (AddFile E z p d)"
  unfolding AddFile_def
  by (intro keeps_if keeps_throw keeps_bnd keeps_map_err keeps_defer_errors_join WriteFile_keeps reading)

lemma AddSymlink_keeps:
  assumes "zfile z = k"
  shows "effects R (AddSymlink E z p d)"
  unfolding AddSymlink_def link_header_def link_writer_def assms
  by (intro keeps_bnd keeps_map_err keeps_defer_errors_join keeps_if keeps_throw keeps_ret
      zip_create_keeps entry_writer_keeps reading)

end

text \<open>The frame of the file.\<close>

interpretation zf: zip_file "frame (insert k K)" k for k K
  by standard (simp_all add: frame_set_content)

interpretation zip_sink: io_sink "frame {k}" "entry_writer E k dest" for E k dest
  by (rule zf.entry_sink)

lemma effects_entry_writer: "k \<in> K \<Longrightarrow> effects (frame K) (entry_writer E k d c)"
  using zf.entry_writer_keeps [of k K] by (simp add: insert_absorb)

lemma frame_bnd_FileWriter:
  "zfile z \<in> K \<Longrightarrow> effects (frame K) (f (entry_writer E (zfile z) d)) \<Longrightarrow>
     effects (frame K) (bnd (FileWriter E z d) f)"
  using zf.bnd_FileWriter_keeps [OF refl, of z K] by (simp add: insert_absorb)

lemma effects_WriteFile:
  "zfile z \<in> K \<Longrightarrow> effects (frame K) rd \<Longrightarrow> effects (frame K) (WriteFile E z rd d)"
  using zf.WriteFile_keeps [OF refl, of z K] by (simp add: insert_absorb)

lemma effects_zip_update: "k \<in> K \<Longrightarrow> effects (frame K) (zip_update E k f)"
proof (rule effectsI)
  fix w assume "k \<in> K"
  then have "frame K w (set_content k f (tock w))"
    using frame_set_content [of k K "tock w" f] by simp
  then show "frame K w (snd (zip_update E k f w))" by (auto simp: zip_update_def split: option.splits)
qed

lemma effects_New: "key_of (wd E) dest \<in> K \<Longrightarrow> effects (frame K) (New E dest)"
  unfolding New_def
  by (intro fr.keeps_if fr.keeps_throw fr.keeps_bnd fr.keeps_ret fr.keeps_map_err effects_os_create)

lemma effects_Close: "zfile z \<in> K \<Longrightarrow> effects (frame K) (Close E z)"
  unfolding Close_def
  by (intro fr.keeps_if fr.keeps_bnd fr.keeps_attempt effects_zip_update frame_calls fr.keeps_ret)


section \<open>The handler as a state machine\<close>

text \<open>
  A handler and the world around it, changed by any of its operations, whatever it returns.
  The program writes into a zip file in no other way.
\<close>

inductive zip_step :: "env \<Rightarrow> Handler \<times> world \<Rightarrow> Handler \<times> world \<Rightarrow> bool" for E where
  step_AddFile: "zip_step E (z, w) (z, snd (AddFile E z origin dest w))"
| step_AddSymlink: "zip_step E (z, w) (z, snd (AddSymlink E z origin dest w))"
| step_write: "FileWriter E z dest w = (Ok wr, w') \<Longrightarrow> zip_step E (z, w) (z, snd (wr c w'))"
| step_no_writer: "FileWriter E z dest w = (Fail e, w') \<Longrightarrow> zip_step E (z, w) (z, w')"
| step_Close: "Close E z w = (Ok z', w') \<Longrightarrow> zip_step E (z, w) (z', w')"

inductive_cases zip_stepE: "zip_step E (z, w) (z', w')"

lemma zip_step_cases:
  assumes "zip_step E (z, w) (z', w')"
  obtains (add_file) origin dest where "z' = z" "w' = snd (AddFile E z origin dest w)"
  | (add_symlink) origin dest where "z' = z" "w' = snd (AddSymlink E z origin dest w)"
  | (writes) dest wr v c where "z' = z" "FileWriter E z dest w = (Ok wr, v)" "w' = snd (wr c v)"
  | (no_writer) dest e where "z' = z" "FileWriter E z dest w = (Fail e, w')"
  | (closing) "Close E z w = (Ok z', w')"
  using assms by (rule zip_stepE) blast+

text \<open>What can be seen of the archive.\<close>

definition zentries :: "world \<Rightarrow> key \<Rightarrow> zentry list" where
  "zentries w k = (case node_at w k of Some (File (Archive es b) m) \<Rightarrow> es | _ \<Rightarrow> [])"

definition complete :: "world \<Rightarrow> key \<Rightarrow> bool" where
  "complete w k = (case node_at w k of Some (File (Archive es b) m) \<Rightarrow> b | _ \<Rightarrow> False)"

text \<open>The names of the entries only grow, and the directory is not written.\<close>

definition grows :: "key \<Rightarrow> world \<Rightarrow> world \<Rightarrow> bool" where
  "grows k w w' \<longleftrightarrow>
     prefix (map ze_name (zentries w k)) (map ze_name (zentries w' k)) \<and>
     (complete w' k \<longrightarrow> complete w k)"

lemma same_node_grows: "node_at w' k = node_at w k \<Longrightarrow> grows k w w'"
  by (simp add: grows_def zentries_def complete_def)

interpretation gr: fs_rel "grows k" for k
proof
  show "grows k s s" for s by (simp add: same_node_grows)
  show "grows k a c" if "grows k a b" "grows k b c" for a b c
    using that prefix_order.trans unfolding grows_def by blast
  show "grows k w w'" if "keeps fs w w'" for w w'
    using that by (intro same_node_grows) (simp add: keeps_def node_at_def)
qed

lemma grows_set_content:
  assumes "\<And>es b. \<exists>es' b'. f (Archive es b) = Archive es' b' \<and>
      prefix (map ze_name es) (map ze_name es') \<and> (b' \<longrightarrow> b)"
    and "\<And>s es'. f (Raw s) \<noteq> Archive es' True"
  shows "grows k w (set_content k f w)"
proof (cases "node_at w k")
  case (Some n)
  show ?thesis
  proof (cases n)
    case (File c m)
    have at: "node_at (set_content k f w) k = Some (File (f c) m)"
      using Some File by (simp add: node_at_set_content)
    show ?thesis
    proof (cases c)
      case (Archive es b)
      with assms(1) [of es b] Some File at show ?thesis
        by (auto simp: grows_def zentries_def complete_def)
    next
      case (Raw s)
      with assms(2) [of s] Some File at show ?thesis
        by (cases "f (Raw s)") (auto simp: grows_def zentries_def complete_def)
    qed
  qed (use Some in \<open>auto simp: same_node_grows node_at_set_content\<close>)
qed (auto simp: same_node_grows node_at_set_content)

lemma grows_add_entry: "grows k w (set_content k (add_entry e) w)"
  by (rule grows_set_content) simp_all

lemma names_add_data:
  assumes "es \<noteq> []"
  shows "map ze_name (butlast es @ [ZEntry (ze_name (last es)) l d]) = map ze_name es"
proof -
  have "map ze_name es = map ze_name (butlast es @ [last es])" using assms by simp
  also have "\<dots> = map ze_name (butlast es @ [ZEntry (ze_name (last es)) l d])" by simp
  finally show ?thesis by simp
qed

lemma grows_add_data: "grows k w (set_content k (add_data c) w)"
proof (rule grows_set_content)
  show "\<exists>es' b'. add_data c (Archive es b) = Archive es' b' \<and>
      prefix (map ze_name es) (map ze_name es') \<and> (b' \<longrightarrow> b)" for es b
    by (cases "es = []") (simp_all add: names_add_data del: map_append)
qed simp

lemma grows_tick [simp]: "grows k w (w'\<lparr>tick := n\<rparr>) = grows k w w'"
  "grows k (w\<lparr>tick := n\<rparr>) w' = grows k w w'"
  by (simp_all add: grows_def zentries_def complete_def)

interpretation zg: zip_file "grows k" k for k
  by standard (simp_all add: grows_add_entry grows_add_data)

lemma kfs_AddSymlink_closed:
  assumes "\<not> isOpen z"
  shows "effects (keeps fs) (AddSymlink E z p d)"
  using assms unfolding AddSymlink_def link_header_def link_writer_def
  by (simp only: if_False)
    (intro kp.keeps_bnd kp.keeps_map_err kp.keeps_defer_errors_join kp.keeps_if kp.keeps_throw
      kp.keeps_ret effects_os_open effects_os_close effects_os_lstat [THEN kfs.from_ticked]
      effects_os_readlink [THEN kfs.from_ticked])

lemma zip_step_closed:
  assumes "zip_step E (z, w) (z', w')" and "\<not> isOpen z"
  shows "z' = z \<and> fs w' = fs w"
  using assms(1)
proof (cases rule: zip_step_cases)
  case (add_symlink origin dest)
  with effects_snd [OF kfs_AddSymlink_closed [OF assms(2)], of w E origin dest] show ?thesis
    by (simp add: keeps_def)
qed (use assms(2) in \<open>auto simp: AddFile_def FileWriter_def Close_def throw_def ret_def\<close>)

lemma Close_Ok:
  assumes "Close E z w = (Ok z', w')" and "isOpen z"
  shows "z' = z\<lparr>isOpen := False\<rparr>"
  using assms by (auto simp: Close_def)

lemma names_finish: "map ze_name (zentries (set_content k finish w) k) = map ze_name (zentries w k)"
proof (cases "node_at w k")
  case (Some n)
  then show ?thesis
  proof (cases n)
    case (File c m)
    with Some show ?thesis by (cases c) (auto simp: zentries_def node_at_set_content)
  qed (auto simp: zentries_def node_at_set_content)
qed (auto simp: zentries_def node_at_set_content)

lemma zentries_tick [simp]: "zentries (w\<lparr>tick := n\<rparr>) k = zentries w k"
  "zentries (w\<lparr>handles := h\<rparr>) k = zentries w k"
  by (simp_all add: zentries_def)

lemma Close_names:
  assumes "Close E z w = (Ok z', w')"
  shows "map ze_name (zentries w' (zfile z)) = map ze_name (zentries w (zfile z))"
proof -
  have "map ze_name (zentries (snd (zip_update E k finish w)) k) = map ze_name (zentries w k)" for k
    by (simp add: zip_update_def set_content_tick names_finish split: option.splits)
  moreover have "zentries (snd (os_close E k' v)) k = zentries v k" for k k' v
    using effects_snd [OF effects_os_close, of v E k'] by (simp add: zentries_def keeps_def node_at_def)
  ultimately show ?thesis
    using assms by (auto simp: Close_def bnd_def attempt_def ret_def split: if_splits prod.splits res.splits)
      (metis snd_conv)+
qed

lemma zip_step_open:
  assumes "zip_step E (z, w) (z', w')" and "isOpen z"
  shows "zfile z' = zfile z \<and>
    prefix (map ze_name (zentries w (zfile z))) (map ze_name (zentries w' (zfile z))) \<and>
    (isOpen z' \<longrightarrow> (complete w' (zfile z) \<longrightarrow> complete w (zfile z)))"
  using assms(1)
proof (cases rule: zip_step_cases)
  case (add_file origin dest)
  with effects_snd [OF zg.AddFile_keeps [OF refl], of _ w E origin dest] show ?thesis by (simp add: grows_def)
next
  case (add_symlink origin dest)
  with effects_snd [OF zg.AddSymlink_keeps [OF refl], of _ w E origin dest] show ?thesis by (simp add: grows_def)
next
  case (writes dest wr v c)
  then have "grows (zfile z) w v" using effectsD [OF zg.FileWriter_keeps [OF refl]] by blast
  moreover have "wr = entry_writer E (zfile z) dest" using writes by (blast dest: FileWriter_Ok)
  then have "grows (zfile z) v w'" using writes effects_snd [OF zg.entry_writer_keeps] by blast
  ultimately have "grows (zfile z) w w'" by (rule gr.rel_trans)
  with writes show ?thesis by (simp add: grows_def)
next
  case (no_writer dest e)
  with effectsD [OF zg.FileWriter_keeps [OF refl] no_writer(2)] show ?thesis by (simp add: grows_def)
next
  case closing
  then have "z' = z\<lparr>isOpen := False\<rparr>" using assms(2) by (rule Close_Ok)
  with Close_names [OF closing] show ?thesis by simp
qed

text \<open>
  C13. The life of a zip handler, over any sequence of its operations and whatever calls fail:
  the file it writes stays the same; the names of the entries written so far never change,
  new ones are only added after them; as long as the handler is open the directory of the
  archive is not written; and once it is closed nothing in the file system changes any more.
\<close>

theorem zip_lifecycle:
  assumes "(zip_step E)\<^sup>*\<^sup>* (z, w) (z', w')"
  shows "zfile z' = zfile z \<and>
    prefix (map ze_name (zentries w (zfile z))) (map ze_name (zentries w' (zfile z))) \<and>
    (isOpen z' \<longrightarrow> isOpen z \<and> (complete w' (zfile z) \<longrightarrow> complete w (zfile z))) \<and>
    (\<not> isOpen z \<longrightarrow> z' = z \<and> fs w' = fs w)"
  using assms
proof (induction "(z', w')" arbitrary: z' w' rule: rtranclp_induct)
  case base
  show ?case by simp
next
  case (step y)
  obtain z1 w1 where y: "y = (z1, w1)" by (cases y)
  note ih = step.hyps(3) [OF y]
  have s: "zip_step E (z1, w1) (z', w')" using step.hyps(2) y by simp
  show ?case
  proof (cases "isOpen z1")
    case True
    with zip_step_open [OF s] ih show ?thesis using prefix_order.trans by metis
  next
    case False
    then have "z' = z1" "fs w' = fs w1" using zip_step_closed [OF s] by auto
    moreover from this(2) have "zentries w' k = zentries w1 k" for k
      by (simp add: zentries_def node_at_def)
    ultimately show ?thesis using ih False by auto
  qed
qed


section \<open>What is written when nothing fails\<close>

definition unfinished :: "zentry list \<Rightarrow> content" where
  "unfinished es = (if es = [] then Raw [] else Archive es False)"

text \<open>An open handler whose file holds the entries \<open>es\<close>.\<close>

definition writing :: "Handler \<Rightarrow> zentry list \<Rightarrow> world \<Rightarrow> bool" where
  "writing z es w \<longleftrightarrow> isOpen z \<and> (\<exists>m. node_at w (zfile z) = Some (File (unfinished es) m))"

definition entry_name_ok :: "string \<Rightarrow> bool" where
  "entry_name_ok d \<longleftrightarrow> \<not> has_suffix d ''/'' \<and> length d \<le> 65535"

lemma add_entry_unfinished: "add_entry e (unfinished es) = unfinished (es @ [e])"
  by (simp add: unfinished_def)

lemma add_data_unfinished:
  "add_data c (unfinished (es @ [ZEntry d l b])) = unfinished (es @ [ZEntry d l (content_append b c)])"
  by (simp add: unfinished_def)

lemma writing_same: "node_at w' (zfile z) = node_at w (zfile z) \<Longrightarrow> writing z es w' = writing z es w"
  by (simp add: writing_def)

lemma writing_tick [simp]: "writing z es (w\<lparr>tick := n\<rparr>) = writing z es w"
  by (simp add: writing_def)

lemma writing_set_content:
  assumes "writing z es w" and "f (unfinished es) = unfinished es'"
  shows "writing z es' (set_content (zfile z) f w)"
  using assms by (auto simp: writing_def node_at_set_content)

lemma zip_update_run: "no_faults E \<Longrightarrow> zip_update E k f w = (Ok (), set_content k f (tock w))"
  by (simp add: zip_update_def no_faults_def)

text \<open>The post-state of one operation of the handler.\<close>

definition wrote :: "Handler \<Rightarrow> zentry list \<Rightarrow> world \<Rightarrow> world \<Rightarrow> bool" where
  "wrote z es w w' \<longleftrightarrow> writing z es w' \<and> handles w' = handles w \<and> same_keys w w' \<and>
     (\<forall>k. k \<noteq> zfile z \<longrightarrow> node_at w' k = node_at w k)"

lemma wrote_trans: "wrote z es a b \<Longrightarrow> wrote z es' b c \<Longrightarrow> wrote z es' a c"
  using sk.rel_trans [of a b c] by (simp add: wrote_def)

lemma wrote_set_content:
  assumes "writing z es w" and "f (unfinished es) = unfinished es'"
  shows "wrote z es' w (set_content (zfile z) f (tock w))"
  using writing_set_content [of z es "tock w" f es'] assms
  using same_keys_set_content [of "tock w" "zfile z" f] by (simp add: wrote_def node_at_set_content)

lemma FileWriter_run:
  assumes "no_faults E" and "writing z es w" and "entry_name_ok d"
  shows "\<exists>w'. FileWriter E z d w = (Ok (entry_writer E (zfile z) d), w') \<and>
    wrote z (es @ [ZEntry d False (Raw [])]) w w'"
proof -
  have "isOpen z" using assms(2) by (simp add: writing_def)
  then have "FileWriter E z d w = (Ok (entry_writer E (zfile z) d),
      set_content (zfile z) (add_entry (ZEntry d False (Raw []))) (tock w))"
    using assms(1,3)
    by (simp add: FileWriter_def zip_create_def entry_name_ok_def map_err_def handle_def bnd_def
        zip_update_run ret_def)
  then show ?thesis using wrote_set_content [where f = "add_entry (ZEntry d False (Raw []))", OF assms(2) add_entry_unfinished]
    by blast
qed

lemma entry_writer_run:
  assumes "no_faults E" and "writing z (es @ [ZEntry d l b]) w" and "entry_name_ok d"
  shows "\<exists>w'. entry_writer E (zfile z) d c w = (Ok (), w') \<and>
    wrote z (es @ [ZEntry d l (content_append b c)]) w w'"
proof -
  have "entry_writer E (zfile z) d c w = (Ok (), set_content (zfile z) (add_data c) (tock w))"
    using assms(1,3) by (simp add: entry_writer_def entry_name_ok_def file_update_def no_faults_def)
  then show ?thesis using wrote_set_content [where f = "add_data c", OF assms(2) add_data_unfinished] by blast
qed

lemma wrote_tock: "writing z es w \<Longrightarrow> wrote z es w (tock w)"
  by (simp add: wrote_def)

lemma WriteFile_run:
  assumes "no_faults E" and "writing z es w" and "entry_name_ok d"
    and rd: "\<And>v. wrote z (es @ [ZEntry d False (Raw [])]) w v \<Longrightarrow> rd v = (Ok (c, None), tock v)"
  shows "\<exists>w'. WriteFile E z rd d w = (Ok (), w') \<and> wrote z (es @ [ZEntry d False c]) w w'"
proof -
  let ?e = "ZEntry d False (Raw [])"
  obtain v where v: "FileWriter E z d w = (Ok (entry_writer E (zfile z) d), v)" "wrote z (es @ [?e]) w v"
    using FileWriter_run [OF assms(1-3)] by blast
  have wv: "writing z (es @ [?e]) (tock v)" using v(2) by (simp add: wrote_def)
  have "wrote z (es @ [?e]) w (tock v)" using v(2) by (auto simp: wrote_def)
  obtain v' where v': "(if c = Raw [] then ret () else entry_writer E (zfile z) d c) (tock v) = (Ok (), v')"
      "wrote z (es @ [ZEntry d False c]) (tock v) v'"
    using entry_writer_run [OF assms(1) wv assms(3), of c] wv
    by (cases "c = Raw []") (auto simp: ret_def wrote_def)
  have "io_copy (entry_writer E (zfile z) d) rd v = (Ok (), v')"
    using v' rd [OF v(2)] by (simp add: io_copy_def bnd_def check_err_def ret_def)
  then have "WriteFile E z rd d w = (Ok (), v')"
    using v(1) unfolding WriteFile_def by (simp only: go_steps)
  then show ?thesis
    using wrote_trans [OF \<open>wrote z (es @ [?e]) w (tock v)\<close> v'(2)] by blast
qed

lemma file_reader_run:
  "no_faults E \<Longrightarrow> node_at w k = Some (File c m) \<Longrightarrow> file_reader E k w = (Ok (c, None), tock w)"
  by (simp add: file_reader_def file_read_run)

lemma AddFile_run:
  assumes "no_faults E" and "writing z es w" and "entry_name_ok d" and "path_ok p"
    and "node_at w (key_of (wd E) p) = Some (File c m)" and "key_of (wd E) p \<noteq> zfile z"
  shows "\<exists>w'. AddFile E z p d w = (Ok (), w') \<and> wrote z (es @ [ZEntry d False c]) w w'"
proof -
  let ?k = "key_of (wd E) p"
  let ?w1 = "(tock w)\<lparr>handles := handles w + 1\<rparr>"
  have o: "os_open E p w = (Ok ?k, ?w1)" by (rule os_open_run [OF assms(1,4,5)]) simp
  have w1: "writing z es ?w1" using assms(2) by (simp add: writing_def)
  have rd: "file_reader E ?k v = (Ok (c, None), tock v)" if "wrote z (es @ [ZEntry d False (Raw [])]) ?w1 v" for v
    by (rule file_reader_run [OF assms(1)]) (use that assms(5,6) in \<open>simp add: wrote_def\<close>)
  obtain w2 where w2: "WriteFile E z (file_reader E ?k) d ?w1 = (Ok (), w2)"
      "wrote z (es @ [ZEntry d False c]) ?w1 w2"
    using WriteFile_run [where rd = "file_reader E ?k", OF assms(1) w1 assms(3) rd] by blast
  let ?w3 = "w2\<lparr>tick := Suc (tick w2), handles := handles w2 - 1\<rparr>"
  have "os_close E ?k w2 = (Ok (), ?w3)" by (rule os_close_run [OF assms(1)])
  then have "AddFile E z p d w = (Ok (), ?w3)"
    using o w2(1) assms(2) unfolding AddFile_def writing_def by (simp add: bnd_OkI map_err_OkI defer_OkI)
  moreover have "wrote z (es @ [ZEntry d False c]) w ?w3"
    using w2(2) by (simp add: wrote_def writing_def)
  ultimately show ?thesis by blast
qed

lemma os_open_link_run:
  assumes "no_faults E" and "path_ok p" and "follow link_limit w (key_of (wd E) p) = Inr k"
    and "node_at w k = Some n"
  shows "os_open E p w = (Ok k, (tock w)\<lparr>handles := handles w + 1\<rparr>)"
  using assms by (simp add: os_open_def syscall_run with_target_def bnd_def modify_def ret_def)

lemma os_readlink_run:
  "no_faults E \<Longrightarrow> path_ok p \<Longrightarrow> node_at w (key_of (wd E) p) = Some (Link t) \<Longrightarrow>
     os_readlink E p w = (Ok t, tock w)"
  by (simp add: os_readlink_def syscall_run ret_def)

text \<open>A link that leads somewhere is stored as a link, with its target.\<close>

lemma AddSymlink_run:
  assumes "no_faults E" and "writing z es w" and "entry_name_ok d" and "path_ok p"
    and link: "node_at w (key_of (wd E) p) = Some (Link t)"
    and target: "follow link_limit w (key_of (wd E) p) = Inr k" "node_at w k = Some n"
  shows "\<exists>w'. AddSymlink E z p d w = (Ok (), w') \<and> wrote z (es @ [ZEntry d True (Raw t)]) w w'"
proof -
  let ?w1 = "(tock w)\<lparr>handles := handles w + 1\<rparr>"
  let ?e = "ZEntry d True (Raw [])"
  have open_z: "isOpen z" and ne: "key_of (wd E) p \<noteq> zfile z"
    using assms(2) link by (auto simp: writing_def)
  have o: "os_open E p w = (Ok k, ?w1)" by (rule os_open_link_run [OF assms(1,4) target])
  have l: "os_lstat E p ?w1 = (Ok \<lparr>fi_name = base p, fi_kind = KLink\<rparr>, tock ?w1)"
    using os_lstat_run [OF assms(1,4), of ?w1] link by simp
  have isl: "IsSymlink \<lparr>fi_name = base p, fi_kind = KLink\<rparr> = True" by (simp add: IsSymlink_def)
  let ?w2 = "set_content (zfile z) (add_entry ?e) (tock (tock ?w1))"
  have w1: "writing z es (tock ?w1)" using assms(2) by (simp add: writing_def)
  have h: "link_header E z d True (tock ?w1) = (Ok (), ?w2)"
    using assms(1,3) open_z by (simp add: link_header_def zip_create_def entry_name_ok_def zip_update_run)
  have r2: "wrote z (es @ [?e]) (tock ?w1) ?w2"
    by (rule wrote_set_content [where f = "add_entry ?e", OF w1 add_entry_unfinished])
  have "node_at ?w2 (key_of (wd E) p) = Some (Link t)"
    using r2 link ne by (simp add: wrote_def)
  then have rl: "os_readlink E p ?w2 = (Ok t, tock ?w2)" by (rule os_readlink_run [OF assms(1,4)])
  have "writing z (es @ [?e]) (tock ?w2)" using r2 by (simp add: wrote_def)
  then obtain w3 where w3: "entry_writer E (zfile z) d (Raw t) (tock ?w2) = (Ok (), w3)"
      "wrote z (es @ [ZEntry d True (Raw t)]) (tock ?w2) w3"
    using entry_writer_run [OF assms(1) _ assms(3), of z es True "Raw []" "tock ?w2" "Raw t"] by auto
  have lw: "link_writer E z d (Raw t) (tock ?w2) = (Ok (), w3)" using w3(1) open_z by (simp add: link_writer_def)
  let ?w4 = "w3\<lparr>tick := Suc (tick w3), handles := handles w3 - 1\<rparr>"
  have c: "os_close E k w3 = (Ok (), ?w4)" by (rule os_close_run [OF assms(1)])
  have "AddSymlink E z p d w = (Ok (), ?w4)"
    using o l h rl lw c unfolding AddSymlink_def
    by (simp only: go_steps defer_OkI isl)
  moreover have "wrote z (es @ [ZEntry d True (Raw t)]) w ?w4"
    using w3(2) r2 sk.rel_trans [of w ?w2 w3] by (simp add: wrote_def writing_def)
  ultimately show ?thesis by blast
qed

lemma New_run:
  assumes "no_faults E" and "has_suffix dest ''.zip''" and "path_ok dest"
    and "node_at w (key_of (wd E) dest) = None"
    and "node_at w (butlast (key_of (wd E) dest)) = Some Dir"
  shows "\<exists>w'. New E dest w = (Ok \<lparr>isOpen = True, zfile = key_of (wd E) dest\<rparr>, w') \<and>
    writing \<lparr>isOpen = True, zfile = key_of (wd E) dest\<rparr> [] w' \<and> handles w' = handles w + 1 \<and>
    (\<forall>k. k \<noteq> key_of (wd E) dest \<longrightarrow> node_at w' k = node_at w k) \<and>
    (plain_key (wd E) \<longrightarrow> fs_wf w \<longrightarrow> fs_wf w') \<and>
    node_at w' (key_of (wd E) dest) = Some (File (Raw []) (new_meta E 384))"
proof -
  let ?k = "key_of (wd E) dest"
  let ?w' = "set_node ?k (File (Raw []) (new_meta E 384)) (tock w)\<lparr>handles := handles w + 1\<rparr>"
  have "?k \<noteq> []" using assms(4) by auto
  moreover have "os_open_file E dest 384 w = (Ok ?k, ?w')" by (rule os_create_run [OF assms(1,3-5)])
  then have "New E dest w = (Ok \<lparr>isOpen = True, zfile = ?k\<rparr>, ?w')"
    using assms(2) by (simp add: New_def bnd_def map_err_def handle_def ret_def)
  moreover have "plain_key (wd E) \<longrightarrow> fs_wf w \<longrightarrow> fs_wf ?w'"
    using fs_wf_set_node [of "tock w" ?k] plain_key_key_of by (simp add: fs_wf_def)
  ultimately show ?thesis by (auto simp: writing_def unfinished_def node_at_set)
qed

lemma Close_run:
  assumes "no_faults E" and "writing z es w"
  shows "\<exists>w' m. Close E z w = (Ok (z\<lparr>isOpen := False\<rparr>), w') \<and> handles w' = handles w - 1 \<and> same_keys w w' \<and>
    node_at w' (zfile z) = Some (File (Archive es True) m) \<and>
    (\<forall>k. k \<noteq> zfile z \<longrightarrow> node_at w' k = node_at w k)"
proof -
  let ?w1 = "set_content (zfile z) finish (tock w)"
  let ?w2 = "?w1\<lparr>tick := Suc (tick ?w1), handles := handles ?w1 - 1\<rparr>"
  obtain m where m: "node_at w (zfile z) = Some (File (unfinished es) m)" and o: "isOpen z"
    using assms(2) by (auto simp: writing_def)
  have "Close E z w = (Ok (z\<lparr>isOpen := False\<rparr>), ?w2)"
    using o by (simp add: Close_def bnd_def attempt_def zip_update_run [OF assms(1)]
        os_close_run [OF assms(1)] ret_def)
  moreover have "finish (unfinished es) = Archive es True" by (simp add: unfinished_def)
  then have "node_at ?w2 (zfile z) = Some (File (Archive es True) m)"
    using m by (simp add: node_at_set_content)
  moreover have "same_keys w ?w2" using same_keys_set_content [of "tock w"] by simp
  ultimately show ?thesis by (auto simp: node_at_set_content)
qed

lemma ListFiles_run:
  assumes "no_faults E" and "path_ok p" and "node_at w (key_of (wd E) p) = Some (File (Archive es True) m)"
  shows "\<exists>w'. ListFiles E p w = (Ok (map ze_name es), w') \<and> handles w' = handles w \<and> fs w' = fs w"
proof -
  let ?k = "key_of (wd E) p"
  let ?w1 = "(tock w)\<lparr>handles := handles w + 1\<rparr>"
  let ?w2 = "tock ?w1"
  have o: "os_open E p w = (Ok ?k, ?w1)" by (rule os_open_run [OF assms]) simp
  have "file_read E ?k ?w1 = (Ok (Archive es True), ?w2)"
    using assms(3) by (intro file_read_run [OF assms(1)]) simp
  then have "zip_OpenReader E p w = (Ok (?k, es), ?w2)"
    using o by (simp add: zip_OpenReader_def bnd_def attempt_def ret_def)
  then have "ListFiles E p w = (Ok (map ze_name es), ?w2\<lparr>tick := Suc (tick ?w2), handles := handles ?w2 - 1\<rparr>)"
    by (simp add: ListFiles_def bnd_def map_err_def handle_def defer_errors_join_def ret_def
        os_close_run [OF assms(1)])
  then show ?thesis by auto
qed

text \<open>Writing a list of files into a new archive.\<close>

definition write_archive :: "env \<Rightarrow> string \<Rightarrow> (string \<times> string) list \<Rightarrow> (world, Handler) go" where
  "write_archive E dest files =
     bnd (New E dest) (\<lambda>z.
     bnd (for_each files (\<lambda>(origin, d). AddFile E z origin d)) (\<lambda>_.
     Close E z))"

definition content_at :: "env \<Rightarrow> world \<Rightarrow> string \<Rightarrow> content" where
  "content_at E w p = (case node_at w (key_of (wd E) p) of Some (File c m) \<Rightarrow> c | _ \<Rightarrow> Raw [])"

definition can_add :: "env \<Rightarrow> world \<Rightarrow> string \<times> string \<Rightarrow> bool" where
  "can_add E w f \<longleftrightarrow> path_ok (fst f) \<and> entry_name_ok (snd f) \<and>
     (case node_at w (key_of (wd E) (fst f)) of Some (File c m) \<Rightarrow> True | _ \<Rightarrow> False)"

lemma AddFiles_run:
  assumes "no_faults E" and "writing z es w" and "\<forall>f \<in> set files. can_add E w f \<and> key_of (wd E) (fst f) \<noteq> zfile z"
  shows "\<exists>w'. for_each files (\<lambda>(origin, d). AddFile E z origin d) w = (Ok (), w') \<and>
    wrote z (es @ map (\<lambda>(origin, d). ZEntry d False (content_at E w origin)) files) w w'"
  using assms(2,3)
proof (induction files arbitrary: es w)
  case Nil
  then show ?case by (auto simp: ret_def wrote_def)
next
  case (Cons f files)
  obtain origin d where f: "f = (origin, d)" by (cases f)
  let ?e = "ZEntry d False (content_at E w origin)"
  have "can_add E w f" "key_of (wd E) origin \<noteq> zfile z" using Cons.prems(2) f by auto
  then obtain w1 where w1: "AddFile E z origin d w = (Ok (), w1)" "wrote z (es @ [?e]) w w1"
    using AddFile_run [OF assms(1) Cons.prems(1), of d origin] f
    by (auto simp: can_add_def content_at_def split: option.splits node.splits)
  have same: "node_at w1 (key_of (wd E) (fst g)) = node_at w (key_of (wd E) (fst g))" if "g \<in> set files" for g
    using that w1(2) Cons.prems(2) by (simp add: wrote_def)
  have "\<forall>g \<in> set files. can_add E w1 g \<and> key_of (wd E) (fst g) \<noteq> zfile z"
    using Cons.prems(2) same by (simp add: can_add_def)
  moreover have "writing z (es @ [?e]) w1" using w1(2) by (simp add: wrote_def)
  ultimately obtain w2 where w2: "for_each files (\<lambda>(origin, d). AddFile E z origin d) w1 = (Ok (), w2)"
      "wrote z ((es @ [?e]) @ map (\<lambda>(origin, d). ZEntry d False (content_at E w1 origin)) files) w1 w2"
    using Cons.IH by blast
  have eq: "map (\<lambda>(origin, d). ZEntry d False (content_at E w1 origin)) files =
      map (\<lambda>(origin, d). ZEntry d False (content_at E w origin)) files"
    using same by (auto simp: content_at_def)
  have "wrote z (es @ map (\<lambda>(origin, d). ZEntry d False (content_at E w origin)) (f # files)) w w2"
    using wrote_trans [OF w1(2) w2(2) [unfolded eq]] f by simp
  moreover have "for_each (f # files) (\<lambda>(origin, d). AddFile E z origin d) w = (Ok (), w2)"
    using w1(1) w2(1) f by (simp add: bnd_OkI)
  ultimately show ?case by blast
qed

text \<open>
  C14. Round trip. When no call fails, adding existing files to a new archive and closing it
  succeeds; \<open>ListFiles\<close> then gives back exactly the destinations they were added under, in
  that order, every entry holds the content of its file, the files are as they were and
  nothing is left open.
\<close>

theorem zip_write_list:
  assumes "no_faults E" and "has_suffix dest ''.zip''" and "path_ok dest"
    and "node_at w (key_of (wd E) dest) = None"
    and "node_at w (butlast (key_of (wd E) dest)) = Some Dir"
    and "\<forall>f \<in> set files. can_add E w f"
  shows "\<exists>z w' m. write_archive E dest files w = (Ok z, w') \<and> \<not> isOpen z \<and> handles w' = handles w \<and>
    node_at w' (key_of (wd E) dest) =
      Some (File (Archive (map (\<lambda>(origin, d). ZEntry d False (content_at E w origin)) files) True) m) \<and>
    (\<forall>k. k \<noteq> key_of (wd E) dest \<longrightarrow> node_at w' k = node_at w k) \<and>
    fst (ListFiles E dest w') = Ok (map snd files)"
proof -
  let ?z = "\<lparr>isOpen = True, zfile = key_of (wd E) dest\<rparr>"
  let ?es = "map (\<lambda>(origin, d). ZEntry d False (content_at E w origin)) files"
  obtain w1 where w1: "New E dest w = (Ok ?z, w1)" "writing ?z [] w1" "handles w1 = handles w + 1"
      "\<forall>k. k \<noteq> key_of (wd E) dest \<longrightarrow> node_at w1 k = node_at w k"
    using New_run [OF assms(1-5)] by blast
  have ne: "key_of (wd E) (fst f) \<noteq> key_of (wd E) dest" if "f \<in> set files" for f
  proof
    assume "key_of (wd E) (fst f) = key_of (wd E) dest"
    with assms(4,6) that show False by (fastforce simp: can_add_def)
  qed
  then have "\<forall>f \<in> set files. can_add E w1 f \<and> key_of (wd E) (fst f) \<noteq> zfile ?z"
    using assms(6) w1(4) by (simp add: can_add_def)
  then obtain w2 where w2: "for_each files (\<lambda>(origin, d). AddFile E ?z origin d) w1 = (Ok (), w2)"
      "wrote ?z (map (\<lambda>(origin, d). ZEntry d False (content_at E w1 origin)) files) w1 w2"
    using AddFiles_run [OF assms(1) w1(2), of files] by auto
  have "map (\<lambda>(origin, d). ZEntry d False (content_at E w1 origin)) files = ?es"
    using ne w1(4) by (auto simp: content_at_def)
  with w2(2) have wr: "wrote ?z ?es w1 w2" by simp
  then have "writing ?z ?es w2" by (simp add: wrote_def)
  then obtain w3 m where w3: "Close E ?z w2 = (Ok (?z\<lparr>isOpen := False\<rparr>), w3)" "handles w3 = handles w2 - 1"
      "node_at w3 (zfile ?z) = Some (File (Archive ?es True) m)"
      "\<forall>k. k \<noteq> zfile ?z \<longrightarrow> node_at w3 k = node_at w2 k"
    using Close_run [OF assms(1)] by blast
  have "write_archive E dest files w = (Ok (?z\<lparr>isOpen := False\<rparr>), w3)"
    using w1(1) w2(1) w3(1) unfolding write_archive_def by (simp only: go_steps)
  moreover have "map ze_name ?es = map snd files" by (induction files) auto
  then have "fst (ListFiles E dest w3) = Ok (map snd files)"
    using ListFiles_run [OF assms(1,3), of w3 ?es m] w3(3) by auto
  moreover have "handles w3 = handles w" using w1(3) w3(2) wr by (simp add: wrote_def)
  moreover have "\<forall>k. k \<noteq> key_of (wd E) dest \<longrightarrow> node_at w3 k = node_at w k"
    using w1(4) w3(4) wr by (simp add: wrote_def)
  ultimately show ?thesis using w3(3) by auto
qed

text \<open>A directory with two files to be archived.\<close>

definition zip_world :: world where
  "zip_world = world_of [([''d''], Dir), ([''d'', ''x''], plain_file ''X''), ([''d'', ''y''], plain_file ''Y'')]"

lemma zip_keys:
  "key_of [] ''/d/x'' = [''d'', ''x'']" "key_of [] ''/d/y'' = [''d'', ''y'']"
  "key_of [] ''/d/b.zip'' = [''d'', ''b.zip'']"
  by (simp_all add: key_of_def is_abs_def norm_def push_def has_prefix_def)

theorem zip_write_list_witness:
  "\<exists>z w' m. write_archive ref_env ''/d/b.zip'' [(''/d/x'', ''d/x''), (''/d/y'', ''d/y'')] zip_world = (Ok z, w') \<and>
     node_at w' [''d'', ''b.zip''] = Some (File (Archive
       [ZEntry ''d/x'' False (Raw ''X''), ZEntry ''d/y'' False (Raw ''Y'')] True) m) \<and>
     fst (ListFiles ref_env ''/d/b.zip'' w') = Ok [''d/x'', ''d/y'']"
proof -
  let ?fs = "[(''/d/x'', ''d/x''), (''/d/y'', ''d/y'')]"
  have "\<forall>f \<in> set ?fs. can_add ref_env zip_world f"
    by (simp add: can_add_def zip_keys path_ok_def path_max_def entry_name_ok_def has_suffix_def
        zip_world_def node_at_world_of plain_file_def)
  moreover have "has_suffix ''/d/b.zip'' ''.zip''" and "path_ok ''/d/b.zip''"
    by (simp_all add: has_suffix_def path_ok_def path_max_def)
  moreover have "node_at zip_world (key_of (wd ref_env) ''/d/b.zip'') = None"
    and "node_at zip_world (butlast (key_of (wd ref_env) ''/d/b.zip'')) = Some Dir"
    by (simp_all only: ref_env_simps zip_keys) (simp_all add: zip_world_def node_at_world_of)
  moreover have "content_at ref_env zip_world ''/d/x'' = Raw ''X''"
    and "content_at ref_env zip_world ''/d/y'' = Raw ''Y''"
    by (simp_all only: content_at_def ref_env_simps zip_keys)
      (simp_all add: zip_world_def node_at_world_of plain_file_def)
  ultimately show ?thesis
    using zip_write_list [of ref_env "''/d/b.zip''" zip_world ?fs]
    by (simp only: no_faults_ref_env ref_env_simps zip_keys list.map prod.case snd_conv simp_thms) blast
qed

theorem zip_lifecycle_witness:
  "\<exists>w'. zip_step ref_env (\<lparr>isOpen = False, zfile = [''d'', ''x'']\<rparr>, zip_world)
       (\<lparr>isOpen = False, zfile = [''d'', ''x'']\<rparr>, w') \<and> fs w' = fs zip_world"
proof -
  let ?z = "\<lparr>isOpen = False, zfile = [''d'', ''x'']\<rparr>"
  have s: "zip_step ref_env (?z, zip_world) (?z, snd (AddFile ref_env ?z ''/d/x'' ''x'' zip_world))"
    by (rule step_AddFile)
  then have "(zip_step ref_env)\<^sup>*\<^sup>* (?z, zip_world) (?z, snd (AddFile ref_env ?z ''/d/x'' ''x'' zip_world))"
    by (rule r_into_rtranclp)
  from zip_lifecycle [OF this] s show ?thesis by auto
qed

text \<open>
  C27. \<open>Close\<close> never reports an error: when the directory of the archive cannot be written,
  it still returns normally and marks the handler closed, and the file that is left is no
  complete archive.
\<close>

theorem Close_hides_failure:
  assumes "writing z es w" and "fault E (tick w) = Some e"
  shows "\<exists>w'. Close E z w = (Ok (z\<lparr>isOpen := False\<rparr>), w') \<and> \<not> complete w' (zfile z) \<and>
    map ze_name (zentries w' (zfile z)) = map ze_name es"
proof -
  obtain m where m: "node_at w (zfile z) = Some (File (unfinished es) m)" and o: "isOpen z"
    using assms(1) by (auto simp: writing_def)
  obtain r w' where c: "os_close E (zfile z) (tock w) = (r, w')" by (cases "os_close E (zfile z) (tock w)")
  then have r: "r \<noteq> Panic" by (auto simp: os_close_def Let_def split: option.splits)
  have "zip_update E (zfile z) finish w = (Fail (ErrPath ''write'' (render True (zfile z)) e), tock w)"
    using assms(2) by (simp add: zip_update_def)
  with c r o have cl: "Close E z w = (Ok (z\<lparr>isOpen := False\<rparr>), w')"
    by (cases r) (simp_all add: Close_def bnd_def attempt_def ret_def)
  have "keeps fs (tock w) w'" using effectsD [OF effects_os_close c] .
  then have "node_at w' (zfile z) = Some (File (unfinished es) m)"
    using m by (auto simp: keeps_def node_at_def split: if_splits)
  with cl show ?thesis by (auto simp: complete_def zentries_def unfinished_def)
qed

definition full_disk_env :: env where
  "full_disk_env = ref_env\<lparr>fault := (\<lambda>t. Some ENOSPC)\<rparr>"

theorem Close_hides_failure_witness:
  "\<exists>w'. Close full_disk_env \<lparr>isOpen = True, zfile = [''b.zip'']\<rparr>
       (world_of [([''b.zip''], File (Raw []) (new_meta ref_env 384))]) =
     (Ok \<lparr>isOpen = False, zfile = [''b.zip'']\<rparr>, w') \<and> \<not> complete w' [''b.zip'']"
  using Close_hides_failure [of "\<lparr>isOpen = True, zfile = [''b.zip'']\<rparr>" "[]"
      "world_of [([''b.zip''], File (Raw []) (new_meta ref_env 384))]" full_disk_env ENOSPC]
  by (auto simp: writing_def unfinished_def node_at_world_of full_disk_env_def)

end
