(* ===== verification/SshClient.thy ===== *)
theory SshClient
  imports Io
begin

text \<open>
  \<open>lib/ssh/ssh.go\<close>: making a client, connecting, sessions, and \<open>which\<close> on the remote
  machine. A method that changes the client gives the client as it is afterwards. The field
  \<open>conns\<close> of the world counts the network connections that are open (to the server and to
  the agent), \<open>sessions\<close> the ssh sessions.
\<close>

section \<open>Types\<close>

type_synonym AuthType = int

definition Password :: AuthType where "Password = 0"
definition PrivateKey :: AuthType where "PrivateKey = 1"
definition SshAgent :: AuthType where "SshAgent = 2"

lemmas auth_consts = Password_def PrivateKey_def SshAgent_def

record Cfg =
  cfg_Host :: string
  cfg_Port :: int
  cfg_Auth :: AuthType
  cfg_User :: string
  cfg_Password :: string
  cfg_PrivateKey :: string
  cfg_PassPhrase :: string
  cfg_IgnoreHostKey :: bool

text \<open>\<open>agentConn\<close> is nil, or a connection that is still open (\<open>True\<close>) or closed.\<close>

record Client =
  config :: client_config
  server :: string
  conn :: bool
  agentConn :: "bool option"

definition agent_open :: "Client \<Rightarrow> bool" where
  "agent_open c \<longleftrightarrow> agentConn c = Some True"

definition add_conns :: "int \<Rightarrow> (world, unit) go" where
  "add_conns d = modify (\<lambda>w. w\<lparr>conns := conns w + d\<rparr>)"

definition add_sessions :: "int \<Rightarrow> (world, unit) go" where
  "add_sessions d = modify (\<lambda>w. w\<lparr>sessions := sessions w + d\<rparr>)"

text \<open>The bytes of a file that is read as text; those of an archive are not modelled further.\<close>

fun bytes_of :: "content \<Rightarrow> string" where
  "bytes_of (Raw s) = s"
| "bytes_of (Archive es b) = ''PK''"


section \<open>Making a client\<close>

definition readKey :: "env \<Rightarrow> string \<Rightarrow> (world, string) go" where
  "readKey E path =
     bnd (map_err (errorf_v ''getting users home dir: '') (from_sum (home_dir E))) (\<lambda>userHome.
     let keyFile = abs_path (wd E) (path_join [userHome, ''.ssh/id_rsa'']);
         keyFile = (if path \<noteq> [] then path else keyFile);
         keyFile = abs_path (wd E) keyFile in
     bnd (attempt (os_stat E keyFile)) (\<lambda>r.
     if (case r of Inl e \<Rightarrow> errors_is e ErrNotExist | Inr i \<Rightarrow> False)
     then throw (ErrNew ''private key does not exists'')
     else
     bnd (map_err (errorf_v ''reading private key file failed '') (os_read_file E keyFile)) (\<lambda>c.
     ret (bytes_of c))))"

text \<open>When the agent gives no keys the connection to it stays open.\<close>

definition sshAgentSigners :: "env \<Rightarrow> (world, string list) go" where
  "sshAgentSigners E =
     (let sshAuthSock = getenv E ''SSH_AUTH_SOCK'' in
      if sshAuthSock = [] then throw (ErrNew ''env variable SSH_AUTH_SOCK is not set or ssh agent not running'')
      else
      bnd (map_err (errorf_v ''unable to connect to ssh agent: '') (service_err (\<lambda>t. agent_dial E t sshAuthSock)))
        (\<lambda>_. bnd (add_conns 1) (\<lambda>_.
      map_err (errorf_v ''error getting ssh signers from agent: '') (service_sum (agent_signers E)))))"

definition auth_methods :: "env \<Rightarrow> Cfg \<Rightarrow> (world, auth_method list \<times> bool option) go" where
  "auth_methods E cfg =
     (if cfg_Auth cfg = Password then ret ([AuthPassword (cfg_Password cfg)], None)
      else if cfg_Auth cfg = PrivateKey then
        bnd (map_err (errorf_v ''unable to read private key: '') (readKey E (cfg_PrivateKey cfg))) (\<lambda>pKey.
        bnd (map_err (errorf_v ''unable to parse private key: '')
               (from_sum (parse_key E pKey
                 (if cfg_PassPhrase cfg \<noteq> [] then Some (cfg_PassPhrase cfg) else None)))) (\<lambda>signer.
        ret ([AuthPublicKey signer], None)))
      else if cfg_Auth cfg = SshAgent then
        bnd (map_err (errorf_v ''unable to get keys from ssh agent: '') (sshAgentSigners E)) (\<lambda>signers.
        ret (map AuthPublicKey signers, Some True))
      else throw (ErrNew ''authentication type not provided''))"

definition host_key_callback :: "env \<Rightarrow> Cfg \<Rightarrow> (world, hostkey) go" where
  "host_key_callback E cfg =
     (if cfg_IgnoreHostKey cfg then ret AcceptAny
      else
      bnd (map_err (errorf_v ''getting users home dir: '') (from_sum (home_dir E))) (\<lambda>userHome.
      let knownHostsAbsFile = abs_path (wd E) (path_join [userHome, ''.ssh/known_hosts'']) in
      bnd (map_err (errorf_v ''error checking known_hosts: '') (service_err (\<lambda>t. known_hosts E knownHostsAbsFile)))
        (\<lambda>_. ret (KnownHosts knownHostsAbsFile))))"

definition NewClient :: "env \<Rightarrow> Cfg \<Rightarrow> (world, Client) go" where
  "NewClient E cfg =
     (if cfg_User cfg = [] then throw (ErrNew ''user is a mandatory field'')
      else
      bnd (auth_methods E cfg) (\<lambda>(authMethod, agent).
      bnd (host_key_callback E cfg) (\<lambda>knownHostCallback.
      ret \<lparr>config = \<lparr>cc_User = cfg_User cfg, cc_HostKey = knownHostCallback, cc_Auth = authMethod\<rparr>,
           server = cfg_Host cfg @ '':'' @ show_int (cfg_Port cfg),
           conn = False, agentConn = agent\<rparr>)))"

definition GetAuthType :: "ConnType \<Rightarrow> AuthType" where
  "GetAuthType x =
     (if x = ConnTypePasswd then Password
      else if x = ConnTypeSshKey then PrivateKey
      else if x = ConnTypeSshAgent then SshAgent
      else Password)"


section \<open>Connecting and sessions\<close>

definition Connect :: "env \<Rightarrow> Client \<Rightarrow> (world, Client) go" where
  "Connect E c =
     (if conn c then throw (ErrNew ''connection already open'')
      else
      bnd (log_event (EvDial (server c) (config c))) (\<lambda>_.
      bnd (map_err (errorf_v (''dial to '' @ server c @ '' failed ''))
             (service_err (\<lambda>t. ssh_dial E t (server c) (config c)))) (\<lambda>_.
      bnd (add_conns 1) (\<lambda>_.
      ret (c\<lparr>conn := True\<rparr>)))))"

text \<open>Closing a connection that was never opened dereferences nil.\<close>

definition Disconnect :: "env \<Rightarrow> Client \<Rightarrow> (world, goerr option \<times> Client) go" where
  "Disconnect E c =
     bnd (if agent_open c then add_conns (-1) else ret ()) (\<lambda>_.
     let c' = (if agentConn c = None then c else c\<lparr>agentConn := Some False\<rparr>) in
     if \<not> conn c' then gopanic
     else
     bnd (log_event EvDisconnect) (\<lambda>_.
     bnd (add_conns (-1)) (\<lambda>_.
     bnd (service (ssh_close E)) (\<lambda>err.
     ret (err, c'\<lparr>conn := False\<rparr>)))))"

definition Session :: "env \<Rightarrow> Client \<Rightarrow> (world, unit) go" where
  "Session E c =
     (if \<not> conn c then throw (ErrNew ''unable to create session: connection not open'')
      else
      bnd (map_err (errorf_v (''create session for '' @ server c @ '' failed '')) (service_err (ssh_session E)))
        (\<lambda>_. add_sessions 1))"

definition session_Close :: "env \<Rightarrow> (world, unit) go" where
  "session_Close E = bnd (add_sessions (-1)) (\<lambda>_. service_err (ssh_session_close E))"

text \<open>
  A body that runs in a session: it is closed at the end, and an error of closing is joined
  to the result unless it is \<open>io.EOF\<close>.
\<close>

definition with_session :: "env \<Rightarrow> (world, 'a) go \<Rightarrow> (world, 'a) go" where
  "with_session E body = defer_join (\<lambda>e. \<not> errors_is e ErrEOF) body (session_Close E)"

definition CombinedOutput :: "env \<Rightarrow> string \<Rightarrow> (world, string \<times> goerr option) go" where
  "CombinedOutput E cmd = bnd (log_event (EvSsh cmd)) (\<lambda>_. service (\<lambda>t. ssh_combined E t cmd))"

text \<open>\<open>errors.As\<close> for an \<open>*ssh.ExitError\<close>: its exit status.\<close>

fun as_exit :: "goerr \<Rightarrow> int option" and as_exit_list :: "goerr list \<Rightarrow> int option" where
  "as_exit (ErrExit n s) = Some n"
| "as_exit (ErrWrap a e b) = as_exit e"
| "as_exit (ErrJoin es) = as_exit_list es"
| "as_exit (ErrNew s) = None"
| "as_exit (ErrSentinel s) = None"
| "as_exit (ErrPath a b c) = None"
| "as_exit_list [] = None"
| "as_exit_list (e # es) = (case as_exit e of Some n \<Rightarrow> Some n | None \<Rightarrow> as_exit_list es)"

definition quote :: "string \<Rightarrow> string" where
  "quote s = [CHR 0x27] @ s @ [CHR 0x27]"

definition Which :: "env \<Rightarrow> Client \<Rightarrow> string \<Rightarrow> (world, string) go" where
  "Which E c app =
     bnd (map_err (errorf_w ''failed to create session: '') (Session E c)) (\<lambda>_.
     with_session E
       (let cmd = ''which '' @ app in
        bnd (CombinedOutput E cmd) (\<lambda>(output, err).
        case err of
          None \<Rightarrow> ret (trim (\<lambda>c. c = CHR '' '' \<or> c = CHR 0x0A) output)
        | Some e \<Rightarrow>
            (case as_exit e of
               Some n \<Rightarrow> throw (ErrNew (''command '' @ quote cmd @ '' failed with exit code '' @ show_int n))
             | None \<Rightarrow> throw (errorf_w (''SSH error running '' @ quote cmd @ '': '') e)))))"


section \<open>Connections are accounted for\<close>

text \<open>What a client holds open.\<close>

definition held :: "Client \<Rightarrow> int" where
  "held c = of_bool (conn c) + of_bool (agent_open c)"

text \<open>Everything a client does after it was made.\<close>

inductive ssh_step :: "env \<Rightarrow> Client \<times> world \<Rightarrow> Client \<times> world \<Rightarrow> bool" for E where
  step_Connect: "Connect E c w = (Ok c', w') \<Longrightarrow> ssh_step E (c, w) (c', w')"
| step_no_Connect: "Connect E c w = (Fail e, w') \<Longrightarrow> ssh_step E (c, w) (c, w')"
| step_Disconnect: "Disconnect E c w = (Ok (err, c'), w') \<Longrightarrow> ssh_step E (c, w) (c', w')"
| step_Which: "ssh_step E (c, w) (c, snd (Which E c app w))"

inductive_cases ssh_stepE: "ssh_step E (c, w) (c', w')"

lemma conns_simps [simp]:
  "snd (service f w) = w\<lparr>tick := Suc (tick w)\<rparr>" "snd (log_event e w) = w\<lparr>trace := trace w @ [e]\<rparr>"
  by (simp_all add: service_def log_event_def modify_def)

text \<open>The calls that leave the counter of connections alone.\<close>

lemma keeps_conns_ticked: "effects ticked m \<Longrightarrow> effects (keeps conns) m"
  by (erule effects_mono) (simp add: keeps_def ticked_fields)

lemma keeps_conns [calls]:
  "effects (keeps conns) (log_event e)" "effects (keeps conns) (add_sessions d)"
  by (rule effectsI, simp add: keeps_def log_event_def add_sessions_def modify_def)+

lemmas keeps_conns_calls = keeps_conns
  effects_service [THEN keeps_conns_ticked] effects_service_err [THEN keeps_conns_ticked]
  effects_from_sum [THEN keeps_conns_ticked] effects_service_sum [THEN keeps_conns_ticked]

lemma keeps_conns_session:
  "effects (keeps conns) (Session E c)" "effects (keeps conns) (session_Close E)"
  unfolding Session_def session_Close_def
  by (intro kp.keeps_if kp.keeps_throw kp.keeps_bnd kp.keeps_map_err keeps_conns_calls)+

lemma keeps_conns_Which: "effects (keeps conns) (Which E c app)"
  unfolding Which_def with_session_def CombinedOutput_def Let_def
  by (intro kp.keeps_bnd kp.keeps_map_err kp.keeps_defer_join kp.keeps_case_prod kp.keeps_case_option
      kp.keeps_ret kp.keeps_throw keeps_conns_calls keeps_conns_session)

lemma service_err_Ok: "service_err f w = (Ok x, w') \<Longrightarrow> w' = tock w"
  by (auto simp: service_err_def service_def)

lemma service_err_Fail: "service_err f w = (Fail e, w') \<Longrightarrow> w' = tock w"
  by (auto simp: service_err_def service_def bnd_def check_err_def ret_def throw_def split: option.splits)

lemma add_conns_Ok: "add_conns d w = (Ok x, w') \<longleftrightarrow> w' = w\<lparr>conns := conns w + d\<rparr>"
  by (simp add: add_conns_def)

lemma log_event_Ok: "log_event e w = (Ok x, w') \<longleftrightarrow> w' = w\<lparr>trace := trace w @ [e]\<rparr>"
  by (simp add: log_event_def)

lemma Connect_Ok:
  assumes "Connect E c w = (Ok c', w')"
  shows "\<not> conn c \<and> c' = c\<lparr>conn := True\<rparr> \<and> conns w' = conns w + 1 \<and> fs w' = fs w"
  using assms
  by (auto simp: Connect_def add_conns_Ok log_event_Ok dest!: service_err_Ok split: if_splits)

lemma Connect_Fail:
  assumes "Connect E c w = (Fail e, w')"
  shows "conns w' = conns w"
  using assms
  by (auto simp: Connect_def bnd_def log_event_def modify_def throw_def ret_def map_err_def handle_def
      add_conns_def service_err_def service_def check_err_def split: if_splits prod.splits res.splits option.splits)

lemma Disconnect_Ok:
  assumes "Disconnect E c w = (Ok (err, c'), w')"
  shows "conn c \<and> \<not> conn c' \<and> \<not> agent_open c' \<and> conns w' = conns w - held c \<and>
    config c' = config c \<and> server c' = server c"
  using assms
  by (auto simp: Disconnect_def held_def agent_open_def add_conns_Ok log_event_Ok service_def Let_def
      gopanic_def split: if_splits)

lemma ssh_step_conns:
  assumes "ssh_step E (c, w) (c', w')"
  shows "conns w' - held c' = conns w - held c \<and> config c' = config c \<and> server c' = server c"
  using assms
  apply (elim ssh_stepE)
     apply (drule Connect_Ok, simp add: held_def agent_open_def)
    apply (drule Connect_Fail, simp)
   apply (drule Disconnect_Ok, simp add: held_def)
  apply (use effects_snd [OF keeps_conns_Which] in \<open>simp add: keeps_def\<close>)
  done

lemma service_sum_conns: "service_sum f v = (r, v') \<Longrightarrow> conns v' = conns v"
  using ticked_fields(3) [OF effectsD [OF effects_service_sum]] .

lemma from_sum_Ok: "from_sum r v = (Ok x, v') \<longleftrightarrow> r = Inr x \<and> v' = v"
  by (cases r) (auto simp: from_sum_def)

lemma auth_methods_conns:
  assumes "auth_methods E cfg w = (Ok (m, a), w')"
  shows "conns w' = conns w + of_bool (a = Some True)"
proof -
  have rk: "conns v' = conns v" if "readKey E p v = (r, v')" for p v r v'
  proof -
    have "effects ticked (readKey E p)"
      unfolding readKey_def Let_def
      by (intro tk.keeps_bnd tk.keeps_map_err tk.keeps_attempt tk.keeps_if tk.keeps_throw tk.keeps_ret
          effects_from_sum effects_os_stat effects_os_read_file)
    from effectsD [OF this that] show ?thesis by (rule ticked_fields)
  qed
  show ?thesis
    using assms
    by (auto simp: auth_methods_def sshAgentSigners_def Let_def add_conns_Ok from_sum_Ok split: if_splits
        dest!: rk service_err_Ok service_sum_conns)
qed

lemma host_key_callback_conns:
  assumes "host_key_callback E cfg w = (r, w')"
  shows "conns w' = conns w"
proof -
  have "effects ticked (host_key_callback E cfg)"
    unfolding host_key_callback_def Let_def
    by (intro tk.keeps_if tk.keeps_bnd tk.keeps_map_err tk.keeps_ret effects_from_sum effects_service_err)
  from effectsD [OF this assms] show ?thesis by (rule ticked_fields)
qed

lemma NewClient_conns:
  assumes "NewClient E cfg w = (Ok c, w')"
  shows "conns w' = conns w + held c \<and> \<not> conn c"
  using assms
  by (auto simp: NewClient_def held_def agent_open_def dest!: auth_methods_conns host_key_callback_conns split: if_splits)

text \<open>
  C28. Connections are accounted for. From making a client and over any sequence of connecting,
  disconnecting and running \<open>which\<close>, in any order and whatever fails, the number of open
  connections is what it was before plus what the client holds (the ssh connection and the
  agent's), its user, keys, host-key check and server never change, and after a
  \<open>Disconnect\<close> nothing is held.
\<close>

theorem ssh_no_connection_leak:
  assumes "NewClient E cfg w = (Ok c, w1)" and "(ssh_step E)\<^sup>*\<^sup>* (c, w1) (c', w')"
  shows "conns w' = conns w + held c' \<and> config c' = config c \<and> server c' = server c \<and>
    (\<forall>err c'' w''. Disconnect E c' w' = (Ok (err, c''), w'') \<longrightarrow> held c'' = 0 \<and> conns w'' = conns w)"
proof -
  have "conns w' - held c' = conns w1 - held c \<and> config c' = config c \<and> server c' = server c"
    using assms(2)
  proof (induction "(c', w')" arbitrary: c' w' rule: rtranclp_induct)
    case base
    show ?case by simp
  next
    case (step y)
    obtain c2 w2 where "y = (c2, w2)" by (cases y)
    with step ssh_step_conns [of E c2 w2 c' w'] show ?case by simp
  qed
  with NewClient_conns [OF assms(1)] show ?thesis
    using Disconnect_Ok by (fastforce simp: held_def)
qed

text \<open>
  \<open>Disconnect\<close> needs a connection: on a client that is not connected it panics (closing
  nil), on a connected one it never does, and it reports an error only as a value.
\<close>

theorem Disconnect_panics_iff: "fst (Disconnect E c w) = Panic \<longleftrightarrow> \<not> conn c"
  by (simp add: Disconnect_def bnd_def log_event_def modify_def add_conns_def service_def ret_def
      gopanic_def Let_def)

definition ref_cfg :: Cfg where
  "ref_cfg = \<lparr>cfg_Host = ''h'', cfg_Port = 22, cfg_Auth = Password, cfg_User = ''u'', cfg_Password = ''p'',
     cfg_PrivateKey = [], cfg_PassPhrase = [], cfg_IgnoreHostKey = True\<rparr>"

definition ref_client :: Client where
  "ref_client = \<lparr>config = \<lparr>cc_User = ''u'', cc_HostKey = AcceptAny, cc_Auth = [AuthPassword ''p'']\<rparr>,
     server = ''h:'' @ show_int 22, conn = False, agentConn = None\<rparr>"

lemma ref_client_made: "NewClient ref_env ref_cfg w = (Ok ref_client, w)"
  by (simp add: NewClient_def ref_cfg_def auth_methods_def host_key_callback_def ref_client_def ret_def)

lemma ref_client_connects:
  "\<exists>w'. Connect ref_env ref_client w = (Ok (ref_client\<lparr>conn := True\<rparr>), w')"
  by (simp add: Connect_def ref_client_def bnd_def map_err_def handle_def log_event_def modify_def
      add_conns_def service_err_def service_def check_err_def ret_def ref_env_def)

theorem ssh_no_connection_leak_witness:
  "\<exists>c w1 c' w'. NewClient ref_env ref_cfg (world_of []) = (Ok c, w1) \<and>
     ssh_step ref_env (c, w1) (c', w') \<and> conns w' = 1 \<and> held c' = 1"
proof -
  obtain w' where w': "Connect ref_env ref_client (world_of []) = (Ok (ref_client\<lparr>conn := True\<rparr>), w')"
    using ref_client_connects by blast
  then have s: "ssh_step ref_env (ref_client, world_of []) (ref_client\<lparr>conn := True\<rparr>, w')"
    by (rule step_Connect)
  then have "(ssh_step ref_env)\<^sup>*\<^sup>* (ref_client, world_of []) (ref_client\<lparr>conn := True\<rparr>, w')" by blast
  from ssh_no_connection_leak [OF ref_client_made this] have "conns w' = held (ref_client\<lparr>conn := True\<rparr>)"
    by simp
  moreover have "held (ref_client\<lparr>conn := True\<rparr>) = 1" by (simp add: held_def agent_open_def ref_client_def)
  ultimately show ?thesis using ref_client_made s by auto
qed


section \<open>Sessions are closed\<close>

lemma keeps_sessions_ticked: "effects ticked m \<Longrightarrow> effects (keeps sessions) m"
  by (erule effects_mono) (simp add: keeps_def ticked_fields)

lemma keeps_sessions_log: "effects (keeps sessions) (log_event e)"
  by (rule effectsI) (simp add: keeps_def log_event_def modify_def)

lemmas keeps_sessions_calls = keeps_sessions_log
  effects_service [THEN keeps_sessions_ticked] effects_service_err [THEN keeps_sessions_ticked]
  effects_from_sum [THEN keeps_sessions_ticked] effects_service_sum [THEN keeps_sessions_ticked]

text \<open>A body that runs in a session of its own leaves as many open as there were.\<close>

lemma in_session_closed:
  assumes "effects (keeps sessions) body"
  shows "sessions (snd (bnd (map_err f (Session E c)) (\<lambda>_. with_session E body) w)) = sessions w"
proof -
  have "sessions (snd (session_Close E v)) = sessions v - 1" for v
    by (simp add: session_Close_def add_sessions_def modify_def bnd_def service_err_def service_def
        check_err_def ret_def throw_def split: option.splits)
  then have body: "sessions (snd (with_session E body v)) = sessions v - 1" for v
    using effects_snd [OF assms, of v]
    by (auto simp: with_session_def defer_join_def keeps_def split: prod.splits res.splits)
      (metis snd_conv)+
  obtain r v where r: "Session E c w = (r, v)" by (cases "Session E c w")
  have "sessions v = sessions w + (case r of Ok x \<Rightarrow> 1 | _ \<Rightarrow> 0)"
    using r
    by (auto simp: Session_def bnd_def map_err_def handle_def service_err_def service_def check_err_def
        ret_def throw_def add_sessions_def modify_def split: if_splits option.splits)
  with r body [of v] show ?thesis
    by (cases r) (simp_all add: bnd_def map_err_def handle_def throw_def)
qed

lemma Which_sessions: "sessions (snd (Which E c app w)) = sessions w"
  unfolding Which_def Let_def CombinedOutput_def
  by (rule in_session_closed)
    (intro kp.keeps_bnd kp.keeps_case_prod kp.keeps_case_option kp.keeps_ret kp.keeps_throw keeps_sessions_calls)

end
