(* ===== verification/Expurge.thy ===== *)
theory Expurge
  imports RefEnv
begin

text \<open>
  \<open>app/goback/expurge.go\<close> and the name of a backup (\<open>getZipName\<close> of \<open>goback.go\<close>): which
  files of the destination are backups of a profile, when each was made, and which are
  deleted to keep the newest ones.
\<close>

section \<open>Names of backups\<close>

text \<open>The name \<open>getZipName\<close> builds for the time the clock shows.\<close>

definition zip_name :: "string \<Rightarrow> dtime \<Rightarrow> string" where
  "zip_name name dt = name @ ''_'' @ time_format dateStr dt @ ''_backup.zip''"

definition getZipName :: "env \<Rightarrow> string \<Rightarrow> (world, string) go" where
  "getZipName E name = bnd (time_now E) (\<lambda>dt. ret (zip_name name dt))"

text \<open>
  \<open>extractTime\<close>: the last four parts of the name but the very last. Slicing panics when
  there are fewer (\<open>None\<close>); a stamp that is no valid date gives the zero time.
\<close>

definition extractTime :: "string \<Rightarrow> dtime option" where
  "extractTime s =
     (let parts = split_on (CHR ''_'') s in
      if length parts < 4 then None
      else Some (time_parse_or_zero dateStr
             (str_join ''_'' (butlast (drop (length parts - 4) parts)))))"

definition backup_time :: "string \<Rightarrow> dtime" where
  "backup_time f = (case extractTime f of Some t \<Rightarrow> t | None \<Rightarrow> zero_time)"

definition findToDelete ::
  "(string \<Rightarrow> goerr + (string \<Rightarrow> bool)) \<Rightarrow> string list \<Rightarrow> string \<Rightarrow> int \<Rightarrow> string list res" where
  "findToDelete gc files profileName n =
     (if n \<le> 0 then Ok []
      else if profileName = [] then Fail (ErrNew ''profile name cannot be empty'')
      else
        (case gc (backup_pattern profileName) of
           Inl e \<Rightarrow>
             \<comment> \<open>the error is ignored and \<open>g\<close> is nil: calling its method panics\<close>
             if files = [] then Ok [] else Panic
         | Inr g \<Rightarrow>
             let found = filter g files in
             if found = [] then Ok []
             else if 2 \<le> length found \<and> list_ex (\<lambda>f. extractTime f = None) found then Panic
             else
               let sorted = sort_key backup_time found;
                   n' = (if int (length found) \<le> n then int (length found) else n)
               in Ok (take (nat (int (length found) - n')) sorted)))"

definition from_res :: "'a res \<Rightarrow> ('s, 'a) go" where
  "from_res r s = (r, s)"

text \<open>The loop that deletes, stopping at the first file that cannot be removed.\<close>

definition remove_old :: "env \<Rightarrow> string \<Rightarrow> string list \<Rightarrow> (world, unit) go" where
  "remove_old E path filesToDelete =
     (if length filesToDelete = 0 then ret ()
      else for_each filesToDelete (\<lambda>file.
        map_err (errorf_v ''unable to delete old zip file: '') (os_remove E (path_join [path, file]))))"

definition ExpurgeDir :: "env \<Rightarrow> string \<Rightarrow> int \<Rightarrow> string \<Rightarrow> (world, unit) go" where
  "ExpurgeDir E path keepN name =
     bnd (map_err (errorf_v ''error getting stat of path: '') (os_stat E path)) (\<lambda>pathInfo.
     if \<not> IsDir pathInfo then throw (ErrNew ''path is not a directory'')
     else
     bnd (map_err (errorf_v ''error listing files in path: '') (filepath_glob E (path @ ''/*.zip''))) (\<lambda>files.
     let fileNames = map base files in
     bnd (map_err (errorf_v ''error parsing files to delete: '')
            (from_res (findToDelete (glob_compile E) fileNames name keepN))) (\<lambda>filesToDelete.
     remove_old E path filesToDelete)))"


section \<open>The stamp in a name\<close>

lemma stamp_no_underscore:
  assumes "valid_time t"
  shows "split_on (CHR ''_'') (time_format dateStr t) =
    [pad 4 (year t), pad 2 (day t),
     pad 2 (month t) @ ''-'' @ pad 2 (hour t) @ '':'' @ pad 2 (minute t) @ '':'' @ pad 2 (second t)]"
proof -
  have nu: "CHR ''_'' \<notin> set (pad w n)" for w n
    using pad_digits [of w n] by (auto simp: list_all_iff is_digit_def less_eq_char_def)
  let ?a = "pad 4 (year t)" and ?b = "pad 2 (day t)"
  let ?c = "pad 2 (month t) @ ''-'' @ pad 2 (hour t) @ '':'' @ pad 2 (minute t) @ '':'' @ pad 2 (second t)"
  have "time_format dateStr t = str_join ''_'' [?a, ?b, ?c]"
    by (simp add: format_dateStr)
  moreover have "split_on (CHR ''_'') (str_join ''_'' [?a, ?b, ?c]) = [?a, ?b, ?c]"
    by (rule split_on_str_join) (auto simp: nu)
  ultimately show ?thesis by simp
qed

lemma split_zip_name:
  assumes "valid_time t"
  shows "split_on (CHR ''_'') (zip_name name t) =
    split_on (CHR ''_'') name @ split_on (CHR ''_'') (time_format dateStr t) @ [''backup.zip'']"
proof -
  have "zip_name name t = name @ CHR ''_'' # time_format dateStr t @ CHR ''_'' # ''backup.zip''"
    by (simp add: zip_name_def)
  then show ?thesis by (simp only: split_on_append_sep) (simp add: split_on_no_sep)
qed

text \<open>A stamp read back from the name of a backup is the time it was made.\<close>

lemma extractTime_zip_name:
  assumes "valid_time t"
  shows "extractTime (zip_name name t) = Some t"
proof -
  let ?ps = "split_on (CHR ''_'') name" and ?st = "split_on (CHR ''_'') (time_format dateStr t)"
  have len: "length ?st = 3" using stamp_no_underscore [OF assms] by simp
  then have "extractTime (zip_name name t) =
      Some (time_parse_or_zero dateStr (str_join ''_'' ?st))"
    by (simp add: extractTime_def Let_def split_zip_name [OF assms])
  also have "str_join ''_'' ?st = time_format dateStr t" by (rule str_join_split_on)
  finally show ?thesis
    by (simp add: time_parse_or_zero_def time_parse_format [OF assms])
qed

lemma backup_time_zip_name: "valid_time t \<Longrightarrow> backup_time (zip_name name t) = t"
  by (simp add: backup_time_def extractTime_zip_name)

lemma is_backup_of_zip_name:
  assumes "valid_time t"
  shows "is_backup_of name (zip_name name t)"
proof -
  have "fits ''_'' ''_''" and "fits ''_backup.zip'' ''_backup.zip''" by (simp_all add: fits_def)
  moreover have "length stamp_template = length (time_format dateStr t)"
    using format_fits [OF assms] by (rule fits_length)
  ultimately have "fits suffix_template (''_'' @ time_format dateStr t @ ''_backup.zip'')"
    unfolding suffix_template_def using format_fits [OF assms]
    by (simp add: fits_append del: append_Cons append_Nil)
  then show ?thesis by (simp add: is_backup_of_def zip_name_def)
qed

text \<open>Every name of the right shape has four parts, so reading it never panics.\<close>

lemma fits_literal:
  assumes "x \<noteq> CHR ''d''" and "fits (xs @ x # ys) s"
  obtains u v where "s = u @ x # v" and "fits xs u" and "fits ys v"
  using assms by (auto simp: fits_def list_all2_append1 list_all2_Cons1)

lemma fits_no_d: "CHR ''d'' \<notin> set xs \<Longrightarrow> fits xs s \<longleftrightarrow> s = xs"
proof (induction xs arbitrary: s)
  case Nil
  then show ?case by (simp add: fits_def)
next
  case (Cons x xs)
  then show ?case by (cases s) (auto simp: fits_def)
qed

lemma fits_Cons:
  "fits (x # xs) s \<longleftrightarrow> (\<exists>c r. s = c # r \<and> (if x = CHR ''d'' then is_digit c else c = x) \<and> fits xs r)"
  by (simp add: fits_def list_all2_Cons1)

lemma fits_chars: "fits xs s \<Longrightarrow> c \<in> set s \<Longrightarrow> is_digit c \<or> c \<in> set xs"
proof (induction xs arbitrary: s)
  case Nil
  then show ?case by (simp add: fits_def)
next
  case (Cons x xs)
  from Cons.prems show ?case by (auto simp: fits_Cons split: if_splits dest: Cons.IH)
qed

lemma not_digit: "\<not> is_digit (CHR ''_'')" "\<not> is_digit slash"
  by (simp_all add: is_digit_def less_eq_char_def)

lemma backup_suffix_parts:
  assumes "fits suffix_template s"
  shows "\<exists>a b c. s = ''_'' @ a @ ''_'' @ b @ ''_'' @ c @ ''_backup.zip''" and "slash \<notin> set s"
proof -
  have tpl: "suffix_template = [] @ CHR ''_'' # (''dddd'' @ CHR ''_'' # (''dd'' @ CHR ''_'' #
      (''dd-dd:dd:dd'' @ CHR ''_'' # ''backup.zip'')))"
    by (simp add: suffix_template_def stamp_template_def)
  obtain s1 a s2 b s3 c z where s: "s = CHR ''_'' # s1" "s1 = a @ CHR ''_'' # s2"
      "s2 = b @ CHR ''_'' # s3" "s3 = c @ CHR ''_'' # z" and "fits ''backup.zip'' z"
    using assms unfolding tpl
    by (elim fits_literal [rotated]) (auto simp: fits_def)
  then have "z = ''backup.zip''" by (simp add: fits_no_d)
  with s show "\<exists>a b c. s = ''_'' @ a @ ''_'' @ b @ ''_'' @ c @ ''_backup.zip''" by auto
  have "slash \<notin> set suffix_template" by (simp add: suffix_template_def stamp_template_def)
  with fits_chars [OF assms] not_digit show "slash \<notin> set s" by blast
qed

lemma extractTime_backup:
  assumes "is_backup_of name f"
  shows "extractTime f \<noteq> None"
proof -
  obtain s where f: "f = name @ s" and "fits suffix_template s"
    using assms by (auto simp: is_backup_of_split)
  then obtain a b c where "s = ''_'' @ a @ ''_'' @ b @ ''_'' @ c @ ''_backup.zip''"
    using backup_suffix_parts by blast
  then have "f = name @ CHR ''_'' # a @ CHR ''_'' # b @ CHR ''_'' # c @ CHR ''_'' # ''backup.zip''"
    using f by simp
  then have "split_on (CHR ''_'') f = split_on (CHR ''_'') name @ split_on (CHR ''_'') a @
      split_on (CHR ''_'') b @ split_on (CHR ''_'') c @ [''backup.zip'']"
    by (simp only: split_on_append_sep) (simp add: split_on_no_sep)
  then have "length (split_on (CHR ''_'') f) = length (split_on (CHR ''_'') name) +
      length (split_on (CHR ''_'') a) + length (split_on (CHR ''_'') b) +
      length (split_on (CHR ''_'') c) + 1" by simp
  moreover have some: "0 < length (split_on (CHR ''_'') x)" for x by simp
  ultimately have "4 \<le> length (split_on (CHR ''_'') f)"
    using some [of name] some [of a] some [of b] some [of c] by linarith
  then show ?thesis by (simp add: extractTime_def Let_def not_less)
qed

lemma is_backup_of_plain_name:
  assumes "is_backup_of name f" and "slash \<notin> set name"
  shows "plain_name f"
proof -
  obtain s where f: "f = name @ s" and fs: "fits suffix_template s"
    using assms(1) by (auto simp: is_backup_of_split)
  then have "slash \<notin> set s" using backup_suffix_parts by blast
  moreover have "31 \<le> length f"
    using fits_length [OF fs] f by (simp add: suffix_template_def stamp_template_def)
  moreover have "f \<noteq> [] \<and> f \<noteq> dot \<and> f \<noteq> dotdot" using \<open>31 \<le> length f\<close> by auto
  ultimately show ?thesis using assms(2) f by (simp add: plain_name_def)
qed

text \<open>The suffix has a fixed length, so the name of the profile can be read off a backup.\<close>

lemma is_backup_of_unique:
  assumes "is_backup_of a f" and "is_backup_of b f"
  shows "a = b"
proof -
  obtain s t where "f = a @ s" "f = b @ t" "fits suffix_template s" "fits suffix_template t"
    using assms unfolding is_backup_of_split by blast
  moreover from this have "length s = length t" using fits_length by metis
  ultimately show ?thesis by simp
qed


section \<open>What is deleted\<close>

definition backups_of :: "string \<Rightarrow> string list \<Rightarrow> string list" where
  "backups_of name files = filter (is_backup_of name) files"

text \<open>The specification: of the backups in order of age, all but the last \<open>n\<close>.\<close>

definition oldest_but :: "nat \<Rightarrow> string list \<Rightarrow> string list" where
  "oldest_but n bs = take (length bs - n) (sort_key backup_time bs)"

definition newest :: "nat \<Rightarrow> string list \<Rightarrow> string list" where
  "newest n bs = drop (length bs - n) (sort_key backup_time bs)"

lemma oldest_newest: "oldest_but n bs @ newest n bs = sort_key backup_time bs"
  by (simp add: oldest_but_def newest_def)

lemma mset_oldest_newest: "mset (oldest_but n bs) + mset (newest n bs) = mset bs"
  by (metis mset_append mset_sort oldest_newest)

lemma length_newest: "length (newest n bs) = min n (length bs)"
  by (simp add: newest_def)

lemma set_oldest_subset: "set (oldest_but n bs) \<subseteq> set bs"
  by (metis oldest_newest set_append set_sort sup_ge1)

lemma oldest_before_newest:
  assumes "d \<in> set (oldest_but n bs)" and "k \<in> set (newest n bs)"
  shows "backup_time d \<le> backup_time k"
proof -
  have "sorted (map backup_time (oldest_but n bs) @ map backup_time (newest n bs))"
    by (metis map_append oldest_newest sorted_sort_key)
  with assms show ?thesis by (auto simp: sorted_append)
qed

lemma distinct_oldest: "distinct bs \<Longrightarrow> distinct (oldest_but n bs)"
  by (simp add: oldest_but_def)

lemma newest_filter:
  assumes "distinct bs"
  shows "mset (filter (\<lambda>f. f \<notin> set (oldest_but n bs)) bs) = mset (newest n bs)"
proof -
  have d: "distinct (oldest_but n bs @ newest n bs)" using assms by (simp add: oldest_newest)
  have "mset (filter (\<lambda>f. f \<notin> set (oldest_but n bs)) bs) =
      filter_mset (\<lambda>f. f \<notin> set (oldest_but n bs)) (mset (oldest_but n bs) + mset (newest n bs))"
    by (simp add: mset_oldest_newest)
  also have "\<dots> = mset (filter (\<lambda>f. f \<notin> set (oldest_but n bs)) (oldest_but n bs)) +
      mset (filter (\<lambda>f. f \<notin> set (oldest_but n bs)) (newest n bs))"
    by simp
  also have "filter (\<lambda>f. f \<notin> set (oldest_but n bs)) (oldest_but n bs) = []"
    by (simp add: filter_empty_conv)
  also have "filter (\<lambda>f. f \<notin> set (oldest_but n bs)) (newest n bs) = newest n bs"
    using d by (auto simp: filter_id_conv)
  finally show ?thesis by simp
qed

context dated_glob
begin

lemma findToDelete_eq:
  assumes "glob_plain name" and "name \<noteq> []" and "0 < n"
  shows "findToDelete gc files name n = Ok (oldest_but (nat n) (backups_of name files))"
proof -
  obtain m where m: "gc (backup_pattern name) = Inr m" "m = is_backup_of name"
    using compiled [OF assms(1)] .
  let ?bs = "backups_of name files"
  have "\<not> list_ex (\<lambda>f. extractTime f = None) ?bs"
    using extractTime_backup by (auto simp: backups_of_def list_ex_iff)
  moreover have "nat (int (length ?bs) - (if int (length ?bs) \<le> n then int (length ?bs) else n))
      = length ?bs - nat n"
    using assms(3) by auto
  moreover have "filter m files = ?bs" by (simp add: m backups_of_def)
  ultimately show ?thesis
    using assms m by (simp only: findToDelete_def Let_def oldest_but_def sum.case) auto
qed

lemma findToDelete_subset:
  assumes "glob_plain name" and "findToDelete gc files name n = Ok del" and "f \<in> set del"
  shows "is_backup_of name f" and "f \<in> set files"
proof -
  have "name \<noteq> []" and "0 < n" using assms(2,3) by (auto simp: findToDelete_def split: if_splits)
  with assms have "f \<in> set (oldest_but (nat n) (backups_of name files))"
    by (simp add: findToDelete_eq)
  then have "f \<in> set (backups_of name files)" using set_oldest_subset by blast
  then show "is_backup_of name f" and "f \<in> set files" by (simp_all add: backups_of_def)
qed

end



text \<open>
  Isolation. Every file chosen for deletion is one of the files given, is named as a
  backup of the profile asked for, and is not a backup of any other profile.
\<close>

theorem findToDelete_only_own:
  assumes "dated_glob gc" and "glob_plain name" and "findToDelete gc files name n = Ok del"
    and "f \<in> set del"
  shows "f \<in> set files \<and> is_backup_of name f \<and> (\<forall>other. other \<noteq> name \<longrightarrow> \<not> is_backup_of other f)"
  using dated_glob.findToDelete_subset [OF assms] is_backup_of_unique by blast

text \<open>Two backups of a profile \<open>a\<close> and one of \<open>b_a\<close>, for the witnesses.\<close>

definition ex_old :: string where "ex_old = zip_name ''a'' (DTime 2023 8 9 7 6 5)"
definition ex_new :: string where "ex_new = zip_name ''a'' (DTime 2024 2 1 3 4 5)"
definition ex_other :: string where "ex_other = zip_name ''b_a'' (DTime 2020 2 1 3 4 5)"

lemma ex_backups:
  "is_backup_of ''a'' ex_old" "is_backup_of ''a'' ex_new" "\<not> is_backup_of ''a'' ex_other"
  "backup_time ex_old = DTime 2023 8 9 7 6 5" "backup_time ex_new = DTime 2024 2 1 3 4 5"
  "ex_old \<noteq> ex_new" "ex_old < ex_new" "glob_plain ''a''"
proof -
  have v: "valid_time (DTime 2023 8 9 7 6 5)" "valid_time (DTime 2024 2 1 3 4 5)"
    "valid_time (DTime 2020 2 1 3 4 5)"
    by (simp_all add: valid_time_def days_in_def is_leap_def)
  then show "is_backup_of ''a'' ex_old" "is_backup_of ''a'' ex_new"
    "backup_time ex_old = DTime 2023 8 9 7 6 5" "backup_time ex_new = DTime 2024 2 1 3 4 5"
    by (simp_all add: ex_old_def ex_new_def is_backup_of_zip_name backup_time_zip_name)
  have "is_backup_of ''b_a'' ex_other"
    using v(3) by (simp add: ex_other_def is_backup_of_zip_name)
  then show "\<not> is_backup_of ''a'' ex_other" using is_backup_of_unique by fastforce
  show "ex_old \<noteq> ex_new" "ex_old < ex_new"
    by (simp_all add: ex_old_def ex_new_def zip_name_def format_dateStr pad_def show_nat.simps digit_char_def
        less_char_def)
  show "glob_plain ''a''" by (simp add: glob_plain_def)
qed

lemma ex_oldest: "oldest_but 1 (backups_of ''a'' [ex_new, ex_other, ex_old]) = [ex_old]"
  using ex_backups by (simp add: oldest_but_def backups_of_def less_eq_dtime_def time_key_def)

lemma ex_find: "findToDelete glob_ref [ex_new, ex_other, ex_old] ''a'' 1 = Ok [ex_old]"
  using gobwas.findToDelete_eq [OF ex_backups(8), of 1] ex_oldest by simp

theorem findToDelete_only_own_witness:
  "findToDelete glob_ref [ex_new, ex_other, ex_old] ''a'' 1 = Ok [ex_old] \<and>
   ex_old \<in> set [ex_new, ex_other, ex_old] \<and> is_backup_of ''a'' ex_old \<and>
   \<not> is_backup_of ''b_a'' ex_old"
  using findToDelete_only_own [OF gobwas.dated_glob_axioms ex_backups(8) ex_find, of ex_old] ex_find
  by simp

text \<open>
  The newest backup survives: a file of the directory that is a backup of the profile
  and was made after every other one (as the backup just written is, when the clock does
  not go back) is never chosen for deletion.
\<close>

lemma findToDelete_spares_latest:
  assumes "dated_glob gc" and "glob_plain name" and "valid_time t"
    and "distinct files" and "zip_name name t \<in> set files"
    and "\<forall>f \<in> set files. is_backup_of name f \<and> f \<noteq> zip_name name t \<longrightarrow> backup_time f < t"
    and "findToDelete gc files name n = Ok del"
  shows "zip_name name t \<notin> set del"
proof
  let ?z = "zip_name name t" and ?bs = "backups_of name files"
  assume z: "?z \<in> set del"
  then have n: "name \<noteq> []" "0 < n" using assms(7) by (auto simp: findToDelete_def split: if_splits)
  then have del: "del = oldest_but (nat n) ?bs"
    using assms(1,2,7) by (simp add: dated_glob.findToDelete_eq)
  have "?z \<in> set ?bs"
    using assms(3,5) by (simp add: backups_of_def is_backup_of_zip_name)
  then have "0 < length ?bs" by (auto intro: length_pos_if_in_set)
  then have "newest (nat n) ?bs \<noteq> []"
    using n length_newest [of "nat n" ?bs] by (metis length_greater_0_conv min_less_iff_conj zero_less_nat_eq)
  then obtain k where k: "k \<in> set (newest (nat n) ?bs)" by (meson last_in_set)
  have "distinct (oldest_but (nat n) ?bs @ newest (nat n) ?bs)"
    using assms(4) by (simp add: oldest_newest backups_of_def)
  with z del k have "k \<noteq> ?z" by auto
  moreover have "k \<in> set ?bs"
    using k mset_oldest_newest [of "nat n" ?bs] by (metis set_mset_mset union_iff)
  ultimately have "backup_time k < t" using assms(6) by (auto simp: backups_of_def)
  moreover have "backup_time ?z \<le> backup_time k"
    using z k unfolding del by (rule oldest_before_newest)
  ultimately show False using assms(3) by (simp add: backup_time_zip_name)
qed

text \<open>
  C25. Round trip. The name \<open>getZipName\<close> gives a backup matches the pattern of its
  profile, and \<open>extractTime\<close> reads back the very time it was made (the layout puts the
  day before the month, and both directions agree on that).
\<close>

theorem zip_name_roundtrip:
  assumes "valid_time t"
  shows "is_backup_of name (zip_name name t) \<and> extractTime (zip_name name t) = Some t"
  using assms by (simp add: is_backup_of_zip_name extractTime_zip_name)

theorem zip_name_roundtrip_witness:
  "is_backup_of ''my_profile'' (zip_name ''my_profile'' (DTime 2024 2 29 23 59 58)) \<and>
   extractTime (zip_name ''my_profile'' (DTime 2024 2 29 23 59 58)) = Some (DTime 2024 2 29 23 59 58)"
  by (rule zip_name_roundtrip) (simp add: valid_time_def days_in_def is_leap_def)

text \<open>
  Running the expurge again finds nothing more to delete: on the files that are left
  after deleting what \<open>findToDelete\<close> returned, it returns nothing.
\<close>

theorem findToDelete_idempotent:
  assumes "dated_glob gc" and "glob_plain name" and "distinct files"
    and "findToDelete gc files name n = Ok del"
  shows "findToDelete gc (filter (\<lambda>f. f \<notin> set del) files) name n = Ok []"
proof (cases "0 < n")
  case True
  let ?left = "filter (\<lambda>f. f \<notin> set del) files"
  have n: "name \<noteq> []" using True assms(4) by (auto simp: findToDelete_def split: if_splits)
  then have del: "del = oldest_but (nat n) (backups_of name files)"
    using True assms(1,2,4) by (simp add: dated_glob.findToDelete_eq)
  have "backups_of name ?left = filter (\<lambda>f. f \<notin> set del) (backups_of name files)"
    by (simp add: backups_of_def conj_commute)
  moreover have "mset (filter (\<lambda>f. f \<notin> set del) (backups_of name files)) =
      mset (newest (nat n) (backups_of name files))"
    unfolding del by (rule newest_filter) (simp add: assms(3) backups_of_def)
  ultimately have "mset (backups_of name ?left) = mset (newest (nat n) (backups_of name files))"
    by simp
  then have "length (backups_of name ?left) = length (newest (nat n) (backups_of name files))"
    by (rule mset_eq_length)
  then have "length (backups_of name ?left) \<le> nat n" by (simp add: length_newest)
  then show ?thesis
    using dated_glob.findToDelete_eq [OF assms(1,2) n True, of ?left] by (simp add: oldest_but_def)
qed (simp add: findToDelete_def)

theorem findToDelete_idempotent_witness:
  "findToDelete glob_ref [ex_new, ex_other, ex_old] ''a'' 1 = Ok [ex_old] \<and>
   findToDelete glob_ref (filter (\<lambda>f. f \<notin> set [ex_old]) [ex_new, ex_other, ex_old]) ''a'' 1 = Ok []"
proof -
  have "distinct [ex_new, ex_other, ex_old]" using ex_backups by auto
  from findToDelete_idempotent [OF gobwas.dated_glob_axioms ex_backups(8) this ex_find]
  show ?thesis using ex_find by simp
qed


section \<open>ExpurgeDir\<close>

lemma from_res_Ok_iff [simp]: "from_res r s = (Ok x, t) \<longleftrightarrow> r = Ok x \<and> s = t"
  by (auto simp: from_res_def)

lemma from_res_Ok: "from_res (Ok x) = ret x"
  by (simp add: fun_eq_iff from_res_def ret_def)

lemma effects_from_res [calls]: "effects ticked (from_res r)"
  by (rule effectsI) (simp add: from_res_def)

text \<open>The keys of all possible backups of a profile in a directory.\<close>

definition backup_keys :: "key \<Rightarrow> string \<Rightarrow> key set" where
  "backup_keys d name = {d @ [f] | f. is_backup_of name f}"

lemma effects_ExpurgeDir:
  assumes "dated_glob (glob_compile E)" and "glob_plain name" and "slash \<notin> set name"
  shows "effects (frame (backup_keys (key_of (wd E) path) name)) (ExpurgeDir E path keepN name)"
proof -
  let ?K = "backup_keys (key_of (wd E) path) name"
  have remove: "effects (frame ?K) (os_remove E (path_join [path, f]))" if "is_backup_of name f" for f
    using is_backup_of_plain_name [OF that assms(3)] that
    by (intro effects_os_remove) (auto simp: key_of_join backup_keys_def)
  have loop: "effects (frame ?K) (remove_old E path del)"
    if "findToDelete (glob_compile E) names name keepN = Ok del" for del names
    unfolding remove_old_def
    using dated_glob.findToDelete_subset(1) [OF assms(1,2) that]
    by (intro fr.keeps_if fr.keeps_ret fr.keeps_for_each fr.keeps_map_err remove)
  have rest: "effects (frame ?K) (bnd (map_err x
      (from_res (findToDelete (glob_compile E) names name keepN))) (\<lambda>del. remove_old E path del))"
    for names x
  proof (rule fr.keeps_bnd_Ok)
    show "effects (frame ?K) (map_err x (from_res (findToDelete (glob_compile E) names name keepN)))"
      by (intro fr.keeps_map_err effects_ticked_frame effects_from_res)
  next
    fix del and s t :: world
    assume "map_err x (from_res (findToDelete (glob_compile E) names name keepN)) s = (Ok del, t)"
    then have "findToDelete (glob_compile E) names name keepN = Ok del" by simp
    then show "frame ?K t (snd (remove_old E path del t))" by (rule effects_snd [OF loop])
  qed
  show ?thesis
    unfolding ExpurgeDir_def Let_def
    by (rule fr.keeps_bnd fr.keeps_map_err effects_ticked_frame effects_os_stat
        fr.keeps_if fr.keeps_throw effects_filepath_glob rest)+
qed

text \<open>
  C24. Safety. Whatever system calls fail and whatever it returns, \<open>ExpurgeDir\<close> changes no
  file except those of the directory that are named as backups of the profile it was asked
  for (the name has no slash and no character special in a pattern, and no such file is a
  symbolic link).
\<close>

theorem ExpurgeDir_touches_only_own_backups:
  assumes "dated_glob (glob_compile E)" and "glob_plain name" and "slash \<notin> set name"
    and "no_links (backup_keys (key_of (wd E) path) name) w"
    and "k \<notin> backup_keys (key_of (wd E) path) name"
  shows "node_at (snd (ExpurgeDir E path keepN name w)) k = node_at w k"
  using effects_snd [OF effects_ExpurgeDir [OF assms(1-3)], of path w keepN] assms(4,5)
  by (auto simp: frame_def same_outside_def)

text \<open>A directory with two backups of a profile and one of another.\<close>

definition ex_world :: world where
  "ex_world = world_of [([''d''], Dir), ([''d'', ex_new], plain_file ''n''),
     ([''d'', ex_other], plain_file ''o''), ([''d'', ex_old], plain_file ''x'')]"

lemma ex_plain_names: "plain_name ex_old" "plain_name ex_new" "plain_name ex_other"
proof -
  have "is_backup_of ''b_a'' ex_other"
    unfolding ex_other_def by (rule is_backup_of_zip_name) (simp add: valid_time_def days_in_def)
  then show "plain_name ex_other" by (rule is_backup_of_plain_name) simp
qed (use ex_backups(1,2) is_backup_of_plain_name in \<open>simp_all\<close>)

lemma ex_distinct: "ex_other \<noteq> ex_old" "ex_other \<noteq> ex_new"
  using ex_backups by auto

lemma ex_lengths: "length ex_old = 32" "length ex_new = 32" "length ex_other = 34"
  by (simp_all add: ex_old_def ex_new_def ex_other_def zip_name_def format_dateStr length_pad)

lemma ex_key: "key_of [] ''/d'' = [''d'']"
  by (simp add: key_of_def is_abs_def norm_def push_def)

lemma ex_path_join:
  assumes "plain_name f"
  shows "path_join [''/d'', f] = ''/d/'' @ f"
proof -
  have "split_on slash (''/d/'' @ f) = [[], ''d'', f]"
    using assms split_on_no_sep [of slash f] by (simp add: plain_name_def)
  moreover have "plain_name ''d''" by (simp add: plain_name_def)
  ultimately show ?thesis
    using assms
    by (simp add: path_join_def clean_def is_abs_def has_prefix_def norm_def render_def) (simp add: push_def plain_name_def)
qed

lemma ex_wf: "fs_wf ex_world"
  using ex_backups(6) ex_distinct ex_plain_names
  by (auto simp: fs_wf_def ex_world_def plain_key_def plain_name_def)

lemma ex_children: "set (children ex_world [''d'']) = {ex_old, ex_new, ex_other}"
  using ex_backups(6) ex_distinct
  by (auto simp: mem_children_iff ex_world_def node_at_world_of split: if_splits)

theorem ExpurgeDir_touches_only_own_backups_witness:
  "node_at (snd (ExpurgeDir ref_env ''/d'' 1 ''a'' ex_world)) [''d'', ex_other] = Some (plain_file ''o'')"
proof -
  have "no_links (backup_keys (key_of (wd ref_env) ''/d'') ''a'') ex_world"
    by (auto simp: no_links_def is_link_def ex_world_def node_at_world_of plain_file_def)
  moreover have "[''d'', ex_other] \<notin> backup_keys (key_of (wd ref_env) ''/d'') ''a''"
    using ex_backups(3) by (auto simp: backup_keys_def)
  ultimately have "node_at (snd (ExpurgeDir ref_env ''/d'' 1 ''a'' ex_world)) [''d'', ex_other] =
      node_at ex_world [''d'', ex_other]"
    using ex_backups(8) by (intro ExpurgeDir_touches_only_own_backups) simp_all
  also have "\<dots> = Some (plain_file ''o'')"
    using ex_distinct by (simp add: ex_world_def node_at_world_of)
  finally show ?thesis .
qed

text \<open>The deletions one after the other, when none fails.\<close>

definition delete_keys :: "key \<Rightarrow> string list \<Rightarrow> world \<Rightarrow> world" where
  "delete_keys d del w = foldl (\<lambda>w f. del_node (d @ [f]) (tock w)) w del"

lemma node_at_delete_keys:
  "node_at (delete_keys d del w) k = (if k \<in> (\<lambda>f. d @ [f]) ` set del then None else node_at w k)"
proof (induction del rule: rev_induct)
  case Nil
  then show ?case by (simp add: delete_keys_def)
next
  case (snoc f del)
  then show ?case by (auto simp: delete_keys_def node_at_del)
qed

lemma remove_old_run:
  assumes "no_faults E" and "distinct del"
    and "\<And>f. f \<in> set del \<Longrightarrow> plain_name f \<and> path_ok (path_join [p, f])"
    and "\<And>f. f \<in> set del \<Longrightarrow> \<exists>n. node_at w (key_of (wd E) p @ [f]) = Some n \<and> n \<noteq> Dir"
  shows "remove_old E p del w = (Ok (), delete_keys (key_of (wd E) p) del w)"
proof -
  have "for_each del (\<lambda>f. map_err x (os_remove E (path_join [p, f]))) w =
      (Ok (), delete_keys (key_of (wd E) p) del w)" for x
    using assms(2-4)
  proof (induction del arbitrary: w)
    case Nil
    then show ?case by (simp add: delete_keys_def ret_def)
  next
    case (Cons f del)
    let ?w = "del_node (key_of (wd E) p @ [f]) (tock w)"
    obtain n where "node_at w (key_of (wd E) p @ [f]) = Some n" "n \<noteq> Dir" using Cons.prems(3) by auto
    then have step: "os_remove E (path_join [p, f]) w = (Ok (), ?w)"
      using os_remove_run [OF assms(1), of "path_join [p, f]" w n] Cons.prems(2) [of f]
      by (simp add: key_of_join)
    have "for_each del (\<lambda>f. map_err x (os_remove E (path_join [p, f]))) ?w =
        (Ok (), delete_keys (key_of (wd E) p) del ?w)"
    proof (rule Cons.IH)
      fix g assume "g \<in> set del"
      moreover from this Cons.prems(1) have "g \<noteq> f" by auto
      ultimately show "\<exists>n. node_at ?w (key_of (wd E) p @ [g]) = Some n \<and> n \<noteq> Dir"
        using Cons.prems(3) [of g] by (simp add: node_at_del)
    qed (use Cons.prems in auto)
    moreover have "map_err x (os_remove E (path_join [p, f])) w = (Ok (), ?w)"
      using step by (rule map_err_OkI)
    ultimately show ?case by (simp add: bnd_OkI delete_keys_def del: map_err_Ok_iff)
  qed
  then show ?thesis by (auto simp: remove_old_def ret_def delete_keys_def)
qed

lemma fs_wf_del_node: "fs_wf w \<Longrightarrow> fs_wf (del_node k w)"
  unfolding fs_wf_def del_node_def
  by (auto simp: AList.delete_eq distinct_map_filter)

lemma fs_wf_delete_keys: "fs_wf w \<Longrightarrow> fs_wf (delete_keys d del w)"
  by (induction del rule: rev_induct) (simp_all add: delete_keys_def fs_wf_del_node)

lemma handles_delete_keys [simp]: "handles (delete_keys d del w) = handles w"
  by (induction del rule: rev_induct) (simp_all add: delete_keys_def)

text \<open>What the run of \<open>ExpurgeDir\<close> needs: a directory under a path without pattern
  characters, whose entries of the profile are files that can be named.\<close>

definition expurgeable :: "env \<Rightarrow> string \<Rightarrow> string \<Rightarrow> world \<Rightarrow> bool" where
  "expurgeable E path name w \<longleftrightarrow>
     path_ok path \<and> \<not> has_meta path \<and> fs_wf w \<and>
     node_at w (key_of (wd E) path) = Some Dir \<and>
     (\<forall>f \<in> set (backups_of name (children w (key_of (wd E) path))).
        path_ok (path_join [path, f]) \<and> node_at w (key_of (wd E) path @ [f]) \<noteq> Some Dir)"

lemma backup_has_zip_suffix: "is_backup_of name f \<Longrightarrow> has_suffix f ''.zip''"
proof -
  assume "is_backup_of name f"
  then obtain s where "f = name @ s" and "fits suffix_template s"
    by (auto simp: is_backup_of_split)
  then obtain a b c where "f = (name @ ''_'' @ a @ ''_'' @ b @ ''_'' @ c @ ''_backup'') @ ''.zip''"
    using backup_suffix_parts(1) by fastforce
  then show ?thesis by (simp only: has_suffix_append)
qed

lemma ExpurgeDir_run:
  assumes "dated_glob (glob_compile E)" and "glob_plain name" and "name \<noteq> []" and "0 < keepN"
    and "no_faults E" and "expurgeable E path name w"
  defines "d \<equiv> key_of (wd E) path"
  shows "ExpurgeDir E path keepN name w =
    (Ok (), delete_keys d (oldest_but (nat keepN) (backups_of name (children w d))) (tock (tock (tock w))))"
proof -
  let ?bs = "backups_of name (children w d)"
  let ?zips = "filter (\<lambda>n. has_suffix n ''.zip'') (children w d)"
  note e = assms(6) [unfolded expurgeable_def, folded d_def]
  have names: "map base (map (\<lambda>n. path_join [path, n]) ?zips) = ?zips"
    using e children_plain [of w _ d] by (auto simp: path_ok_def intro!: map_idI base_join)
  have "backups_of name ?zips = ?bs"
    by (auto simp: backups_of_def backup_has_zip_suffix intro: filter_cong)
  then have find: "findToDelete (glob_compile E) ?zips name keepN = Ok (oldest_but (nat keepN) ?bs)"
    using dated_glob.findToDelete_eq [OF assms(1-4), of ?zips] by simp
  have sub: "f \<in> set (children w d) \<and> is_backup_of name f"
    if "f \<in> set (oldest_but (nat keepN) ?bs)" for f
    using that set_oldest_subset by (force simp: backups_of_def)
  have remove: "remove_old E path (oldest_but (nat keepN) ?bs) (tock (tock (tock w))) =
      (Ok (), delete_keys d (oldest_but (nat keepN) ?bs) (tock (tock (tock w))))"
    unfolding d_def
  proof (rule remove_old_run [OF assms(5)])
    fix f assume "f \<in> set (oldest_but (nat keepN) (backups_of name (children w (key_of (wd E) path))))"
    then have f: "f \<in> set (children w d)" "is_backup_of name f" using sub by (simp_all add: d_def)
    then show "plain_name f \<and> path_ok (path_join [path, f])"
      using e by (auto simp: children_plain backups_of_def)
    show "\<exists>n. node_at (tock (tock (tock w))) (key_of (wd E) path @ [f]) = Some n \<and> n \<noteq> Dir"
      using f e by (auto simp: mem_children_iff backups_of_def d_def [symmetric])
  qed (use e in \<open>simp add: distinct_oldest backups_of_def distinct_children d_def [symmetric]\<close>)
  have "os_stat E path w = (Ok \<lparr>fi_name = base path, fi_kind = kind_of Dir\<rparr>, tock w)"
    using e assms(5) by (intro os_stat_run) (auto simp: d_def)
  moreover have "filepath_glob E (path @ ''/*.zip'') (tock w) =
      (Ok (map (\<lambda>n. path_join [path, n]) ?zips), tock (tock (tock w)))"
    using e assms(5) filepath_glob_zip_run [of E path "tock w"] by (simp add: d_def)
  ultimately show ?thesis
    using find remove names
    by (simp add: ExpurgeDir_def bnd_def map_err_def handle_def Let_def IsDir_def from_res_def
        del: map_map)
qed

text \<open>
  C5. When no system call fails, \<open>ExpurgeDir\<close> succeeds and leaves in the directory exactly
  the \<open>keepN\<close> newest backups of the profile (all of them when there are not more), and every
  other file of the system as it was.
\<close>

theorem ExpurgeDir_keeps_newest:
  assumes "dated_glob (glob_compile E)" and "glob_plain name" and "name \<noteq> []" and "0 < keepN"
    and "no_faults E" and "expurgeable E path name w"
  shows "\<exists>w' del. ExpurgeDir E path keepN name w = (Ok (), w') \<and>
    del = oldest_but (nat keepN) (backups_of name (children w (key_of (wd E) path))) \<and>
    (\<forall>k. node_at w' k = (if k \<in> (\<lambda>f. key_of (wd E) path @ [f]) ` set del then None else node_at w k)) \<and>
    length (backups_of name (children w' (key_of (wd E) path))) =
      min (nat keepN) (length (backups_of name (children w (key_of (wd E) path))))"
proof (intro exI conjI allI)
  let ?d = "key_of (wd E) path"
  let ?bs = "backups_of name (children w ?d)"
  let ?del = "oldest_but (nat keepN) ?bs"
  let ?w' = "delete_keys ?d ?del (tock (tock (tock w)))"
  show "ExpurgeDir E path keepN name w = (Ok (), ?w')" using assms by (rule ExpurgeDir_run)
  have wf: "fs_wf w" using assms(6) by (simp add: expurgeable_def)
  have at: "node_at ?w' k = (if k \<in> (\<lambda>f. ?d @ [f]) ` set ?del then None else node_at w k)" for k
    by (simp add: node_at_delete_keys)
  then show "node_at ?w' k = (if k \<in> (\<lambda>f. ?d @ [f]) ` set ?del then None else node_at w k)" for k .
  have wf': "fs_wf ?w'" using wf by (simp add: fs_wf_delete_keys)
  have "set (children ?w' ?d) = set (filter (\<lambda>f. f \<notin> set ?del) (children w ?d))"
    by (auto simp: mem_children_iff node_at_delete_keys split: if_splits)
  then have "children ?w' ?d = filter (\<lambda>f. f \<notin> set ?del) (children w ?d)"
    using wf wf' by (intro sorted_distinct_set_unique)
      (auto intro: distinct_children sorted_children sorted_wrt_filter distinct_filter)
  then have "backups_of name (children ?w' ?d) = filter (\<lambda>f. f \<notin> set ?del) ?bs"
    by (simp add: backups_of_def conj_commute)
  moreover have "distinct ?bs" using wf by (simp add: backups_of_def distinct_children)
  ultimately have "mset (backups_of name (children ?w' ?d)) = mset (newest (nat keepN) ?bs)"
    by (simp only: newest_filter)
  then show "length (backups_of name (children ?w' ?d)) = min (nat keepN) (length ?bs)"
    by (metis length_newest mset_eq_length)
qed simp

lemma ex_expurgeable: "expurgeable ref_env ''/d'' ''a'' ex_world"
proof -
  have "path_ok (path_join [''/d'', f]) \<and> node_at ex_world ([''d''] @ [f]) \<noteq> Some Dir"
    if "f \<in> {ex_old, ex_new}" for f
  proof -
    have "path_join [''/d'', f] = ''/d/'' @ f"
      using that ex_plain_names ex_path_join by auto
    then show ?thesis
      using that ex_lengths ex_backups(6) ex_distinct
      by (auto simp: path_ok_def path_max_def ex_world_def node_at_world_of plain_file_def)
  qed
  moreover have "set (backups_of ''a'' (children ex_world [''d''])) = {ex_old, ex_new}"
    using ex_children ex_backups(1-3) by (auto simp: backups_of_def)
  moreover have "node_at ex_world [''d''] = Some Dir" by (simp add: ex_world_def node_at_world_of)
  moreover have "path_ok ''/d''" "\<not> has_meta ''/d''"
    by (simp_all add: path_ok_def path_max_def has_meta_def)
  ultimately show ?thesis
    using ex_wf by (simp only: expurgeable_def ex_key ref_env_simps) blast
qed

theorem ExpurgeDir_keeps_newest_witness:
  "\<exists>w'. ExpurgeDir ref_env ''/d'' 1 ''a'' ex_world = (Ok (), w') \<and>
     length (backups_of ''a'' (children w' [''d''])) = 1 \<and>
     node_at w' [''d'', ex_other] = Some (plain_file ''o'')"
proof -
  have b: "set (backups_of ''a'' (children ex_world [''d''])) = {ex_old, ex_new}"
    using ex_children ex_backups by (auto simp: backups_of_def)
  then have "ex_other \<notin> set (oldest_but 1 (backups_of ''a'' (children ex_world [''d''])))"
    using set_oldest_subset ex_distinct by blast
  moreover have "card {ex_old, ex_new} \<le> length (backups_of ''a'' (children ex_world [''d'']))"
    using b by (metis card_length)
  moreover have "node_at ex_world [''d'', ex_other] = Some (plain_file ''o'')"
    using ex_distinct by (simp add: ex_world_def node_at_world_of)
  ultimately show ?thesis
    using ExpurgeDir_keeps_newest [of ref_env "''a''" 1 "''/d''" ex_world] ex_backups(6,8)
      ex_expurgeable
    by (auto simp: ex_key)
qed

end
