(* ===== verification/SftpSync.thy ===== *)
theory SftpSync
  imports Expurge Io
begin

text \<open>
  \<open>app/goback/sftpsync.go\<close>: which remote backups are missing locally, and downloading them.
  The sftp client is a service; \<open>SFTP ...\<close> operations of it stand for its methods.
\<close>

section \<open>The code\<close>

definition sftpc_Stat :: "env \<Rightarrow> string \<Rightarrow> (world, bool) go" where
  "sftpc_Stat E p = service_sum (\<lambda>t. sftp_stat E t p)"

definition sftpc_ReadDir :: "env \<Rightarrow> string \<Rightarrow> (world, (string \<times> bool) list) go" where
  "sftpc_ReadDir E p = service_sum (\<lambda>t. sftp_readdir E t p)"

text \<open>An open remote file is its content; reading it may stop early with an error.\<close>

definition sftpc_Open :: "env \<Rightarrow> string \<Rightarrow> (world, string) go" where
  "sftpc_Open E p = service_sum (\<lambda>t. sftp_open E t p)"

definition sftp_reader :: "env \<Rightarrow> string \<Rightarrow> string \<Rightarrow> io_reader" where
  "sftp_reader E p s =
     service (\<lambda>t. case sftp_read E t p of
         None \<Rightarrow> (Raw s, None)
       | Some e \<Rightarrow> (Raw (take (cut E t) s), Some e))"

definition sftp_file_Close :: "env \<Rightarrow> (world, unit) go" where
  "sftp_file_Close E = service_err (sftp_file_close E)"

definition findDifferentProfiles ::
  "(string \<Rightarrow> goerr + (string \<Rightarrow> bool)) \<Rightarrow> string list \<Rightarrow> string list \<Rightarrow> string \<Rightarrow> string list res" where
  "findDifferentProfiles gc remote local name =
     (case gc (backup_pattern name) of
        Inl e \<Rightarrow> Fail (errorf_v (''glop pattern for '' @ [CHR 0x27] @ name @ [CHR 0x27] @ '' does not compile: '') e)
      | Inr g \<Rightarrow>
          let remoteMatches = filter g remote in
          Ok (filter (\<lambda>f. \<not> list_ex (\<lambda>l. f = l) local) remoteMatches))"

definition sftpDownload :: "env \<Rightarrow> string \<Rightarrow> string \<Rightarrow> (world, unit) go" where
  "sftpDownload E remoteFile localDest =
     bnd (map_err (errorf_v ''unable to open remote file: '') (sftpc_Open E remoteFile)) (\<lambda>srcFile.
     defer_join (\<lambda>_. True)
       (bnd (map_err (errorf_v ''unable to open local file: '') (os_create E localDest)) (\<lambda>dstFile.
        defer_join (\<lambda>_. True)
          (map_err (errorf_v ''unable to download remote file: '')
             (io_copy (file_writer E dstFile) (sftp_reader E remoteFile srcFile)))
          (os_close E dstFile)))
       (sftp_file_Close E))"

definition syncRemoteBackups :: "env \<Rightarrow> string \<Rightarrow> string \<Rightarrow> string \<Rightarrow> (world, unit) go" where
  "syncRemoteBackups E remotePath profileName destPath =
     bnd (map_err (errorf_v (''error reading dir '' @ destPath @ '', '')) (os_read_dir E destPath))
       (\<lambda>locFileInfos.
     let localFile = map fst (filter (\<lambda>f. snd f \<noteq> KDir) locFileInfos) in
     bnd (map_err (errorf_v (''error checking dir '' @ remotePath @ '', '')) (sftpc_Stat E remotePath))
       (\<lambda>isDir.
     if \<not> isDir then throw (ErrNew ''the path is not a directory'')
     else
     bnd (map_err (errorf_v (''error reading dir '' @ remotePath @ '', '')) (sftpc_ReadDir E remotePath))
       (\<lambda>remFileInfos.
     let remoteFiles = map fst (filter (\<lambda>f. \<not> snd f) remFileInfos) in
     if profileName = [] then throw (ErrNew ''profile name cannot be empty'')
     else
     bnd (from_res (findDifferentProfiles (glob_compile E) remoteFiles localFile profileName))
       (\<lambda>diff.
     for_each diff (\<lambda>f.
       map_err (errorf_v (''unable to donwload file: '' @ f @ '', ''))
         (sftpDownload E (path_join [remotePath, f]) (path_join [destPath, f])))))))"


section \<open>Which files are downloaded\<close>

text \<open>The specification: the backups of the profile the remote has and the local does not.\<close>

definition missing_backups :: "string list \<Rightarrow> string list \<Rightarrow> string \<Rightarrow> string list" where
  "missing_backups remote local name = filter (\<lambda>f. f \<notin> set local) (backups_of name remote)"

context dated_glob
begin

lemma findDifferentProfiles_eq:
  assumes "glob_plain name"
  shows "findDifferentProfiles gc remote local name = Ok (missing_backups remote local name)"
proof -
  obtain m where "gc (backup_pattern name) = Inr m" and m: "m = is_backup_of name"
    using assms by (rule compiled)
  moreover have "list_ex (\<lambda>l. f = l) local \<longleftrightarrow> f \<in> set local" for f
    by (auto simp: list_ex_iff)
  ultimately show ?thesis
    by (simp add: findDifferentProfiles_def missing_backups_def backups_of_def)
qed

end

text \<open>
  C26. The files \<open>findDifferentProfiles\<close> asks for are exactly the backups of the profile among
  the remote files that no local file is named like, each as often and in the order in which
  the remote lists them.
\<close>

theorem findDifferentProfiles_missing:
  assumes "dated_glob gc" and "glob_plain name"
  shows "findDifferentProfiles gc remote local name = Ok (missing_backups remote local name) \<and>
    (\<forall>f. f \<in> set (missing_backups remote local name) \<longleftrightarrow>
       f \<in> set remote \<and> f \<notin> set local \<and> is_backup_of name f)"
  using dated_glob.findDifferentProfiles_eq [OF assms]
  by (auto simp: missing_backups_def backups_of_def)

theorem findDifferentProfiles_missing_witness:
  "findDifferentProfiles glob_ref [ex_old, ex_other, ex_new] [ex_old] ''a'' = Ok [ex_new]"
  using findDifferentProfiles_missing [OF gobwas.dated_glob_axioms ex_backups(8),
      of "[ex_old, ex_other, ex_new]" "[ex_old]"] ex_backups
  by (simp add: missing_backups_def backups_of_def)


section \<open>What a synchronisation may touch\<close>

lemma effects_sftp [calls]:
  "effects ticked (sftpc_Stat E p)" "effects ticked (sftpc_ReadDir E p)"
  "effects ticked (sftpc_Open E p)" "effects ticked (sftp_reader E p s)"
  "effects ticked (sftp_file_Close E)"
  unfolding sftpc_Stat_def sftpc_ReadDir_def sftpc_Open_def sftp_reader_def sftp_file_Close_def
  by (rule calls)+

lemmas frame_sftp = effects_sftp [THEN fr.from_ticked]

lemma effects_sftpDownload:
  assumes "key_of (wd E) localDest \<in> K"
  shows "effects (frame K) (sftpDownload E remoteFile localDest)"
  unfolding sftpDownload_def
proof (rule fr.keeps_bnd)
  show "effects (frame K) (map_err x (sftpc_Open E remoteFile))" for x
    by (intro fr.keeps_map_err frame_sftp)
  fix srcFile
  have "effects (frame K) (io_copy (file_writer E (key_of (wd E) localDest)) (sftp_reader E remoteFile srcFile))"
    using assms by (intro effects_io_copy effects_file_writer frame_sftp)
  then show "effects (frame K) (defer_join (\<lambda>_. True)
      (bnd (map_err x (os_create E localDest)) (\<lambda>dstFile.
        defer_join (\<lambda>_. True) (map_err y (io_copy (file_writer E dstFile) (sftp_reader E remoteFile srcFile)))
          (os_close E dstFile)))
      (sftp_file_Close E))" for x y
    by (intro fr.keeps_defer_join frame_bnd_create assms fr.keeps_map_err
        frame_calls frame_sftp)
qed

text \<open>The places where a backup that is not there yet would be put.\<close>

definition free_keys :: "key \<Rightarrow> string \<Rightarrow> world \<Rightarrow> key set" where
  "free_keys d name w =
     {k \<in> backup_keys d name. node_at w k = None \<or> node_at w k = Some Dir}"

lemma no_links_free_keys: "no_links (free_keys d name w) w"
  by (auto simp: no_links_def free_keys_def is_link_def)

lemma os_read_dir_Ok:
  assumes "os_read_dir E p w = (Ok es, w')" and "\<not> is_link w (key_of (wd E) p)"
  shows "es = dir_entries w (key_of (wd E) p)"
proof -
  have "\<not> is_link (tock w) (key_of (wd E) p)" using assms(2) by simp
  then show ?thesis
    using assms(1)
    by (auto simp: os_read_dir_def syscall_def Let_def with_target_def follow_no_link
        ret_def throw_def fail_missing_def dir_entries_def
        split: option.splits if_splits node.splits)
qed

lemma missing_backup_free:
  assumes "f \<in> set (missing_backups remote (map fst (filter (\<lambda>f. snd f \<noteq> KDir) (dir_entries w d))) name)"
  shows "d @ [f] \<in> free_keys d name w"
proof -
  have b: "is_backup_of name f"
    and nl: "f \<notin> fst ` set (filter (\<lambda>f. snd f \<noteq> KDir) (dir_entries w d))"
    using assms by (auto simp: missing_backups_def backups_of_def)
  have "node_at w (d @ [f]) = Some Dir" if "node_at w (d @ [f]) = Some x" for x
  proof -
    have "f \<in> set (children w d)" using that by (simp add: mem_children_iff)
    then have "(f, kind_of x) \<in> set (dir_entries w d)"
      using that by (force simp: dir_entries_def)
    with nl have "kind_of x = KDir" by force
    with that show ?thesis by (cases x) simp_all
  qed
  with b show ?thesis by (cases "node_at w (d @ [f])") (auto simp: free_keys_def backup_keys_def)
qed

lemma frame_syncRemoteBackups:
  assumes "dated_glob (glob_compile E)" and "glob_plain name" and "slash \<notin> set name"
    and "\<not> is_link w (key_of (wd E) destPath)"
  shows "frame (free_keys (key_of (wd E) destPath) name w) w
    (snd (syncRemoteBackups E remotePath name destPath w))"
proof -
  let ?d = "key_of (wd E) destPath"
  let ?K = "free_keys ?d name w"
  have download: "effects (frame ?K) (for_each (missing_backups remote
        (map fst (filter (\<lambda>f. snd f \<noteq> KDir) (dir_entries w ?d))) name)
      (\<lambda>f. map_err (x f) (sftpDownload E (path_join [remotePath, f]) (path_join [destPath, f]))))"
    for remote x
  proof (intro fr.keeps_for_each fr.keeps_map_err effects_sftpDownload)
    fix f
    assume f: "f \<in> set (missing_backups remote
        (map fst (filter (\<lambda>f. snd f \<noteq> KDir) (dir_entries w ?d))) name)"
    then have "plain_name f"
      using assms(3) by (auto simp: missing_backups_def backups_of_def intro: is_backup_of_plain_name)
    then show "key_of (wd E) (path_join [destPath, f]) \<in> ?K"
      using missing_backup_free [OF f] by (simp add: key_of_join)
  qed
  have listed: "es = dir_entries w ?d" if "map_err x (os_read_dir E destPath) w = (Ok es, t)" for x es t
    using that assms(4) by (simp add: os_read_dir_Ok)
  show ?thesis
    unfolding syncRemoteBackups_def Let_def dated_glob.findDifferentProfiles_eq [OF assms(1,2)]
      from_res_Ok bnd_ret
    apply (rule fr.rel_bnd)
     apply (rule effects_snd [OF fr.keeps_map_err [OF frame_calls(8)]])
    apply (drule listed, hypsubst)
    apply (rule effects_snd [where R = "frame ?K"])
    apply (intro fr.keeps_bnd fr.keeps_map_err frame_sftp fr.keeps_if fr.keeps_throw download)
    done
qed

text \<open>
  C12. Safety. Whatever system calls and sftp requests fail, and whatever the remote lists, a
  synchronisation changes no file of the local system but backups of the profile in the
  destination that did not exist before: a file already there is never overwritten or removed.
\<close>

theorem syncRemoteBackups_keeps_local:
  assumes "dated_glob (glob_compile E)" and "glob_plain name" and "slash \<notin> set name"
    and "\<not> is_link w (key_of (wd E) destPath)"
    and "k \<notin> backup_keys (key_of (wd E) destPath) name \<or> (\<exists>n. node_at w k = Some n \<and> n \<noteq> Dir)"
  shows "node_at (snd (syncRemoteBackups E remotePath name destPath w)) k = node_at w k"
proof -
  have "k \<notin> free_keys (key_of (wd E) destPath) name w"
    using assms(5) by (auto simp: free_keys_def)
  with frame_syncRemoteBackups [OF assms(1-4), of remotePath] show ?thesis
    by (simp add: frame_def no_links_free_keys same_outside_def)
qed

theorem syncRemoteBackups_keeps_local_witness:
  "node_at (snd (syncRemoteBackups ref_env ''/r'' ''a'' ''/d'' ex_world)) [''d'', ex_old] =
     Some (plain_file ''x'')"
proof -
  have at: "node_at ex_world [''d'', ex_old] = Some (plain_file ''x'')"
    using ex_distinct ex_backups(6) by (simp add: ex_world_def node_at_world_of)
  have "\<not> is_link ex_world (key_of (wd ref_env) ''/d'')"
    by (simp add: is_link_def ex_key) (simp add: ex_world_def node_at_world_of)
  then have "node_at (snd (syncRemoteBackups ref_env ''/r'' ''a'' ''/d'' ex_world)) [''d'', ex_old] =
      node_at ex_world [''d'', ex_old]"
    using at ex_backups(8) by (intro syncRemoteBackups_keeps_local) (auto simp: plain_file_def)
  with at show ?thesis by simp
qed


section \<open>What a synchronisation brings\<close>

text \<open>A remote directory that lists \<open>L\<close> and serves the content of each file without errors.\<close>

definition remote_dir ::
  "env \<Rightarrow> string \<Rightarrow> (string \<times> bool) list \<Rightarrow> (string \<Rightarrow> string) \<Rightarrow> bool" where
  "remote_dir E p L data \<longleftrightarrow>
     (\<forall>t. sftp_stat E t p = Inr True \<and> sftp_readdir E t p = Inr L \<and> sftp_file_close E t = None \<and>
       (\<forall>f. (f, False) \<in> set L \<longrightarrow>
          sftp_open E t (path_join [p, f]) = Inr (data f) \<and> sftp_read E t (path_join [p, f]) = None))"

lemma service_run: "service f w = (Ok (f (tick w)), tock w)"
  by (simp add: service_def)

lemma service_sum_run: "f (tick w) = Inr x \<Longrightarrow> service_sum f w = (Ok x, tock w)"
  by (simp add: service_sum_def bnd_def service_def from_sum_def ret_def)

lemma service_err_run: "f (tick w) = None \<Longrightarrow> service_err f w = (Ok (), tock w)"
  by (simp add: service_err_def bnd_def service_def check_err_def ret_def)

lemma sftpDownload_run:
  assumes "no_faults E" and "path_ok p" and "node_at w (key_of (wd E) p) = None"
    and "node_at w (butlast (key_of (wd E) p)) = Some Dir"
    and "\<And>t. sftp_open E t r = Inr s" and "\<And>t. sftp_read E t r = None" and "\<And>t. sftp_file_close E t = None"
  shows "\<exists>w'. sftpDownload E r p w = (Ok (), w') \<and> handles w' = handles w \<and>
    (plain_key (wd E) \<longrightarrow> fs_wf w \<longrightarrow> fs_wf w') \<and>
    (\<forall>k. node_at w' k = (if k = key_of (wd E) p then Some (File (Raw s) (new_meta E 438)) else node_at w k))"
proof -
  let ?k = "key_of (wd E) p"
  let ?w1 = "tock w"
  let ?w2 = "set_node ?k (File (Raw []) (new_meta E 438)) (tock ?w1)\<lparr>handles := handles w + 1\<rparr>"
  let ?w3 = "tock ?w2"
  let ?w4 = "if s = [] then ?w3 else set_content ?k (\<lambda>old. content_append old (Raw s)) (tock ?w3)"
  let ?w5 = "?w4\<lparr>tick := Suc (tick ?w4), handles := handles ?w4 - 1\<rparr>"
  have k: "?k \<noteq> []" using assms(3) by auto
  have "sftpc_Open E r w = (Ok s, ?w1)"
    unfolding sftpc_Open_def by (rule service_sum_run) (simp add: assms)
  moreover have "os_create E p ?w1 = (Ok ?k, ?w2)"
    using os_create_run [OF assms(1,2), of ?w1] assms(3,4) by simp
  moreover have "io_copy (file_writer E ?k) (sftp_reader E r s) ?w2 = (Ok (), ?w4)"
    using assms(6)
    by (simp add: io_copy_def sftp_reader_def service_run bnd_def file_writer_run [OF assms(1)]
        check_err_def ret_def)
  moreover have "os_close E ?k ?w4 = (Ok (), ?w5)" by (rule os_close_run [OF assms(1)])
  moreover have "sftp_file_Close E ?w5 = (Ok (), tock ?w5)"
    unfolding sftp_file_Close_def by (rule service_err_run) (simp add: assms)
  ultimately have "sftpDownload E r p w = (Ok (), tock ?w5)"
    unfolding sftpDownload_def by (simp only: go_steps defer_OkI)
  moreover have "node_at (tock ?w5) k = (if k = ?k then Some (File (Raw s) (new_meta E 438)) else node_at w k)" for k
    using k by (simp add: node_at_set_content node_at_set)
  moreover have "plain_key (wd E) \<longrightarrow> fs_wf w \<longrightarrow> fs_wf (tock ?w5)"
    by (auto intro!: fs_wf_set_content fs_wf_set_node plain_key_key_of)
  moreover have "handles (tock ?w5) = handles w" by simp
  ultimately show ?thesis by blast
qed

lemma download_all_run:
  assumes "no_faults E" and "remote_dir E rp L data" and "distinct del"
    and "\<And>f. f \<in> set del \<Longrightarrow> (f, False) \<in> set L \<and> plain_name f \<and> path_ok (path_join [p, f]) \<and>
           node_at w (key_of (wd E) p @ [f]) = None"
    and "node_at w (key_of (wd E) p) = Some Dir"
  shows "\<exists>w'. for_each del (\<lambda>f. map_err (x f) (sftpDownload E (path_join [rp, f]) (path_join [p, f]))) w =
      (Ok (), w') \<and> handles w' = handles w \<and>
    (plain_key (wd E) \<longrightarrow> fs_wf w \<longrightarrow> fs_wf w') \<and>
    (\<forall>k. node_at w' k = (if k \<in> (\<lambda>f. key_of (wd E) p @ [f]) ` set del
       then Some (File (Raw (data (last k))) (new_meta E 438)) else node_at w k))"
  using assms(3-5)
proof (induction del arbitrary: w)
  case Nil
  then show ?case by (auto simp: ret_def)
next
  case (Cons f del)
  let ?d = "key_of (wd E) p"
  have f: "(f, False) \<in> set L" "plain_name f" "path_ok (path_join [p, f])" "node_at w (?d @ [f]) = None"
    using Cons.prems(2) by auto
  then have key: "key_of (wd E) (path_join [p, f]) = ?d @ [f]" by (simp add: key_of_join)
  obtain w1 where w1: "sftpDownload E (path_join [rp, f]) (path_join [p, f]) w = (Ok (), w1)"
      "handles w1 = handles w" "plain_key (wd E) \<longrightarrow> fs_wf w \<longrightarrow> fs_wf w1"
      "\<And>k. node_at w1 k = (if k = ?d @ [f] then Some (File (Raw (data f)) (new_meta E 438)) else node_at w k)"
    using sftpDownload_run [OF assms(1) f(3), of w "path_join [rp, f]" "data f"] f(1,4) key Cons.prems(3) assms(2)
    by (auto simp: remote_dir_def)
  have "distinct del" using Cons.prems(1) by simp
  moreover have "(g, False) \<in> set L \<and> plain_name g \<and> path_ok (path_join [p, g]) \<and> node_at w1 (?d @ [g]) = None"
    if "g \<in> set del" for g
    using that Cons.prems(1,2) by (auto simp: w1(4))
  moreover have "node_at w1 ?d = Some Dir" using Cons.prems(3) by (simp add: w1(4))
  ultimately obtain w2 where w2: "for_each del (\<lambda>f. map_err (x f) (sftpDownload E (path_join [rp, f]) (path_join [p, f]))) w1 = (Ok (), w2)"
      "handles w2 = handles w1" "plain_key (wd E) \<longrightarrow> fs_wf w1 \<longrightarrow> fs_wf w2"
      "\<And>k. node_at w2 k = (if k \<in> (\<lambda>f. ?d @ [f]) ` set del
         then Some (File (Raw (data (last k))) (new_meta E 438)) else node_at w1 k)"
    using Cons.IH by blast
  have "for_each (f # del) (\<lambda>f. map_err (x f) (sftpDownload E (path_join [rp, f]) (path_join [p, f]))) w = (Ok (), w2)"
    using w1(1) w2(1) by (simp add: bnd_OkI)
  moreover have "node_at w2 k = (if k \<in> (\<lambda>f. ?d @ [f]) ` set (f # del)
      then Some (File (Raw (data (last k))) (new_meta E 438)) else node_at w k)" for k
    by (auto simp: w2(4) w1(4))
  ultimately show ?case using w1(2,3) w2(2,3) by auto
qed

lemma os_read_dir_run:
  assumes "no_faults E" and "path_ok p" and "node_at w (key_of (wd E) p) = Some Dir"
  shows "os_read_dir E p w = (Ok (dir_entries w (key_of (wd E) p)), tock w)"
proof -
  have n: "node_at (tock w) (key_of (wd E) p) = Some Dir" using assms(3) by simp
  moreover from this have "follow link_limit (tock w) (key_of (wd E) p) = Inr (key_of (wd E) p)"
    by (rule follow_node) simp
  ultimately show ?thesis
    using assms(1,2)
    by (simp add: os_read_dir_def syscall_run with_target_def ret_def dir_entries_def)
qed

text \<open>The backups of a profile that the remote directory holds and the local one does not.\<close>

definition to_fetch :: "world \<Rightarrow> key \<Rightarrow> (string \<times> bool) list \<Rightarrow> string \<Rightarrow> string set" where
  "to_fetch w d L name = {f. (f, False) \<in> set L \<and> is_backup_of name f \<and> node_at w (d @ [f]) = None}"

text \<open>A destination a synchronisation can write to: no directory is named as a backup.\<close>

definition sync_target :: "env \<Rightarrow> string \<Rightarrow> string \<Rightarrow> (string \<times> bool) list \<Rightarrow> world \<Rightarrow> bool" where
  "sync_target E p name L w \<longleftrightarrow>
     path_ok p \<and> node_at w (key_of (wd E) p) = Some Dir \<and> distinct (map fst L) \<and>
     (\<forall>f \<in> fst ` set L. is_backup_of name f \<longrightarrow>
        path_ok (path_join [p, f]) \<and> node_at w (key_of (wd E) p @ [f]) \<noteq> Some Dir)"

lemma syncRemoteBackups_run:
  assumes "dated_glob (glob_compile E)" and "glob_plain name" and "slash \<notin> set name" and "name \<noteq> []"
    and "no_faults E" and "remote_dir E rp L data" and "sync_target E p name L w"
  shows "\<exists>w'. syncRemoteBackups E rp name p w = (Ok (), w') \<and> handles w' = handles w \<and>
    (plain_key (wd E) \<longrightarrow> fs_wf w \<longrightarrow> fs_wf w') \<and>
    (\<forall>k. node_at w' k =
       (if k \<in> (\<lambda>f. key_of (wd E) p @ [f]) ` to_fetch w (key_of (wd E) p) L name
        then Some (File (Raw (data (last k))) (new_meta E 438)) else node_at w k))"
proof -
  let ?d = "key_of (wd E) p"
  let ?local = "map fst (filter (\<lambda>f. snd f \<noteq> KDir) (dir_entries w ?d))"
  let ?remote = "map fst (filter (\<lambda>f. \<not> snd f) L)"
  let ?diff = "missing_backups ?remote ?local name"
  let ?w3 = "tock (tock (tock w))"
  note t = assms(7) [unfolded sync_target_def]
  have free: "node_at w (?d @ [f]) = None" if "f \<in> set ?diff" for f
  proof -
    have "f \<in> fst ` set L" and "is_backup_of name f"
      using that by (auto simp: missing_backups_def backups_of_def)
    with t have "node_at w (?d @ [f]) \<noteq> Some Dir" by blast
    with missing_backup_free [OF that] show ?thesis by (auto simp: free_keys_def)
  qed
  have "set ?diff \<subseteq> to_fetch w ?d L name"
    using free by (auto simp: to_fetch_def missing_backups_def backups_of_def)
  moreover have "to_fetch w ?d L name \<subseteq> set ?diff"
    by (force simp: to_fetch_def missing_backups_def backups_of_def dir_entries_def mem_children_iff)
  ultimately have diff: "set ?diff = to_fetch w ?d L name" by (rule subset_antisym)
  have "distinct ?remote" using t by (simp add: distinct_map_filter)
  then have "distinct ?diff" by (simp add: missing_backups_def backups_of_def)
  moreover have "(f, False) \<in> set L \<and> plain_name f \<and> path_ok (path_join [p, f]) \<and> node_at ?w3 (?d @ [f]) = None"
    if "f \<in> set ?diff" for f
    using that free [OF that] t assms(3)
    by (auto simp: missing_backups_def backups_of_def intro: is_backup_of_plain_name)
  moreover have "node_at ?w3 ?d = Some Dir" using t by simp
  ultimately obtain w' where w': "for_each ?diff (\<lambda>f.
       map_err (errorf_v (''unable to donwload file: '' @ f @ '', ''))
         (sftpDownload E (path_join [rp, f]) (path_join [p, f]))) ?w3 = (Ok (), w')"
      "handles w' = handles w" "plain_key (wd E) \<longrightarrow> fs_wf w \<longrightarrow> fs_wf w'"
      "\<And>k. node_at w' k = (if k \<in> (\<lambda>f. ?d @ [f]) ` set ?diff
       then Some (File (Raw (data (last k))) (new_meta E 438)) else node_at w k)"
    using download_all_run [OF assms(5,6), where del = ?diff and p = p and w = ?w3
        and x = "\<lambda>f. errorf_v (''unable to donwload file: '' @ f @ '', '')"] by auto
  have "os_read_dir E p w = (Ok (dir_entries w ?d), tock w)"
    using t by (intro os_read_dir_run [OF assms(5)]) auto
  moreover have "sftpc_Stat E rp (tock w) = (Ok True, tock (tock w))"
    unfolding sftpc_Stat_def by (rule service_sum_run) (use assms(6) in \<open>simp add: remote_dir_def\<close>)
  moreover have "sftpc_ReadDir E rp (tock (tock w)) = (Ok L, ?w3)"
    unfolding sftpc_ReadDir_def by (rule service_sum_run) (use assms(6) in \<open>simp add: remote_dir_def\<close>)
  ultimately have "syncRemoteBackups E rp name p w = (Ok (), w')"
    using w'(1) assms(4)
    by (simp add: syncRemoteBackups_def Let_def bnd_OkI [OF map_err_OkI]
        dated_glob.findDifferentProfiles_eq [OF assms(1,2)] from_res_Ok del: map_err_Ok_iff)
  with w' show ?thesis by (auto simp: diff)
qed

text \<open>
  C11. When no call fails, a synchronisation succeeds, leaves no file open, and afterwards the
  destination holds every remote backup of the profile: those that were missing with the
  content the remote has, and every other file as it was.
\<close>

theorem syncRemoteBackups_fetches_missing:
  assumes "dated_glob (glob_compile E)" and "glob_plain name" and "slash \<notin> set name" and "name \<noteq> []"
    and "no_faults E" and "remote_dir E rp L data" and "sync_target E p name L w"
  shows "\<exists>w'. syncRemoteBackups E rp name p w = (Ok (), w') \<and> handles w' = handles w \<and>
    (\<forall>k. node_at w' k =
       (if k \<in> (\<lambda>f. key_of (wd E) p @ [f]) ` to_fetch w (key_of (wd E) p) L name
        then Some (File (Raw (data (last k))) (new_meta E 438)) else node_at w k))"
  using syncRemoteBackups_run [OF assms] by blast

definition sync_env :: env where
  "sync_env = ref_env\<lparr>sftp_readdir := (\<lambda>t p. Inr [(ex_new, False), (ex_other, False), (ex_old, False)])\<rparr>"

definition sync_world :: world where
  "sync_world = world_of [([''d''], Dir), ([''d'', ex_old], plain_file ''x'')]"

lemma sync_env_simps [simp]:
  "glob_compile sync_env = glob_ref" "wd sync_env = []" "no_faults sync_env"
  "new_meta sync_env = new_meta ref_env"
  by (simp_all add: sync_env_def no_faults_def new_meta_def fun_eq_iff)

lemma sync_env_remote:
  "remote_dir sync_env ''/r'' [(ex_new, False), (ex_other, False), (ex_old, False)] (\<lambda>f. ''data'')"
  by (simp add: remote_dir_def sync_env_def ref_env_def)

lemma sync_world_target:
  "sync_target sync_env ''/d'' ''a'' [(ex_new, False), (ex_other, False), (ex_old, False)] sync_world"
proof -
  have "path_ok (path_join [''/d'', f])" if "f \<in> {ex_new, ex_other, ex_old}" for f
  proof -
    have "path_join [''/d'', f] = ''/d/'' @ f" using that ex_plain_names ex_path_join by auto
    then show ?thesis using that ex_lengths by (auto simp: path_ok_def path_max_def)
  qed
  then show ?thesis
    using ex_backups(6) ex_distinct
    by (auto simp: sync_target_def sync_world_def ex_key node_at_world_of path_ok_def path_max_def
        plain_file_def)
qed

theorem syncRemoteBackups_fetches_missing_witness:
  "\<exists>w'. syncRemoteBackups sync_env ''/r'' ''a'' ''/d'' sync_world = (Ok (), w') \<and>
     node_at w' [''d'', ex_new] = Some (plain_file ''data'') \<and>
     node_at w' [''d'', ex_old] = Some (plain_file ''x'') \<and>
     node_at w' [''d'', ex_other] = None"
proof -
  have "to_fetch sync_world [''d''] [(ex_new, False), (ex_other, False), (ex_old, False)] ''a'' = {ex_new}"
    using ex_backups ex_distinct
    by (auto simp: to_fetch_def sync_world_def node_at_world_of)
  then show ?thesis
    using syncRemoteBackups_fetches_missing [of sync_env "''a''" "''/r''", OF _ ex_backups(8) _ _ _
        sync_env_remote sync_world_target] ex_backups(6) ex_distinct
    by (auto simp: ex_key sync_world_def node_at_world_of plain_file_def)
qed

end
