(* ===== verification/Files.thy ===== *)
theory Files
  imports Zip SshClient SftpSync
begin

text \<open>
  \<open>app/goback/files.go\<close>: copying a local or a remote directory into a zip file. The
  interface \<open>fileAdder\<close> is a record of its two methods; what the code relies on when it uses
  one is the locale \<open>file_adder\<close>.
\<close>

section \<open>The code\<close>

record fileAdder =
  fa_AddFile :: "string \<Rightarrow> string \<Rightarrow> (world, unit) go"
  fa_AddSymlink :: "string \<Rightarrow> string \<Rightarrow> (world, unit) go"

definition zip_adder :: "env \<Rightarrow> Handler \<Rightarrow> fileAdder" where
  "zip_adder E z = \<lparr>fa_AddFile = AddFile E z, fa_AddSymlink = AddSymlink E z\<rparr>"

text \<open>The function called for every file and directory.\<close>

definition copy_local_fn :: "env \<Rightarrow> BackupPath \<Rightarrow> string \<Rightarrow> fileAdder \<Rightarrow> unit walk_fn" where
  "copy_local_fn E dir rootDir fa u path info err =
     (case err of
        Some e \<Rightarrow> throw (errorf_v ''error waling directory: '' e)
      | None \<Rightarrow>
          (case info of
             None \<Rightarrow> gopanic
           | Some i \<Rightarrow>
               if IsDir i then ret ()
               else if list_ex (\<lambda>g. g path) (bp_Exclude dir) then ret ()
               else
                 let absPath = abs_path (wd E) path in
                 bnd (from_sum (rel_path rootDir path)) (\<lambda>relPath.
                 let relPath = path_join [base (bp_Path dir), relPath] in
                 if IsSymlink i then fa_AddSymlink fa absPath relPath
                 else fa_AddFile fa absPath relPath)))"

definition find_root :: "env \<Rightarrow> BackupPath \<Rightarrow> (world, string \<times> finfo) go" where
  "find_root E dir =
     bnd (os_lstat E (bp_Path dir)) (\<lambda>finfo.
     if IsSymlink finfo then
       bnd (map_err (errorf_v ''unable to evaluate symlink: '') (eval_symlinks E (bp_Path dir))) (\<lambda>d.
       bnd (os_lstat E d) (\<lambda>finfo.
       ret (d, finfo)))
     else ret (bp_Path dir, finfo))"

definition copy_local :: "nat \<Rightarrow> env \<Rightarrow> BackupPath \<Rightarrow> fileAdder \<Rightarrow> (world, unit) go" where
  "copy_local n E dir fa =
     bnd (find_root E dir) (\<lambda>(rootDir, finfo).
     if \<not> IsDir finfo then throw (ErrNew ''the path is not a directory'')
     else walk_root n E (copy_local_fn E dir rootDir fa) () rootDir)"

definition copyLocalFiles :: "env \<Rightarrow> BackupPath \<Rightarrow> fileAdder \<Rightarrow> (world, unit) go" where
  "copyLocalFiles E dir fa = copy_local (Suc path_max) E dir fa"

text \<open>The sftp client; the walk of a remote directory is the sequence of its steps.\<close>

definition sftp_NewClient :: "env \<Rightarrow> Client \<Rightarrow> (world, unit) go" where
  "sftp_NewClient E c =
     (if \<not> conn c then gopanic else bnd (service_err (sftp_client E)) (\<lambda>_. add_sessions 1))"

definition sftpc_Close :: "env \<Rightarrow> (world, unit) go" where
  "sftpc_Close E = bnd (add_sessions (-1)) (\<lambda>_. service_err (sftp_close E))"

definition remote_abs :: "env \<Rightarrow> string \<Rightarrow> (world, string) go" where
  "remote_abs E p =
     (if \<not> is_abs p then
        bnd (map_err (errorf_v ''unable to get working dir '') (service_sum (sftp_getwd E))) (\<lambda>d.
        ret (path_join [d, p]))
      else ret p)"

definition copy_remote_step ::
  "env \<Rightarrow> BackupPath \<Rightarrow> Handler \<Rightarrow> string \<Rightarrow> string \<Rightarrow> goerr + bool \<Rightarrow> (world, unit) go" where
  "copy_remote_step E dir zh rootDir path info =
     (case info of
        Inl e \<Rightarrow> throw (ErrNew ''error walking directory'')
      | Inr is_dir \<Rightarrow>
          if is_dir then ret ()
          else if list_ex (\<lambda>g. g path) (bp_Exclude dir) then ret ()
          else
            bnd (remote_abs E path) (\<lambda>absPath.
            bnd (from_sum (rel_path rootDir absPath)) (\<lambda>relPath.
            let relPath = path_join [base rootDir, relPath] in
            bnd (map_err (errorf_v (''unable to open remote file '' @ path @ '' cause: '')) (sftpc_Open E path)) (\<lambda>f.
            WriteFile E zh (sftp_reader E path f) relPath))))"

definition copyRemoteFiles :: "env \<Rightarrow> Client \<Rightarrow> BackupPath \<Rightarrow> Handler \<Rightarrow> (world, unit) go" where
  "copyRemoteFiles E c dir zh =
     bnd (map_err (errorf_v ''unable to create sftp client '') (sftp_NewClient E c)) (\<lambda>_.
     defer_errors_join
       (bnd (remote_abs E (bp_Path dir)) (\<lambda>rootDir.
        bnd (map_err (errorf_v (''error checking dir '' @ rootDir @ '', '')) (sftpc_Stat E rootDir)) (\<lambda>is_dir.
        if \<not> is_dir then throw (ErrNew ''the path is not a directory'')
        else
        bnd (service (\<lambda>t. sftp_walk E t rootDir)) (\<lambda>steps.
        for_each steps (\<lambda>(path, info). copy_remote_step E dir zh rootDir path info)))))
       (sftpc_Close E))"


section \<open>The interface\<close>

text \<open>An adder whose methods keep a relation that reading keeps: so does copying with it.\<close>

locale file_adder = fs_rel R for R :: "world \<Rightarrow> world \<Rightarrow> bool" +
  fixes fa :: fileAdder
  assumes AddFile_keeps: "effects R (fa_AddFile fa p d)"
    and AddSymlink_keeps: "effects R (fa_AddSymlink fa p d)"
begin

lemma copy_local_fn_keeps: "effects R (copy_local_fn E dir root fa u p i e)"
  unfolding copy_local_fn_def Let_def
  by (intro keeps_case_option keeps_throw keeps_gopanic keeps_if keeps_ret keeps_bnd
      AddFile_keeps AddSymlink_keeps from_ticked effects_from_sum)

lemma find_root_keeps: "effects R (find_root E dir)"
  unfolding find_root_def
  by (intro keeps_bnd keeps_if keeps_ret keeps_map_err from_ticked [OF effects_os_lstat]
      from_ticked [OF effects_eval_symlinks])

lemma copy_local_keeps: "effects R (copy_local n E dir fa)"
  unfolding copy_local_def
  by (intro keeps_bnd find_root_keeps keeps_case_prod keeps_if keeps_throw walk_root_keeps
      copy_local_fn_keeps)

lemma copyLocalFiles_keeps: "effects R (copyLocalFiles E dir fa)"
  unfolding copyLocalFiles_def by (rule copy_local_keeps)

end

context zip_file
begin

text \<open>The zip file is an adder: it keeps whatever adding entries and data keeps.\<close>

lemma zip_adder_keeps: "zfile z = k \<Longrightarrow> file_adder R (zip_adder E z)"
  by unfold_locales (simp_all add: zip_adder_def AddFile_keeps AddSymlink_keeps)

lemmas copyLocalFiles_keeps = file_adder.copyLocalFiles_keeps [OF zip_adder_keeps]

end

interpretation zip_files: file_adder "frame (insert (zfile z) K)" "zip_adder E z" for E z K
  by (rule zf.zip_adder_keeps [OF refl])

text \<open>Adding a file creates and removes none.\<close>

interpretation zk: zip_file same_keys k for k
  by standard (rule same_keys_set_content)+

interpretation zip_keys: file_adder same_keys "zip_adder E z" for E z
  by (rule zk.zip_adder_keeps [OF refl])




section \<open>What is archived when nothing fails\<close>

text \<open>The name of a file in the archive, and its entry.\<close>

definition archived_name :: "BackupPath \<Rightarrow> string list \<Rightarrow> string" where
  "archived_name dir ns = path_join [base (bp_Path dir), str_join [slash] ns]"

fun entry_of :: "BackupPath \<Rightarrow> string list \<times> node \<Rightarrow> zentry" where
  "entry_of dir (ns, File c m) = ZEntry (archived_name dir ns) False c"
| "entry_of dir (ns, Link t) = ZEntry (archived_name dir ns) True (Raw t)"
| "entry_of dir (ns, Dir) = ZEntry (archived_name dir ns) False (Raw [])"

definition excluded :: "BackupPath \<Rightarrow> string list \<Rightarrow> bool" where
  "excluded dir ns \<longleftrightarrow> list_ex (\<lambda>g. g (path_below (bp_Path dir) ns)) (bp_Exclude dir)"

definition dir_archive :: "env \<Rightarrow> BackupPath \<Rightarrow> world \<Rightarrow> zentry list" where
  "dir_archive E dir w =
     map (entry_of dir) (filter (\<lambda>f. \<not> excluded dir (fst f)) (files_below w (key_of (wd E) (bp_Path dir))))"

text \<open>
  A directory that can be backed up into the zip file \<open>zk\<close>: it is a directory (not a link to
  one) that the zip file is not in, its paths and names are not too long, and no link in it
  is dangling or leads to the zip file.
\<close>

definition can_archive :: "env \<Rightarrow> BackupPath \<Rightarrow> key \<Rightarrow> world \<Rightarrow> bool" where
  "can_archive E dir zk w \<longleftrightarrow>
     (let k = key_of (wd E) (bp_Path dir) in
      node_at w k = Some Dir \<and> paths_ok w k (bp_Path dir) \<and> (\<forall>ns. zk \<noteq> k @ ns) \<and>
      (\<forall>ns x. list_all plain_name ns \<and> node_at w (k @ ns) = Some x \<and> x \<noteq> Dir \<longrightarrow>
         path_ok (abs_path (wd E) (path_below (bp_Path dir) ns)) \<and> entry_name_ok (archived_name dir ns) \<and>
         (case x of
            Link t \<Rightarrow> (\<exists>k' n. follow link_limit w (k @ ns) = Inr k' \<and> node_at w k' = Some n)
          | _ \<Rightarrow> True)))"

lemma follow_cong_except:
  assumes "follow l w k = Inr k'" and "\<And>k. k \<noteq> zk \<Longrightarrow> node_at v k = node_at w k"
    and "\<not> is_link w zk" and "\<not> is_link v zk"
  shows "follow l v k = Inr k'"
  using assms(1)
proof (induction l arbitrary: k)
  case 0
  show ?case
  proof (cases "k = zk")
    case True
    then show ?thesis using 0 assms(3,4) follow_no_link by auto
  next
    case False
    then show ?thesis using 0 assms(2) [OF False] by (subst (asm) follow.simps) (subst follow.simps, auto split: option.splits node.splits)
  qed
next
  case (Suc l)
  show ?case
  proof (cases "k = zk")
    case True
    then show ?thesis using Suc.prems assms(3,4) follow_no_link by auto
  next
    case False
    show ?thesis
      using Suc.prems assms(2) [OF False] Suc.IH
      by (subst (asm) follow.simps) (subst follow.simps, auto split: option.splits node.splits)
  qed
qed

lemma writing_no_link: "writing z es w \<Longrightarrow> \<not> is_link w (zfile z)"
  by (auto simp: writing_def is_link_def)

text \<open>One file or link.\<close>

lemma copy_local_fn_run:
  fixes v w :: world
  assumes "no_faults E" and "plain_key (wd E)" and "can_archive E dir (zfile z) w" and "writing z es0 w"
    and "wrote z es w v" and "list_all plain_name ns"
    and x: "node_at w (key_of (wd E) (bp_Path dir) @ ns) = Some x" "x \<noteq> Dir"
  shows "\<exists>v'. copy_local_fn E dir (bp_Path dir) (zip_adder E z) u (path_below (bp_Path dir) ns)
      (Some \<lparr>fi_name = base (path_below (bp_Path dir) ns), fi_kind = kind_of x\<rparr>) None v = (Ok (), v') \<and>
    wrote z (es @ map (entry_of dir) (filter (\<lambda>f. \<not> excluded dir (fst f)) [(ns, x)])) w v'"
proof -
  let ?k = "key_of (wd E) (bp_Path dir)" and ?p = "path_below (bp_Path dir) ns"
  let ?a = "abs_path (wd E) ?p" and ?n = "archived_name dir ns"
  note c = assms(3) [unfolded can_archive_def Let_def]
  have ok: "path_ok ?a" "entry_name_ok ?n" using c assms(6) x by blast+
  have key: "key_of (wd E) ?a = ?k @ ns"
    using assms(2,6) by (simp add: key_of_abs_path key_of_below)
  have ne: "?k @ ns \<noteq> zfile z" using c by metis
  have "ns \<noteq> []"
  proof
    assume "ns = []"
    with c x show False by simp
  qed
  then have rel: "rel_path (bp_Path dir) ?p = Inr (str_join [slash] ns)"
    using assms(6) by (intro rel_path_below)
  have wv: "writing z es v" using assms(5) by (simp add: wrote_def)
  have same: "node_at v q = node_at w q" if "q \<noteq> zfile z" for q
    using assms(5) that by (simp add: wrote_def)
  have at: "node_at v (?k @ ns) = Some x" using same [OF ne] x(1) by simp
  have nd: "\<not> IsDir \<lparr>fi_name = base ?p, fi_kind = kind_of x\<rparr>" using x(2) by (cases x) (simp_all add: IsDir_def)
  show ?thesis
  proof (cases "excluded dir ns")
    case True
    then show ?thesis
      using nd assms(5) by (auto simp: copy_local_fn_def excluded_def ret_def)
  next
    case False
    then have step: "copy_local_fn E dir (bp_Path dir) (zip_adder E z) u ?p
        (Some \<lparr>fi_name = base ?p, fi_kind = kind_of x\<rparr>) None v =
        (if kind_of x = KLink then AddSymlink E z ?a ?n v else AddFile E z ?a ?n v)"
      using nd rel
      by (simp add: copy_local_fn_def excluded_def Let_def from_sum_def archived_name_def zip_adder_def IsSymlink_def)
    show ?thesis
    proof (cases x)
      case (File d m)
      obtain v' where "AddFile E z ?a ?n v = (Ok (), v')" "wrote z (es @ [ZEntry ?n False d]) v v'"
        using AddFile_run [OF assms(1) wv ok(2,1), of d m] at key ne File by auto
      then show ?thesis using step File False wrote_trans [OF assms(5)] by auto
    next
      case (Link t)
      then obtain k' n where f: "follow link_limit w (?k @ ns) = Inr k'" "node_at w k' = Some n"
        using c assms(6) x by fastforce
      have "follow link_limit v (?k @ ns) = Inr k'"
        using follow_cong_except [OF f(1) same] writing_no_link wv assms(4) by blast
      moreover have "\<exists>n'. node_at v k' = Some n'"
        using f(2) same [of k'] wv by (cases "k' = zfile z") (auto simp: writing_def)
      ultimately obtain v' where "AddSymlink E z ?a ?n v = (Ok (), v')"
          "wrote z (es @ [ZEntry ?n True (Raw t)]) v v'"
        using AddSymlink_run [OF assms(1) wv ok(2,1), of t k'] at key Link by auto
      then show ?thesis using step Link False wrote_trans [OF assms(5)] by auto
    qed (use x(2) in simp)
  qed
qed

lemma copyLocalFiles_run:
  assumes "no_faults E" and "plain_key (wd E)" and "fs_wf w" and "can_archive E dir (zfile z) w"
    and "writing z es w"
  shows "\<exists>w'. copyLocalFiles E dir (zip_adder E z) w = (Ok (), w') \<and>
    wrote z (es @ dir_archive E dir w) w w'"
proof -
  let ?k = "key_of (wd E) (bp_Path dir)" and ?r = "bp_Path dir"
  let ?fn = "copy_local_fn E dir ?r (zip_adder E z)"
  let ?i = "\<lparr>fi_name = base ?r, fi_kind = KDir\<rparr>"
  let ?S = "\<lambda>v. \<exists>es'. wrote z es' w v"
  let ?P = "\<lambda>seen a v. wrote z (es @ map (entry_of dir) (filter (\<lambda>f. \<not> excluded dir (fst f)) seen)) w v"
  note c = assms(4) [unfolded can_archive_def Let_def]
  have po: "path_ok ?r" and d: "node_at w ?k = Some Dir" using c by (simp_all add: paths_ok_def)
  have l: "os_lstat E ?r v = (Ok ?i, tock v)" if "node_at v ?k = Some Dir" for v
    using os_lstat_run [OF assms(1) po, of v Dir] that by simp
  have ne: "?k @ ns \<noteq> zfile z" for ns using c by metis
  have "\<exists>a' v'. walk (Suc path_max) E ?fn () (path_below ?r [])
      \<lparr>fi_name = base (path_below ?r []), fi_kind = kind_of Dir\<rparr> (tock (tock w)) = (Ok a', v') \<and>
      ?S v' \<and> ?P ([] @ visit (Suc path_max) w ?k []) a' v'"
  proof (rule walk_run [where S = ?S and P = ?P, OF refl assms(1,3)])
    show "paths_ok w ?k ?r" using c by simp
    show "node_at v (?k @ ns) = node_at w (?k @ ns) \<and> children v (?k @ ns) = children w (?k @ ns)"
      if "?S v" for v ns
      using that ne by (auto simp: wrote_def same_keys_children)
    show "?S (tock v)" if "?S v" for v using that by (auto simp: wrote_def)
    show "?P seen a (tock v)" if "?P seen a v" for seen a v using that by (auto simp: wrote_def)
    show "?fn a p (Some i) None v = (Ok a, v)" if "IsDir i" for a p v i
      using that by (simp add: copy_local_fn_def ret_def)
    show "\<exists>a' v'. ?fn a (path_below ?r ns) (Some \<lparr>fi_name = base (path_below ?r ns), fi_kind = kind_of x\<rparr>) None v = (Ok a', v') \<and>
          ?S v' \<and> ?P (seen @ [(ns, x)]) a' v'"
      if "?P seen a v" and "list_all plain_name ns" and "node_at w (?k @ ns) = Some x" and "x \<noteq> Dir"
      for seen a v ns x
      using copy_local_fn_run [OF assms(1,2,4,5) that, of a] by (auto simp del: filter.simps)
    show "?S (tock (tock w))" and "?P [] () (tock (tock w))" using assms(5) by (auto simp: wrote_def)
  qed (use d in simp_all)
  then obtain v' where v': "walk (Suc path_max) E ?fn () ?r ?i (tock (tock w)) = (Ok (), v')"
      "wrote z (es @ dir_archive E dir w) w v'"
    by (auto simp: dir_archive_def files_below_def simp del: walk.simps visit.simps)
  have "walk_root (Suc path_max) E ?fn () ?r (tock w) = (Ok (), v')"
    using l [of "tock w"] d v'(1) by (simp add: walk_root_def bnd_def attempt_def del: walk.simps)
  moreover have "find_root E dir w = (Ok (?r, ?i), tock w)"
    using l [OF d] by (simp add: find_root_def bnd_def IsSymlink_def ret_def)
  ultimately have "copyLocalFiles E dir (zip_adder E z) w = (Ok (), v')"
    by (simp add: copyLocalFiles_def copy_local_def bnd_def IsDir_def)
  with v'(2) show ?thesis by blast
qed

lemma node_plain:
  assumes "fs_wf w" and "node_at w (k @ ns) = Some x"
  shows "list_all plain_name ns"
proof (cases "k @ ns = []")
  case False
  then have "map_of (fs w) (k @ ns) = Some x" using assms(2) by (simp add: node_at_def split: if_splits)
  then have "k @ ns \<in> fst ` set (fs w)" by (force dest: map_of_SomeD)
  then have "plain_key (k @ ns)" using assms(1) unfolding fs_wf_def by blast
  then show ?thesis by (simp add: plain_key_def)
qed simp

text \<open>A file, or link, reached from the root through directories.\<close>

definition leaf_below :: "world \<Rightarrow> key \<Rightarrow> string list \<Rightarrow> node \<Rightarrow> bool" where
  "leaf_below w k ns x \<longleftrightarrow> node_at w (k @ ns) = Some x \<and> x \<noteq> Dir \<and>
     (\<forall>i < length ns. node_at w (k @ take i ns) = Some Dir)"

lemma dir_archive_set:
  assumes "fs_wf w" and "paths_ok w (key_of (wd E) (bp_Path dir)) (bp_Path dir)"
    and "leaf_below w (key_of (wd E) (bp_Path dir)) ns x" and "\<not> excluded dir ns"
  shows "entry_of dir (ns, x) \<in> set (dir_archive E dir w)"
proof -
  let ?k = "key_of (wd E) (bp_Path dir)"
  note l = assms(3) [unfolded leaf_below_def]
  have "length ns < path_max"
    using l node_plain [OF assms(1)] by (intro depth_bound [OF assms(2)]) auto
  then have "([] @ ns, x) \<in> set (visit (Suc path_max) w ?k [])"
    using l by (intro visit_reaches) auto
  then show ?thesis using assms(4) by (force simp: dir_archive_def files_below_def simp del: visit.simps)
qed

lemma dir_archive_sound:
  assumes "e \<in> set (dir_archive E dir w)"
  shows "\<exists>ns x. e = entry_of dir (ns, x) \<and> node_at w (key_of (wd E) (bp_Path dir) @ ns) = Some x \<and>
    x \<noteq> Dir \<and> \<not> excluded dir ns"
proof -
  obtain ns x where f: "(ns, x) \<in> set (files_below w (key_of (wd E) (bp_Path dir)))" "\<not> excluded dir ns"
      and "e = entry_of dir (ns, x)"
    using assms by (auto simp: dir_archive_def)
  with visit_node [OF f(1) [unfolded files_below_def]] show ?thesis by blast
qed

text \<open>
  C8. When no call fails, \<open>copyLocalFiles\<close> adds the directory to the archive: it succeeds,
  every file below the directory that no exclude pattern matches becomes an entry with its
  content, under the name of the directory and its path below it, and every link an entry
  marked as a link with its target; nothing else is added, the entries that were there stay,
  no other file changes and no file stays open.
\<close>

theorem copyLocalFiles_archives:
  assumes "no_faults E" and "plain_key (wd E)" and "fs_wf w" and "can_archive E dir (zfile z) w"
    and "writing z es w"
  shows "\<exists>w' new. copyLocalFiles E dir (zip_adder E z) w = (Ok (), w') \<and> writing z (es @ new) w' \<and>
    (\<forall>ns x. leaf_below w (key_of (wd E) (bp_Path dir)) ns x \<and> \<not> excluded dir ns \<longrightarrow>
       entry_of dir (ns, x) \<in> set new) \<and>
    (\<forall>e \<in> set new. \<exists>ns x. e = entry_of dir (ns, x) \<and> x \<noteq> Dir \<and> \<not> excluded dir ns \<and>
       node_at w (key_of (wd E) (bp_Path dir) @ ns) = Some x) \<and>
    (\<forall>k. k \<noteq> zfile z \<longrightarrow> node_at w' k = node_at w k) \<and> handles w' = handles w"
proof -
  obtain w' where "copyLocalFiles E dir (zip_adder E z) w = (Ok (), w')"
      and "wrote z (es @ dir_archive E dir w) w w'"
    using copyLocalFiles_run [OF assms] by blast
  moreover have ok: "paths_ok w (key_of (wd E) (bp_Path dir)) (bp_Path dir)"
    using assms(4) by (simp add: can_archive_def Let_def)
  moreover have "\<forall>ns x. leaf_below w (key_of (wd E) (bp_Path dir)) ns x \<and> \<not> excluded dir ns \<longrightarrow>
      entry_of dir (ns, x) \<in> set (dir_archive E dir w)"
    using dir_archive_set [OF assms(3) ok] by blast
  moreover have "\<forall>e \<in> set (dir_archive E dir w). \<exists>ns x. e = entry_of dir (ns, x) \<and> x \<noteq> Dir \<and> \<not> excluded dir ns \<and>
      node_at w (key_of (wd E) (bp_Path dir) @ ns) = Some x"
    using dir_archive_sound by blast
  ultimately show ?thesis unfolding wrote_def by blast
qed

text \<open>A directory with a file, an excluded file and a link, and a zip file next to it.\<close>

definition files_dir :: BackupPath where
  "files_dir = \<lparr>bp_Path = ''/d'', bp_Name = [], bp_Exclude = [\<lambda>p. has_suffix p ''.tmp'']\<rparr>"

definition files_world :: world where
  "files_world = world_of [([''d''], Dir), ([''d'', ''x''], plain_file ''X''),
     ([''d'', ''y.tmp''], plain_file ''Y''), ([''d'', ''l''], Link ''x''),
     ([''z.zip''], File (Raw []) (new_meta ref_env 384))]"

definition files_zip :: Handler where
  "files_zip = \<lparr>isOpen = True, zfile = [''z.zip'']\<rparr>"

lemma files_world_at:
  "node_at files_world k = (if k = [] \<or> k = [''d''] then Some Dir
     else if k = [''d'', ''x''] then Some (plain_file ''X'')
     else if k = [''d'', ''y.tmp''] then Some (plain_file ''Y'')
     else if k = [''d'', ''l''] then Some (Link ''x'')
     else if k = [''z.zip''] then Some (File (Raw []) (new_meta ref_env 384)) else None)"
  by (simp add: files_world_def node_at_world_of)

lemma files_world_below:
  assumes "node_at files_world ([''d''] @ ns) = Some n"
  shows "ns \<in> {[], [''x''], [''y.tmp''], [''l'']}"
  using assms by (simp add: files_world_at split: if_splits)

lemma files_world_wf: "fs_wf files_world"
  by (simp add: fs_wf_def files_world_def plain_key_def plain_name_def)

lemma files_follow: "follow link_limit files_world [''d'', ''l''] = Inr [''d'', ''x'']"
proof -
  have "key_of [''d''] ''x'' = [''d'', ''x'']" by (simp add: key_of_def is_abs_def has_prefix_def norm_def push_def)
  then have "follow (Suc n) files_world [''d'', ''l''] = Inr [''d'', ''x'']" for n
    by (subst follow.simps) (simp add: files_world_at, subst follow.simps, simp add: files_world_at plain_file_def)
  from this [of 39] show ?thesis by (simp add: link_limit_def)
qed

lemma files_names:
  "archived_name files_dir [''x''] = ''d/x''" "archived_name files_dir [''y.tmp''] = ''d/y.tmp''"
  "archived_name files_dir [''l''] = ''d/l''"
  by (simp_all add: archived_name_def files_dir_def base_def trim_right_def path_join_def clean_def
      is_abs_def has_prefix_def norm_def push_def render_def)

lemma files_paths:
  "path_below ''/d'' [''x''] = ''/d/x''" "path_below ''/d'' [''y.tmp''] = ''/d/y.tmp''"
  "path_below ''/d'' [''l''] = ''/d/l''" "path_below ''/d'' [] = ''/d''"
  "clean ''/d/x'' = ''/d/x''" "clean ''/d/y.tmp'' = ''/d/y.tmp''" "clean ''/d/l'' = ''/d/l''"
  by (simp_all add: path_below_def path_join_def clean_def is_abs_def has_prefix_def norm_def push_def render_def)

lemma files_can_archive: "can_archive ref_env files_dir (zfile files_zip) files_world"
proof -
  have "path_ok (path_below ''/d'' ns)"
    if "ns \<in> {[], [''x''], [''y.tmp''], [''l'']}" for ns
    using that by (auto simp: files_paths path_ok_def path_max_def)
  then have "paths_ok files_world [''d''] ''/d''"
    using files_world_below by (auto simp: paths_ok_def path_ok_def path_max_def)
  moreover have "path_ok (abs_path [] (path_below ''/d'' ns)) \<and> entry_name_ok (archived_name files_dir ns) \<and>
      (case x of Link t \<Rightarrow> (\<exists>k' n. follow link_limit files_world ([''d''] @ ns) = Inr k' \<and> node_at files_world k' = Some n)
       | _ \<Rightarrow> True)"
    if "node_at files_world ([''d''] @ ns) = Some x" and "x \<noteq> Dir" for ns x
    using files_world_below [OF that(1)] that files_follow
    by (auto simp: files_paths files_names files_world_at path_ok_def path_max_def entry_name_ok_def
        has_suffix_def abs_path_def is_abs_def has_prefix_def plain_file_def)
  moreover have "bp_Path files_dir = ''/d''" and "zfile files_zip = [''z.zip'']"
    by (simp_all add: files_dir_def files_zip_def)
  moreover have "node_at files_world [''d''] = Some Dir" and "\<forall>ns. [''z.zip''] \<noteq> [''d''] @ ns"
    by (simp_all add: files_world_at)
  ultimately show ?thesis unfolding can_archive_def Let_def ref_env_simps by (simp only: ex_key) blast
qed

theorem copyLocalFiles_archives_witness:
  "\<exists>w' new. copyLocalFiles ref_env files_dir (zip_adder ref_env files_zip) files_world = (Ok (), w') \<and>
     writing files_zip new w' \<and> ZEntry ''d/x'' False (Raw ''X'') \<in> set new \<and>
     ZEntry ''d/l'' True (Raw ''x'') \<in> set new"
proof -
  have "writing files_zip [] files_world"
    by (simp add: writing_def files_zip_def files_world_at unfinished_def)
  from copyLocalFiles_archives [OF no_faults_ref_env _ files_world_wf files_can_archive this]
  obtain w' new where "copyLocalFiles ref_env files_dir (zip_adder ref_env files_zip) files_world = (Ok (), w')"
      "writing files_zip new w'"
      and a: "\<And>ns x. leaf_below files_world (key_of (wd ref_env) (bp_Path files_dir)) ns x \<Longrightarrow>
        \<not> excluded files_dir ns \<Longrightarrow> entry_of files_dir (ns, x) \<in> set new"
    by (auto simp: plain_key_def)
  moreover have k: "key_of (wd ref_env) (bp_Path files_dir) = [''d'']" by (simp only: files_dir_def BackupPath.simps ref_env_simps ex_key)
  moreover have "leaf_below files_world [''d''] [''x''] (plain_file ''X'')"
    and "leaf_below files_world [''d''] [''l''] (Link ''x'')"
    by (simp_all add: leaf_below_def files_world_at plain_file_def)
  moreover have "\<not> excluded files_dir [''x'']" and "\<not> excluded files_dir [''l'']"
    by (simp_all add: excluded_def files_dir_def files_paths has_suffix_def)
  ultimately show ?thesis
    using a [of "[''x'']" "plain_file ''X''"] a [of "[''l'']" "Link ''x''"]
    by (auto simp: plain_file_def files_names)
qed

end
