(* ===== verification/Scp.thy ===== *)
theory Scp
  imports SshClient
begin

text \<open>
  \<open>lib/ssh/scp.go\<close>: the type and name of remote files, read from what \<open>stat\<close> prints over
  ssh.
\<close>

record FileStat =
  isDir :: bool
  fname :: string

text \<open>
  \<open>parseStatLine\<close>. A line that starts with none of the three known types makes an error
  that quotes it from its 20th byte on, and slicing a shorter line panics.
\<close>

definition parseStatLine :: "string \<Rightarrow> FileStat res" where
  "parseStatLine line =
     (let s = trim (\<lambda>c. c = CHR 0x0A) line in
      if has_prefix s ''directory_'' then Ok \<lparr>isDir = True, fname = base (drop 10 s)\<rparr>
      else if has_prefix s ''regular file_'' then Ok \<lparr>isDir = False, fname = base (drop 13 s)\<rparr>
      else if has_prefix s ''regular empty file_'' then Ok \<lparr>isDir = False, fname = base (drop 19 s)\<rparr>
      else if length s < 20 then Panic
      else Fail (ErrNew (''file type not recognized: '' @ drop 20 s @ ''...'')))"

definition of_res :: "'a res \<Rightarrow> ('s, 'a) go" where
  "of_res r s = (r, s)"

definition Stat :: "env \<Rightarrow> Client \<Rightarrow> string \<Rightarrow> (world, FileStat) go" where
  "Stat E c name =
     bnd (map_err (\<lambda>e. e) (Session E c)) (\<lambda>_.
     with_session E
       (let cmd = ''stat --printf='' @ [CHR 0x22] @ ''%F_%n'' @ [CHR 0x5C] @ ''n'' @ [CHR 0x5C] @ ''n'' @ [CHR 0x22] @
                    '' '' @ [CHR 0x22] @ name @ [CHR 0x22] in
        bnd (CombinedOutput E cmd) (\<lambda>(output, err).
        case err of
          Some e \<Rightarrow>
            if contains output ''No such file or directory'' then throw (ErrSentinel ErrNotExist)
            else throw e
        | None \<Rightarrow> map_err (errorf_v ''unable to get filestat: '') (of_res (parseStatLine output)))))"

text \<open>The verb \<open>%q\<close>; bytes above 127 are taken to be printable.\<close>

definition hex_digit :: "nat \<Rightarrow> char" where
  "hex_digit n = ''0123456789abcdef'' ! n"

definition quote_char :: "char \<Rightarrow> string" where
  "quote_char c =
     (let n = of_char c :: nat in
      if c = CHR 0x22 \<or> c = CHR 0x5C then [CHR 0x5C, c]
      else if 32 \<le> n \<and> n \<noteq> 127 then [c]
      else if n = 7 then [CHR 0x5C, CHR ''a'']
      else if n = 8 then [CHR 0x5C, CHR ''b'']
      else if n = 9 then [CHR 0x5C, CHR ''t'']
      else if n = 10 then [CHR 0x5C, CHR ''n'']
      else if n = 11 then [CHR 0x5C, CHR ''v'']
      else if n = 12 then [CHR 0x5C, CHR ''f'']
      else if n = 13 then [CHR 0x5C, CHR ''r'']
      else [CHR 0x5C, CHR ''x'', hex_digit (n div 16), hex_digit (n mod 16)])"

definition go_quote :: "string \<Rightarrow> string" where
  "go_quote s = [CHR 0x22] @ concat (map quote_char s) @ [CHR 0x22]"

definition list_script :: "string \<Rightarrow> string" where
  "list_script name =
     newline @ ''dir='' @ go_quote name @ newline @ newline @
     ''if [ ! -e '' @ go_quote ''$dir'' @ '' ]; then'' @ newline @
     ''  echo '' @ go_quote ''__STAT_NO_EXISTS__'' @ newline @
     ''elif [ ! -d '' @ go_quote ''$dir'' @ '' ]; then'' @ newline @
     ''  echo '' @ go_quote ''__STAT_NO_DIR__'' @ newline @
     ''elif [ '' @ [CHR 0x22] @ ''$(ls -A '' @ go_quote ''$dir'' @ '')'' @ [CHR 0x22] @ '' ]; then'' @ newline @
     ''  find '' @ go_quote ''$dir'' @ '' -mindepth 1 -maxdepth 1 -exec stat --printf='' @ [CHR 0x22] @
       ''%F_%n'' @ [CHR 0x5C] @ ''n'' @ [CHR 0x22] @ '' {} '' @ [CHR 0x5C] @ '';'' @ newline @
     ''fi'' @ newline"

text \<open>The lines in order, up to the first that is not understood.\<close>

fun parse_lines :: "string list \<Rightarrow> FileStat list res" where
  "parse_lines [] = Ok []"
| "parse_lines (l # ls) =
     (if l = [] then parse_lines ls
      else case parseStatLine l of
        Ok f \<Rightarrow> (case parse_lines ls of Ok rest \<Rightarrow> Ok (f # rest) | Fail e \<Rightarrow> Fail e | Panic \<Rightarrow> Panic)
      | Fail e \<Rightarrow> Fail e
      | Panic \<Rightarrow> Panic)"

text \<open>
  A body in a session whose results are named: closing joins its error to \<open>err\<close> and leaves the
  value as it is, so that a listing is returned together with an error.
\<close>

definition session_results :: "env \<Rightarrow> 'a \<Rightarrow> (world, 'a) go \<Rightarrow> (world, 'a \<times> goerr option) go" where
  "session_results E zero body w =
     (case body w of (r, t) \<Rightarrow>
      case session_Close E t of (c, u) \<Rightarrow>
        let joined = (\<lambda>err. case c of
              Fail cErr \<Rightarrow> if errors_is cErr ErrEOF then err else errors_join err (Some cErr)
            | _ \<Rightarrow> err) in
        case r of
          Ok x \<Rightarrow> (Ok (x, joined None), u)
        | Fail e \<Rightarrow> (Ok (zero, joined (Some e)), u)
        | Panic \<Rightarrow> (Panic, u))"

definition readDir :: "env \<Rightarrow> Client \<Rightarrow> string \<Rightarrow> (world, FileStat list \<times> goerr option) go" where
  "readDir E c name =
     bnd (attempt (Session E c)) (\<lambda>sess.
     case sess of
       Inl err \<Rightarrow> ret ([], Some err)
     | Inr _ \<Rightarrow>
       session_results E []
       (let cmd = list_script name in
        bnd (log_event (EvSsh cmd)) (\<lambda>_.
        bnd (map_err (errorf_w ''command failed: '') (service_sum (\<lambda>t. ssh_output E t cmd))) (\<lambda>output.
        if contains output ''__STAT_NO_EXISTS__'' then throw (ErrWrap [] (ErrSentinel ErrNotExist) ('': '' @ name))
        else if contains output ''__STAT_NO_DIR__'' then throw (ErrWrap [] (ErrSentinel ErrNotADir) ('': '' @ name))
        else of_res (parse_lines (split_on (CHR 0x0A) output))))))"

definition ReadDir :: "env \<Rightarrow> Client \<Rightarrow> string \<Rightarrow> (world, FileStat list \<times> goerr option) go" where
  "ReadDir E c name = readDir E c name"

text \<open>Making a client of the scp library, which is given; nothing in the repository uses it.\<close>

definition NewScp :: "('conn \<Rightarrow> goerr + 'client) \<Rightarrow> 'conn \<Rightarrow> (world, 'client) go" where
  "NewScp NewClientBySSH sshConn =
     map_err (errorf_v ''error creating new SSH session from existing connection: '')
       (from_sum (NewClientBySSH sshConn))"


section \<open>Properties\<close>

lemma keeps_of_res: "effects (keeps sessions) (of_res r)"
  by (rule effectsI) (simp add: of_res_def keeps_def)

lemma Stat_sessions: "sessions (snd (Stat E c name w)) = sessions w"
  unfolding Stat_def Let_def CombinedOutput_def
  by (intro in_session_closed kp.keeps_bnd kp.keeps_case_prod kp.keeps_case_option
      kp.keeps_ret kp.keeps_throw kp.keeps_if kp.keeps_map_err keeps_of_res keeps_sessions_calls)

lemma Session_count:
  "sessions (snd (Session E c w)) = sessions w + (case fst (Session E c w) of Ok x \<Rightarrow> 1 | _ \<Rightarrow> 0)"
  by (auto simp: Session_def bnd_def map_err_def handle_def service_err_def service_def check_err_def
      ret_def throw_def add_sessions_def modify_def split: option.splits)

lemma session_results_count:
  assumes "effects (keeps sessions) body"
  shows "sessions (snd (session_results E zero body w)) = sessions w - 1"
proof -
  obtain r t where r: "body w = (r, t)" by (cases "body w")
  obtain c u where c: "session_Close E t = (c, u)" by (cases "session_Close E t")
  have "sessions u = sessions t - 1"
    using c by (auto simp: session_Close_def add_sessions_def modify_def bnd_def service_err_def service_def
        check_err_def ret_def throw_def split: option.splits)
  moreover have "sessions t = sessions w" using effectsD [OF assms r] by (simp add: keeps_def)
  ultimately show ?thesis using r c by (simp add: session_results_def Let_def split: res.splits)
qed

lemma readDir_sessions: "sessions (snd (readDir E c name w)) = sessions w"
proof -
  have body: "effects (keeps sessions) (let cmd = list_script name in
        bnd (log_event (EvSsh cmd)) (\<lambda>_.
        bnd (map_err (errorf_w ''command failed: '') (service_sum (\<lambda>t. ssh_output E t cmd))) (\<lambda>output.
        if contains output ''__STAT_NO_EXISTS__'' then throw (ErrWrap [] (ErrSentinel ErrNotExist) ('': '' @ name))
        else if contains output ''__STAT_NO_DIR__'' then throw (ErrWrap [] (ErrSentinel ErrNotADir) ('': '' @ name))
        else of_res (parse_lines (split_on (CHR 0x0A) output)))))"
    unfolding Let_def
    by (intro kp.keeps_bnd kp.keeps_throw kp.keeps_if kp.keeps_map_err keeps_of_res keeps_sessions_calls)
  obtain r t where r: "Session E c w = (r, t)" by (cases "Session E c w")
  then show ?thesis
    using Session_count [of E c w] session_results_count [OF body, of E "[]" t]
    by (cases r) (simp_all add: readDir_def bnd_def attempt_def ret_def)
qed

text \<open>
  C29. Every query closes the session it opened: whatever the connection, the command and the
  parsing of its output do (a panic included), \<open>Which\<close>, \<open>Stat\<close> and \<open>readDir\<close> leave as many
  ssh sessions open as there were.
\<close>

theorem ssh_queries_close_session:
  "sessions (snd (Which E c app w)) = sessions w \<and>
   sessions (snd (Stat E c name w)) = sessions w \<and>
   sessions (snd (readDir E c name w)) = sessions w"
  by (intro conjI Which_sessions Stat_sessions readDir_sessions)

text \<open>What \<open>stat\<close> prints for a file of one of the known types.\<close>

fun stat_line :: "string \<Rightarrow> FileStat \<Rightarrow> bool \<Rightarrow> string" where
  "stat_line d f emp =
     (if isDir f then ''directory_'' else if emp then ''regular empty file_'' else ''regular file_'') @
     d @ ''/'' @ fname f"

lemma trim_newline_id:
  assumes "s \<noteq> []" and "hd s \<noteq> CHR 0x0A" and "last s \<noteq> CHR 0x0A"
  shows "trim (\<lambda>c. c = CHR 0x0A) s = s"
  using assms by (intro trim_id) simp

lemma base_below:
  assumes "plain_name f" shows "base (d @ ''/'' @ f) = f"
proof -
  have f: "f \<noteq> []" "slash \<notin> set f" using assms by (simp_all add: plain_name_def)
  then have "last f \<noteq> slash" using last_in_set by metis
  note f = f this
  have "trim_right (\<lambda>c. c = slash) (d @ slash # f) = d @ slash # f"
    using f by (simp add: trim_right_def dropWhile_append3 hd_rev dropWhile_hd)
  moreover have "split_on slash (d @ slash # f) = split_on slash d @ [f]"
    using assms by (simp add: split_on_append_sep split_on_plain)
  ultimately show ?thesis by (simp add: base_def Let_def)
qed

lemma parseStatLine_stat_line_ok:
  assumes "plain_name (fname f)" and "last (fname f) \<noteq> CHR 0x0A"
  shows "parseStatLine (stat_line d f emp) = Ok f"
proof -
  have ne: "fname f \<noteq> []" using assms(1) by (simp add: plain_name_def)
  have t: "trim (\<lambda>c. c = CHR 0x0A) (stat_line d f emp) = stat_line d f emp"
    by (rule trim_newline_id) (use ne assms(2) in \<open>auto simp: last_append\<close>)
  have b: "base (d @ slash # fname f) = fname f" using base_below [OF assms(1), of d] by simp
  show ?thesis
    unfolding parseStatLine_def t Let_def
    by (cases f; cases "isDir f"; cases emp) (use b in \<open>simp_all add: has_prefix_def\<close>)
qed

text \<open>
  C30. Round trip. The line that \<open>stat\<close> prints for a directory, a regular file or an empty
  file \<open>f\<close> of the directory \<open>d\<close> is parsed to exactly that name and type, provided the name
  does not begin or end a line (no newline at its end).
\<close>

theorem parseStatLine_stat_line:
  assumes "plain_name (fname f)" and "last (fname f) \<noteq> CHR 0x0A"
  shows "parseStatLine (stat_line d f emp) = Ok f"
  using assms by (rule parseStatLine_stat_line_ok)

theorem parseStatLine_stat_line_witness:
  "parseStatLine ''regular empty file_/var/backup/a_b'' = Ok \<lparr>isDir = False, fname = ''a_b''\<rparr>"
  using parseStatLine_stat_line [of "\<lparr>isDir = False, fname = ''a_b''\<rparr>" "''/var/backup''" True]
  by (simp add: plain_name_def)

text \<open>
  \<open>parseStatLine\<close> panics exactly on the lines that are too short for its error message:
  fewer than 20 bytes and none of the three known types, as for a symbolic link in a directory
  with a short name.
\<close>

theorem parseStatLine_panics_iff:
  "parseStatLine line = Panic \<longleftrightarrow>
     (let s = trim (\<lambda>c. c = CHR 0x0A) line in
      length s < 20 \<and> \<not> has_prefix s ''directory_'' \<and> \<not> has_prefix s ''regular file_'' \<and>
      \<not> has_prefix s ''regular empty file_'')"
  by (simp add: parseStatLine_def Let_def)

lemma parseStatLine_link: "parseStatLine ''symbolic link_/tmp'' = Panic"
  by (simp add: parseStatLine_def trim_def trim_right_def trim_left_def has_prefix_def)

end
