(* ===== verification/DbExec.thy ===== *)
theory DbExec
  imports SshClient
begin

text \<open>
  What the two dump packages (\<open>lib/mysqldump\<close> and \<open>lib/pgdump\<close>) share: running a process,
  a command over ssh or in a container, with its output copied into a writer, and the
  contract of a dump routine.
\<close>

section \<open>Running the tools\<close>

text \<open>The output of a process, or of a remote command, as a reader.\<close>

definition proc_reader :: "proc_res \<Rightarrow> io_reader" where
  "proc_reader p = ret (Raw (pr_out p), pr_copy p)"

text \<open>
  \<open>exec.Command(...)\<close> with its \<open>StdoutPipe\<close>, \<open>Start\<close>, copy and \<open>Wait\<close>. The code kills
  the process on every error; before \<open>Start\<close> has succeeded there is none, and
  \<open>cmd.Process.Kill()\<close> dereferences nil.
\<close>

definition run_process ::
  "env \<Rightarrow> string \<Rightarrow> string \<Rightarrow> string list \<Rightarrow> string list \<Rightarrow> io_writer \<Rightarrow> (world, unit) go" where
  "run_process E tool bin args vars w =
     bnd (service (\<lambda>t. run_proc E t bin args vars)) (\<lambda>p.
     if pr_pipe p \<noteq> None then gopanic
     else if pr_start p \<noteq> None then gopanic
     else
     bnd (log_event (EvExec bin args vars)) (\<lambda>_.
     bnd (map_err (errorf_v ''error writing output to writer: '') (io_copy w (proc_reader p))) (\<lambda>_.
     map_err (errorf_v (''error running '' @ tool @ '': '')) (check_err (pr_wait p)))))"

text \<open>A command in an ssh session that is already open; the four error messages differ.\<close>

definition stream_ssh ::
  "env \<Rightarrow> (goerr \<Rightarrow> goerr) \<Rightarrow> (goerr \<Rightarrow> goerr) \<Rightarrow> (goerr \<Rightarrow> goerr) \<Rightarrow> (goerr \<Rightarrow> goerr) \<Rightarrow> string \<Rightarrow>
     io_writer \<Rightarrow> (world, unit) go" where
  "stream_ssh E pipe_msg start_msg copy_msg wait_msg cmd w =
     bnd (service (\<lambda>t. ssh_run E t cmd)) (\<lambda>p.
     bnd (map_err pipe_msg (check_err (pr_pipe p))) (\<lambda>_.
     bnd (map_err start_msg (check_err (pr_start p))) (\<lambda>_.
     bnd (log_event (EvSsh cmd)) (\<lambda>_.
     bnd (map_err copy_msg (io_copy w (proc_reader p))) (\<lambda>_.
     map_err wait_msg (check_err (pr_wait p)))))))"

text \<open>The docker client's calls.\<close>

definition ContainerExecCreate ::
  "env \<Rightarrow> string \<Rightarrow> string list \<Rightarrow> string list \<Rightarrow> (world, string) go" where
  "ContainerExecCreate E name cmd vars =
     bnd (log_event (EvDocker name cmd vars)) (\<lambda>_.
     service_sum (\<lambda>t. docker_create E t name cmd vars))"

definition ContainerExecAttach :: "env \<Rightarrow> string \<Rightarrow> (world, string) go" where
  "ContainerExecAttach E i = service_sum (\<lambda>t. docker_attach E t i)"

definition ContainerExecInspect :: "env \<Rightarrow> string \<Rightarrow> (world, int) go" where
  "ContainerExecInspect E i = service_sum (\<lambda>t. docker_inspect E t i)"

text \<open>\<open>stdcopy\<close> takes the standard output out of the multiplexed stream.\<close>

definition demux_reader :: "env \<Rightarrow> string \<Rightarrow> io_reader" where
  "demux_reader E stream = service (\<lambda>t. case docker_demux E t stream of (out, e) \<Rightarrow> (Raw out, e))"

definition NewDockerClient :: "env \<Rightarrow> (world, unit) go" where
  "NewDockerClient E = service_err (docker_client E)"

definition docker_Close :: "env \<Rightarrow> (world, unit) go" where
  "docker_Close E = service_err (docker_client_close E)"


section \<open>The contract of a dump\<close>

text \<open>
  \<open>delivers w out v v'\<close>: between the two states the files changed only by one write of the
  whole of \<open>out\<close> into \<open>w\<close> (none, if there is nothing to write), and that write succeeded.
\<close>

definition delivers :: "io_writer \<Rightarrow> string \<Rightarrow> world \<Rightarrow> world \<Rightarrow> bool" where
  "delivers w out v v' \<longleftrightarrow>
     (\<exists>u u'. fs u = fs v \<and> handles u = handles v \<and>
        (if out = [] then u' = u else w (Raw out) u = (Ok (), u')) \<and>
        fs v' = fs u' \<and> handles v' = handles u')"

text \<open>Calls that leave the files and the open handles alone.\<close>

definition files_part :: "world \<Rightarrow> (key \<times> node) list \<times> int" where
  "files_part w = (fs w, handles w)"

lemma files_part_eq: "keeps files_part w w' \<longleftrightarrow> fs w' = fs w \<and> handles w' = handles w"
  by (auto simp: keeps_def files_part_def)

lemma quiet_ticked: "effects ticked m \<Longrightarrow> effects (keeps files_part) m"
  by (erule effects_mono) (simp add: files_part_eq ticked_fields)

lemma quiet_prims:
  "effects (keeps files_part) (log_event e)" "effects (keeps files_part) (add_sessions d)"
  "effects (keeps files_part) (add_conns d)"
  by (rule effectsI, simp add: files_part_eq log_event_def add_sessions_def add_conns_def modify_def)+

lemmas quiet_calls = quiet_prims
  effects_service [THEN quiet_ticked] effects_service_err [THEN quiet_ticked]
  effects_from_sum [THEN quiet_ticked] effects_service_sum [THEN quiet_ticked]
  effects_os_stat [THEN quiet_ticked] effects_os_lstat [THEN quiet_ticked]
  effects_os_read_file [THEN quiet_ticked] effects_eval_symlinks [THEN quiet_ticked]

lemma quiet_Session: "effects (keeps files_part) (Session E c)"
  unfolding Session_def by (intro kp.keeps_if kp.keeps_throw kp.keeps_bnd kp.keeps_map_err quiet_calls)

lemma quiet_session_Close: "effects (keeps files_part) (session_Close E)"
  unfolding session_Close_def by (intro kp.keeps_bnd quiet_calls)

lemma quiet_CombinedOutput: "effects (keeps files_part) (CombinedOutput E cmd)"
  unfolding CombinedOutput_def by (intro kp.keeps_bnd quiet_calls)

lemma quiet_docker:
  "effects (keeps files_part) (ContainerExecCreate E name cmd vars)"
  "effects (keeps files_part) (ContainerExecAttach E i)" "effects (keeps files_part) (ContainerExecInspect E i)"
  "effects (keeps files_part) (NewDockerClient E)" "effects (keeps files_part) (docker_Close E)"
  "effects (keeps files_part) (demux_reader E s)"
  unfolding ContainerExecCreate_def ContainerExecAttach_def ContainerExecInspect_def NewDockerClient_def
    docker_Close_def demux_reader_def
  by (intro kp.keeps_bnd quiet_calls)+

lemma quiet_proc_reader: "effects (keeps files_part) (proc_reader p)"
  unfolding proc_reader_def by (rule kp.keeps_ret)

lemmas quiet_all = quiet_calls quiet_Session quiet_session_Close quiet_CombinedOutput quiet_docker quiet_proc_reader

lemmas quiet_rules =
  kp.keeps_ret kp.keeps_throw kp.keeps_gopanic kp.keeps_check_err kp.keeps_map_err kp.keeps_attempt
  kp.keeps_defer_ignore kp.keeps_defer_join kp.keeps_defer_errors_join kp.keeps_if kp.keeps_case_sum
  kp.keeps_case_option kp.keeps_case_prod kp.keeps_bnd quiet_all

lemma quiet_fs: "effects (keeps files_part) m \<Longrightarrow> effects (keeps fs) m"
  by (erule effects_mono) (simp add: files_part_def keeps_def)

text \<open>Quiet steps before and after a delivery.\<close>

lemma delivers_before: "keeps files_part v u \<Longrightarrow> delivers w out u v' \<Longrightarrow> delivers w out v v'"
  unfolding delivers_def files_part_eq by metis

lemma delivers_after: "delivers w out v u \<Longrightarrow> keeps files_part u v' \<Longrightarrow> delivers w out v v'"
  unfolding delivers_def files_part_eq by metis

lemma io_copy_delivers:
  assumes "io_copy w rd v = (Ok (), v')" and "effects (keeps files_part) rd"
    and "\<And>c e u. rd v = (Ok (c, e), u) \<Longrightarrow> \<exists>s. c = Raw s"
  shows "\<exists>out u. rd v = (Ok (Raw out, None), u) \<and> delivers w out v v'"
proof -
  obtain c e u u' where r: "rd v = (Ok (c, e), u)"
      and w: "(if c = Raw [] then ret () else w c) u = (Ok (), u')" and "check_err e u' = (Ok (), v')"
    using assms(1) by (auto simp: io_copy_def)
  moreover obtain s where s: "c = Raw s" using assms(3) [OF r] by blast
  ultimately have e: "e = None" and v': "u' = v'" by simp_all
  have "fs u = fs v \<and> handles u = handles v"
    using effectsD [OF assms(2) r] by (simp add: files_part_eq)
  moreover have "if s = [] then v' = u else w (Raw s) u = (Ok (), v')"
    using w s v' by (auto split: if_splits)
  ultimately have "delivers w s v v'" unfolding delivers_def by blast
  then show ?thesis using r s e by blast
qed

text \<open>
  A dump routine, given the writer. Its laws: the files change only through the writer (any
  relation that quiet calls and the writer keep is kept, whatever fails); and when it
  succeeds, one complete output of the tool (\<open>produced\<close>) was delivered to the writer.
\<close>

locale dumper =
  fixes dump :: "io_writer \<Rightarrow> (world, unit) go" and produced :: "string \<Rightarrow> bool"
  assumes dump_keeps: "io_sink R w \<Longrightarrow> effects R (dump w)"
    and dump_delivers: "dump w v = (Ok (), v') \<Longrightarrow> \<exists>out. produced out \<and> delivers w out v v'"
begin

text \<open>In a frame, and into a writer of that frame, a dump stays in the frame.\<close>

lemma dump_frame: "(\<And>c. effects (frame K) (w c)) \<Longrightarrow> effects (frame K) (dump w)"
  by (rule dump_keeps) (unfold_locales, auto)

end

context fs_rel
begin

lemma from_quiet: "effects (keeps files_part) m \<Longrightarrow> effects R m"
  by (intro from_fs quiet_fs)

end

context io_sink
begin

lemma run_process_keeps: "effects R (run_process E tool bin args vars sink)"
  unfolding run_process_def
  by (intro keeps_bnd keeps_if keeps_gopanic keeps_map_err keeps_check_err io_copy_keeps
      from_quiet [OF quiet_proc_reader] from_quiet [OF quiet_calls(1)] from_ticked [OF effects_service])

lemma stream_ssh_keeps: "effects R (stream_ssh E a b c d cmd sink)"
  unfolding stream_ssh_def
  by (intro keeps_bnd keeps_map_err keeps_check_err io_copy_keeps
      from_quiet [OF quiet_proc_reader] from_quiet [OF quiet_calls(1)] from_ticked [OF effects_service])

end

text \<open>A process or a command that delivered ended without an error, and all it printed was written.\<close>

definition finished :: "proc_res \<Rightarrow> bool" where
  "finished p \<longleftrightarrow> pr_pipe p = None \<and> pr_start p = None \<and> pr_copy p = None \<and> pr_wait p = None"

lemma proc_reader_delivers:
  assumes "io_copy w (proc_reader p) v = (Ok (), v')"
  shows "pr_copy p = None \<and> delivers w (pr_out p) v v'"
proof -
  obtain out u where "proc_reader p v = (Ok (Raw out, None), u)" and "delivers w out v v'"
    using io_copy_delivers [OF assms quiet_proc_reader] by (auto simp: proc_reader_def)
  then show ?thesis by (auto simp: proc_reader_def)
qed

lemma keeps_tick_log [simp]:
  "keeps files_part v (v\<lparr>tick := n\<rparr>)" "keeps files_part v (v\<lparr>trace := l\<rparr>)"
  "keeps files_part v (v\<lparr>tick := n, trace := l\<rparr>)"
  by (simp_all add: files_part_eq)

lemma run_process_Ok:
  assumes "run_process E tool bin args vars w v = (Ok (), v')"
  shows "finished (run_proc E (tick v) bin args vars) \<and>
    delivers w (pr_out (run_proc E (tick v) bin args vars)) v v' \<and>
    (\<exists>u. trace u = trace v @ [EvExec bin args vars] \<and> delivers w (pr_out (run_proc E (tick v) bin args vars)) u v')"
proof -
  let ?p = "run_proc E (tick v) bin args vars"
  let ?u = "(tock v)\<lparr>trace := trace v @ [EvExec bin args vars]\<rparr>"
  have "pr_pipe ?p = None" "pr_start ?p = None" "pr_wait ?p = None"
    and c: "io_copy w (proc_reader ?p) ?u = (Ok (), v')"
    using assms
    by (auto simp: run_process_def service_def log_event_def gopanic_def split: if_splits)
  moreover have d: "pr_copy ?p = None \<and> delivers w (pr_out ?p) ?u v'" using proc_reader_delivers [OF c] .
  moreover have "delivers w (pr_out ?p) v v'"
    by (rule delivers_before [OF _ conjunct2 [OF d]]) (simp add: files_part_eq)
  ultimately show ?thesis by (auto simp: finished_def intro!: exI [of _ ?u])
qed

lemma stream_ssh_Ok:
  assumes "stream_ssh E a b c d cmd w v = (Ok (), v')"
  shows "finished (ssh_run E (tick v) cmd) \<and> delivers w (pr_out (ssh_run E (tick v) cmd)) v v'"
proof -
  let ?p = "ssh_run E (tick v) cmd"
  let ?u = "(tock v)\<lparr>trace := trace v @ [EvSsh cmd]\<rparr>"
  have "pr_pipe ?p = None" "pr_start ?p = None" "pr_wait ?p = None"
    and c: "io_copy w (proc_reader ?p) ?u = (Ok (), v')"
    using assms by (auto simp: stream_ssh_def service_def log_event_def)
  moreover have d: "pr_copy ?p = None \<and> delivers w (pr_out ?p) ?u v'" using proc_reader_delivers [OF c] .
  moreover have "delivers w (pr_out ?p) v v'"
    by (rule delivers_before [OF _ conjunct2 [OF d]]) (simp add: files_part_eq)
  ultimately show ?thesis by (simp add: finished_def)
qed

text \<open>A session around a body that delivers.\<close>

lemma with_session_Ok:
  assumes "with_session E body v = (Ok x, v')"
  obtains u where "body v = (Ok x, u)" and "keeps files_part u v'"
proof -
  obtain u where "body v = (Ok x, u)" and "snd (session_Close E u) = v'"
    using assms unfolding with_session_def by (rule defer_join_OkE)
  then show ?thesis using effects_snd [OF quiet_session_Close, of u E] that by simp
qed

lemma session_delivers:
  assumes "bnd (map_err f (Session E c)) (\<lambda>_. with_session E body) v = (Ok (), v')"
    and "\<And>u u'. body u = (Ok (), u') \<Longrightarrow> \<exists>out. P out \<and> delivers w out u u'"
  shows "\<exists>out. P out \<and> delivers w out v v'"
proof -
  obtain u x where s: "Session E c v = (Ok x, u)" and b: "with_session E body u = (Ok (), v')"
    using assms(1) by auto
  obtain u' where u': "body u = (Ok (), u')" "keeps files_part u' v'" using with_session_Ok [OF b] .
  have "keeps files_part v u" using effectsD [OF quiet_Session s] .
  with assms(2) [OF u'(1)] u'(2) show ?thesis by (meson delivers_before delivers_after)
qed

lemma bnd_delivers:
  assumes "bnd m f v = (Ok (), v')" and "effects (keeps files_part) m"
    and "\<And>x u. f x u = (Ok (), v') \<Longrightarrow> \<exists>out. P out \<and> delivers w out u v'"
  shows "\<exists>out. P out \<and> delivers w out v v'"
proof -
  obtain x u where m: "m v = (Ok x, u)" and "f x u = (Ok (), v')" using assms(1) by auto
  then obtain out where "P out" "delivers w out u v'" using assms(3) by blast
  then show ?thesis using delivers_before effectsD [OF assms(2) m] by blast
qed

text \<open>Quiet steps after one that delivers, and around it.\<close>

lemma delivers_then:
  assumes "bnd m f v = (Ok (), v')" and "\<And>x u. m v = (Ok x, u) \<Longrightarrow> \<exists>out. P out \<and> delivers w out v u"
    and "\<And>x. effects (keeps files_part) (f x)"
  shows "\<exists>out. P out \<and> delivers w out v v'"
proof -
  obtain x u where m: "m v = (Ok x, u)" and f: "f x u = (Ok (), v')" using assms(1) by auto
  then show ?thesis using assms(2) [OF m] delivers_after effectsD [OF assms(3) f] by blast
qed

lemma deferred_delivers:
  assumes "defer_join keep m c v = (Ok (), v')" and "\<And>u. m v = (Ok (), u) \<Longrightarrow> \<exists>out. P out \<and> delivers w out v u"
    and "effects (keeps files_part) c"
  shows "\<exists>out. P out \<and> delivers w out v v'"
proof -
  obtain u where m: "m v = (Ok (), u)" and c: "snd (c u) = v'" using assms(1) by (rule defer_join_OkE)
  have "keeps files_part u v'" using assms(3) c by (auto simp: effects_def)
  then show ?thesis using assms(2) [OF m] delivers_after by blast
qed

text \<open>What a finished tool printed: as a local process, as a remote command, in a container.\<close>

definition proc_output :: "env \<Rightarrow> string \<Rightarrow> bool" where
  "proc_output E out \<longleftrightarrow> (\<exists>t bin args vars. finished (run_proc E t bin args vars) \<and>
     out = pr_out (run_proc E t bin args vars))"

definition remote_output :: "env \<Rightarrow> string \<Rightarrow> bool" where
  "remote_output E out \<longleftrightarrow> (\<exists>t cmd. finished (ssh_run E t cmd) \<and> out = pr_out (ssh_run E t cmd))"

definition exec_output :: "env \<Rightarrow> string \<Rightarrow> bool" where
  "exec_output E out \<longleftrightarrow> (\<exists>t1 t2 t3 i stream. docker_attach E t1 i = Inr stream \<and>
     docker_demux E t2 stream = (out, None) \<and> docker_inspect E t3 i = Inr 0)"

lemma run_process_delivers:
  "run_process E tool bin args vars w v = (Ok (), v') \<Longrightarrow> \<exists>out. proc_output E out \<and> delivers w out v v'"
  unfolding proc_output_def using run_process_Ok by blast

lemma stream_ssh_delivers:
  "stream_ssh E a b c d cmd w v = (Ok (), v') \<Longrightarrow> \<exists>out. remote_output E out \<and> delivers w out v v'"
  unfolding remote_output_def using stream_ssh_Ok by blast

lemma demux_copy_Ok:
  assumes "io_copy w (demux_reader E s) v = (Ok (), v')"
  shows "\<exists>out. docker_demux E (tick v) s = (out, None) \<and> delivers w out v v'"
proof -
  have "\<exists>out u. demux_reader E s v = (Ok (Raw out, None), u) \<and> delivers w out v v'"
    using assms quiet_docker(6)
    by (rule io_copy_delivers) (auto simp: demux_reader_def service_def split: prod.splits)
  then show ?thesis by (auto simp: demux_reader_def service_def split: prod.splits)
qed

lemma docker_calls_Ok:
  "ContainerExecCreate E name cmd vars v = (Ok i, v') \<longleftrightarrow>
     docker_create E (tick v) name cmd vars = Inr i \<and> v' = (tock v)\<lparr>trace := trace v @ [EvDocker name cmd vars]\<rparr>"
  "ContainerExecAttach E i v = (Ok stream, v') \<longleftrightarrow> docker_attach E (tick v) i = Inr stream \<and> v' = tock v"
  "ContainerExecInspect E i v = (Ok n, v') \<longleftrightarrow> docker_inspect E (tick v) i = Inr n \<and> v' = tock v"
  by (auto simp: ContainerExecCreate_def ContainerExecAttach_def ContainerExecInspect_def log_event_def
      service_sum_def service_def bnd_def modify_def from_sum_Ok)

context io_sink
begin

lemma demux_copy_keeps: "effects R (io_copy sink (demux_reader E s))"
  by (intro io_copy_keeps from_quiet quiet_docker)

lemmas dump_keeps_rules =
  keeps_if keeps_case_sum keeps_ret keeps_throw keeps_map_err keeps_defer_join keeps_bnd
  run_process_keeps stream_ssh_keeps demux_copy_keeps

end

end
