(* ===== verification/MysqlDump.thy ===== *)
theory MysqlDump
  imports DbExec
begin

text \<open>
  \<open>lib/mysqldump\<close>: dumping a MySQL or MariaDB database on this machine, in a local
  container, on a remote machine and in a container there.
\<close>

section \<open>Local databases\<close>

record LocalCfg =
  lc_BinPath :: string
  lc_User :: string
  lc_Pw :: string
  lc_DbName :: string

record LocalHandler =
  lh_binPath :: string
  lh_dbName :: string
  lh_user :: string
  lh_pw :: string

definition sanitizeString :: "string \<Rightarrow> string" where
  "sanitizeString s =
     (let s = trim_space s;
          s = replace_char (CHR '' '') (CHR ''_'') s;
          s = replace_char (CHR 0x0A) (CHR ''_'') s;
          s = replace_char (CHR 0x0D) (CHR ''_'') s
      in s)"

definition getArgs :: "string \<Rightarrow> string \<Rightarrow> string \<Rightarrow> string list" where
  "getArgs user pass dbname =
     (if user \<noteq> [] then [''-u'', sanitizeString user] else []) @
     (if pass \<noteq> [] then [''-p'' @ sanitizeString pass] else []) @
     [''--add-drop-database'', ''--databases'', sanitizeString dbname]"

text \<open>\<open>user.Current\<close> failing leaves a nil user, and reading its home directory panics.\<close>

definition MysqlIniLocations :: "env \<Rightarrow> (world, string list) go" where
  "MysqlIniLocations E =
     (case current_home E of
        None \<Rightarrow> gopanic
      | Some home \<Rightarrow> ret [''/etc/mysql/debian.cnf'', path_join [home, ''/.my.cnf'']])"

text \<open>
  The files are read in order and later ones win. \<open>ini_load\<close> gives the value of a key of a
  section, if the file has it; a missing file is skipped.
\<close>

fun read_cnf :: "env \<Rightarrow> string list \<Rightarrow> string \<times> string \<Rightarrow> (world, string \<times> string) go" where
  "read_cnf E [] up = ret up"
| "read_cnf E (file # files) (usr, pw) =
     bnd (attempt (service_sum (\<lambda>t. ini_load E t file))) (\<lambda>r.
     case r of
       Inl e \<Rightarrow> if errors_is e ErrNotExist then read_cnf E files (usr, pw) else throw e
     | Inr cfg \<Rightarrow>
         read_cnf E files
           (case cfg ''client'' ''user'' of Some u \<Rightarrow> u | None \<Rightarrow> usr,
            case cfg ''client'' ''password'' of Some q \<Rightarrow> q | None \<Rightarrow> pw))"

definition loadCnfFiles :: "env \<Rightarrow> LocalHandler \<Rightarrow> string list \<Rightarrow> (world, LocalHandler) go" where
  "loadCnfFiles E h files =
     bnd (read_cnf E files ([], [])) (\<lambda>(usr, pw). ret (h\<lparr>lh_user := usr, lh_pw := pw\<rparr>))"

definition GetLocalBinPath :: "env \<Rightarrow> (world, string) go" where
  "GetLocalBinPath E = bnd (from_sum (look_path E ''mysqldump'')) (\<lambda>binPath. ret (abs_path (wd E) binPath))"

definition NewLocal :: "env \<Rightarrow> LocalCfg \<Rightarrow> (world, LocalHandler) go" where
  "NewLocal E cfg =
     bnd (if lc_BinPath cfg = [] then
            map_err (errorf_w ''unable to get path for mysqldump: '') (GetLocalBinPath E)
          else ret (lc_BinPath cfg)) (\<lambda>binPath.
     let h = \<lparr>lh_binPath = binPath, lh_dbName = lc_DbName cfg, lh_user = lc_User cfg, lh_pw = lc_Pw cfg\<rparr> in
     if lc_User cfg = [] \<or> lc_Pw cfg = [] then
       bnd (MysqlIniLocations E) (\<lambda>files. loadCnfFiles E h files)
     else ret h)"

definition Cmd :: "LocalHandler \<Rightarrow> string \<times> string list" where
  "Cmd h = (lh_binPath h, getArgs (lh_user h) (lh_pw h) (lh_dbName h))"

definition Run :: "env \<Rightarrow> LocalHandler \<Rightarrow> io_writer \<Rightarrow> (world, unit) go" where
  "Run E h w =
     bnd (attempt (os_stat E (lh_binPath h))) (\<lambda>r.
     case r of
       Inl e \<Rightarrow>
         if errors_is e ErrNotExist then throw (ErrNew (''binary not found at path: '' @ lh_binPath h))
         else throw (errorf_w ''failed to check binary path: '' e)
     | Inr info \<Rightarrow>
         run_process E ''mysqldump'' (lh_binPath h) (getArgs (lh_user h) (lh_pw h) (lh_dbName h)) [] w)"

definition WriteLocal :: "env \<Rightarrow> LocalCfg \<Rightarrow> io_writer \<Rightarrow> (world, unit) go" where
  "WriteLocal E cfg w = bnd (NewLocal E cfg) (\<lambda>h. Run E h w)"


section \<open>Databases in containers\<close>

record DockerCfg =
  dc_ContainerName :: string
  dc_BinPath :: string
  dc_User :: string
  dc_Pw :: string
  dc_DbName :: string

record DockerHandler =
  dh_binPath :: string
  dh_containerName :: string
  dh_dbName :: string
  dh_user :: string
  dh_pw :: string

definition NewDocker :: "env \<Rightarrow> DockerCfg \<Rightarrow> (world, DockerHandler) go" where
  "NewDocker E cfg =
     bnd (map_err (errorf_v ''unable to create docker client: '') (NewDockerClient E)) (\<lambda>_.
     ret \<lparr>dh_binPath = (if dc_BinPath cfg = [] then ''mysqldump'' else dc_BinPath cfg),
          dh_containerName = dc_ContainerName cfg, dh_dbName = dc_DbName cfg,
          dh_user = dc_User cfg, dh_pw = dc_Pw cfg\<rparr>)"

definition SetBinPath :: "DockerHandler \<Rightarrow> string \<Rightarrow> DockerHandler" where
  "SetBinPath h p = h\<lparr>dh_binPath := p\<rparr>"

definition docker_Cmd :: "DockerHandler \<Rightarrow> string" where
  "docker_Cmd h = dh_binPath h @ '' '' @ str_join '' '' (getArgs (dh_user h) (dh_pw h) (dh_dbName h))"

definition docker_Run :: "env \<Rightarrow> DockerHandler \<Rightarrow> io_writer \<Rightarrow> (world, unit) go" where
  "docker_Run E h w =
     (let args = getArgs (dh_user h) (dh_pw h) (dh_dbName h) in
      bnd (map_err (errorf_v ''unable to create container exec: '')
             (ContainerExecCreate E (dh_containerName h) (dh_binPath h # args) [])) (\<lambda>execResp.
      bnd (map_err (errorf_v ''unable to attach to container exec: '') (ContainerExecAttach E execResp)) (\<lambda>output.
      bnd (map_err (errorf_v ''unable to copy mysqldump output to zip: '') (io_copy w (demux_reader E output))) (\<lambda>_.
      bnd (map_err (errorf_v ''unable to inspect container exec: '') (ContainerExecInspect E execResp)) (\<lambda>exitCode.
      if exitCode \<noteq> 0 then throw (ErrNew (''mysqldump failed with exit code '' @ show_int exitCode))
      else ret ())))))"

text \<open>When \<open>which\<close> finds nothing the path is empty and there is no error.\<close>

definition GetDockerBinPath :: "env \<Rightarrow> string \<Rightarrow> (world, string) go" where
  "GetDockerBinPath E containerName =
     bnd (map_err (errorf_v ''unable to create which command exec: '')
            (ContainerExecCreate E containerName [''which'', ''mysqldump''] [])) (\<lambda>whichResp.
     bnd (map_err (errorf_v ''unable to attach to which command exec: '') (ContainerExecAttach E whichResp)) (\<lambda>whichOutput.
     bnd (demux_reader E whichOutput) (\<lambda>(outBuf, err).
     bnd (map_err (errorf_v ''unable to read which command output: '') (check_err err)) (\<lambda>_.
     bnd (map_err (errorf_v ''unable to inspect which command exec: '') (ContainerExecInspect E whichResp)) (\<lambda>exitCode.
     ret (if exitCode = 0 \<and> bytes_of outBuf \<noteq> [] then trim_space (bytes_of outBuf) else []))))))"

definition WriteFromDocker :: "env \<Rightarrow> DockerCfg \<Rightarrow> io_writer \<Rightarrow> (world, unit) go" where
  "WriteFromDocker E cfg w =
     bnd (NewDocker E cfg) (\<lambda>h.
     defer_join (\<lambda>_. True)
       (bnd (if dc_BinPath cfg = [] then
               bnd (map_err (errorf_w ''unable to get path for mysqldump: '')
                      (GetDockerBinPath E (dc_ContainerName cfg))) (\<lambda>binPath.
               ret (SetBinPath h binPath))
             else ret h) (\<lambda>h.
        docker_Run E h w))
       (docker_Close E))"


section \<open>Databases on a remote machine\<close>

record RemoteCfg =
  rc_BinPath :: string
  rc_User :: string
  rc_Pw :: string
  rc_DbName :: string

record RemoteHandler =
  rh_binPath :: string
  rh_dbName :: string
  rh_user :: string
  rh_pw :: string

definition NewRemote :: "RemoteCfg \<Rightarrow> RemoteHandler" where
  "NewRemote cfg =
     \<lparr>rh_binPath = (if rc_BinPath cfg = [] then ''mysqldump'' else rc_BinPath cfg),
      rh_dbName = rc_DbName cfg, rh_user = rc_User cfg, rh_pw = rc_Pw cfg\<rparr>"

definition remote_SetBinPath :: "RemoteHandler \<Rightarrow> string \<Rightarrow> RemoteHandler" where
  "remote_SetBinPath h p = h\<lparr>rh_binPath := p\<rparr>"

definition remote_Cmd :: "RemoteHandler \<Rightarrow> string" where
  "remote_Cmd h = rh_binPath h @ '' '' @ str_join '' '' (getArgs (rh_user h) (rh_pw h) (rh_dbName h))"

definition GetRemoteBinPath :: "env \<Rightarrow> Client \<Rightarrow> (world, string) go" where
  "GetRemoteBinPath E c =
     bnd (map_err (errorf_v ''unable to create ssh session: '') (Session E c)) (\<lambda>_.
     with_session E
       (bnd (CombinedOutput E ''which mysqldump'') (\<lambda>(output, err).
        bnd (map_err (errorf_v ''unable to execute which command: '') (check_err err)) (\<lambda>_.
        let path = trim_space output in
        if path = [] then throw (ErrNew ''mysqldump not found on remote machine'')
        else ret path))))"

definition remote_Run :: "env \<Rightarrow> Client \<Rightarrow> RemoteHandler \<Rightarrow> io_writer \<Rightarrow> (world, unit) go" where
  "remote_Run E c h w =
     bnd (map_err (errorf_v ''unable to create ssh session: '') (Session E c)) (\<lambda>_.
     with_session E
       (stream_ssh E (errorf_v ''unable to set stdout pipe, '') (errorf_v ''unable to start ssh command: '')
          (errorf_v ''error writing output to writer: '') (errorf_v ''error with ssh command: '') (remote_Cmd h) w))"

definition WriteFromRemote :: "env \<Rightarrow> Client \<Rightarrow> RemoteCfg \<Rightarrow> io_writer \<Rightarrow> (world, unit) go" where
  "WriteFromRemote E c cfg w =
     (let h = NewRemote cfg in
      bnd (if rc_BinPath cfg = [] then
             bnd (map_err (errorf_w ''unable to get path for mysqldump: '') (GetRemoteBinPath E c)) (\<lambda>binPath.
             ret (remote_SetBinPath h binPath))
           else ret h) (\<lambda>h.
      remote_Run E c h w))"


section \<open>Databases in containers on a remote machine\<close>

record SshDockerCfg =
  sd_ContainerName :: string
  sd_BinPath :: string
  sd_User :: string
  sd_Pw :: string
  sd_DbName :: string

record SshDockerHandler =
  sh_binPath :: string
  sh_containerName :: string
  sh_dbName :: string
  sh_user :: string
  sh_pw :: string

definition NewSshDocker :: "SshDockerCfg \<Rightarrow> SshDockerHandler" where
  "NewSshDocker cfg =
     \<lparr>sh_binPath = (if sd_BinPath cfg = [] then ''mysqldump'' else sd_BinPath cfg),
      sh_containerName = sd_ContainerName cfg, sh_dbName = sd_DbName cfg,
      sh_user = sd_User cfg, sh_pw = sd_Pw cfg\<rparr>"

definition sshdocker_SetBinPath :: "SshDockerHandler \<Rightarrow> string \<Rightarrow> SshDockerHandler" where
  "sshdocker_SetBinPath h p = h\<lparr>sh_binPath := p\<rparr>"

definition sshdocker_Cmd :: "SshDockerHandler \<Rightarrow> string" where
  "sshdocker_Cmd h = sh_binPath h @ '' '' @ str_join '' '' (getArgs (sh_user h) (sh_pw h) (sh_dbName h))"

text \<open>
  The results of \<open>GetSshDockerBinPath\<close> have no names, so what its deferred functions put in
  \<open>err\<close> is lost: errors of closing the sessions are dropped.
\<close>

definition GetSshDockerBinPath :: "env \<Rightarrow> Client \<Rightarrow> string \<Rightarrow> (world, string) go" where
  "GetSshDockerBinPath E c containerName =
     bnd (map_err (errorf_v ''unable to create ssh session: '') (Session E c)) (\<lambda>_.
     defer_ignore
       (bnd (CombinedOutput E ''which docker'') (\<lambda>(output, err).
        bnd (map_err (errorf_v ''docker is not available on the remote server: '') (check_err err)) (\<lambda>_.
        bnd (map_err (errorf_v ''unable to create second ssh session: '') (Session E c)) (\<lambda>_.
        defer_ignore
          (bnd (CombinedOutput E (''docker exec '' @ containerName @ '' which mysqldump'')) (\<lambda>(output, err).
           bnd (map_err (errorf_v (''mysqldump not found in container '' @ containerName @ '': '')) (check_err err)) (\<lambda>_.
           let path = trim_space output in
           if path = [] then throw (ErrNew (''mysqldump path is empty in container '' @ containerName))
           else ret path)))
          (session_Close E)))))
       (session_Close E))"

definition docker_command :: "SshDockerHandler \<Rightarrow> string" where
  "docker_command h =
     ''docker exec '' @ sh_containerName h @ '' '' @ sh_binPath h @ '' '' @
     str_join '' '' (getArgs (sh_user h) (sh_pw h) (sh_dbName h))"

definition sshdocker_Run :: "env \<Rightarrow> Client \<Rightarrow> SshDockerHandler \<Rightarrow> io_writer \<Rightarrow> (world, unit) go" where
  "sshdocker_Run E c h w =
     bnd (map_err (errorf_v ''unable to create ssh session for docker check: '') (Session E c)) (\<lambda>_.
     with_session E
       (bnd (CombinedOutput E ''which docker'') (\<lambda>(output, err).
        bnd (map_err (errorf_v ''docker is not available on the remote server: '') (check_err err)) (\<lambda>_.
        bnd (map_err (errorf_v ''unable to create ssh session for docker execution: '') (Session E c)) (\<lambda>_.
        with_session E
          (stream_ssh E (errorf_v ''unable to set stdout pipe, '') (errorf_v ''unable to start ssh command: '')
             (errorf_v ''unable to copy mysqldump output: '') (errorf_v ''error with ssh command: '')
             (docker_command h) w))))))"

definition WriteFromSshDocker :: "env \<Rightarrow> Client \<Rightarrow> SshDockerCfg \<Rightarrow> io_writer \<Rightarrow> (world, unit) go" where
  "WriteFromSshDocker E c cfg w =
     (let h = NewSshDocker cfg in
      bnd (if sd_BinPath cfg = [] then
             bnd (map_err (errorf_w ''unable to get path for mysqldump: '')
                    (GetSshDockerBinPath E c (sd_ContainerName cfg))) (\<lambda>binPath.
             ret (sshdocker_SetBinPath h binPath))
           else ret h) (\<lambda>h.
      sshdocker_Run E c h w))"

section \<open>Every dump keeps the contract\<close>

text \<open>Everything before the dump itself leaves the files alone.\<close>

lemma quiet_read_cnf: "effects (keeps files_part) (read_cnf E files up)"
proof (induction files arbitrary: up)
  case Nil
  then show ?case by (cases up) (simp add: kp.keeps_ret)
next
  case (Cons f files)
  then show ?case
    by (cases up) (auto intro!: kp.keeps_bnd kp.keeps_attempt quiet_calls kp.keeps_throw split: sum.splits)
qed

lemma quiet_NewLocal: "effects (keeps files_part) (NewLocal E cfg)"
  unfolding NewLocal_def Let_def GetLocalBinPath_def MysqlIniLocations_def loadCnfFiles_def
  by (intro quiet_rules quiet_read_cnf)

lemma quiet_bin_paths:
  "effects (keeps files_part) (GetDockerBinPath E name)" "effects (keeps files_part) (GetRemoteBinPath E c)"
  "effects (keeps files_part) (GetSshDockerBinPath E c name)"
  unfolding GetDockerBinPath_def GetRemoteBinPath_def GetSshDockerBinPath_def with_session_def Let_def
  by (intro quiet_rules)+

lemma quiet_NewDocker: "effects (keeps files_part) (NewDocker E cfg)"
  unfolding NewDocker_def by (intro quiet_rules)

context io_sink
begin

lemma WriteLocal_keeps: "effects R (WriteLocal E cfg sink)"
  unfolding WriteLocal_def Run_def by (intro dump_keeps_rules from_quiet quiet_NewLocal quiet_all kp.keeps_attempt)

lemma WriteFromDocker_keeps: "effects R (WriteFromDocker E cfg sink)"
  unfolding WriteFromDocker_def docker_Run_def Let_def
  by (intro dump_keeps_rules from_quiet quiet_NewDocker quiet_bin_paths quiet_all)

lemma WriteFromRemote_keeps: "effects R (WriteFromRemote E c cfg sink)"
  unfolding WriteFromRemote_def remote_Run_def with_session_def Let_def
  by (intro dump_keeps_rules from_quiet quiet_bin_paths quiet_all)

lemma WriteFromSshDocker_keeps: "effects R (WriteFromSshDocker E c cfg sink)"
  unfolding WriteFromSshDocker_def sshdocker_Run_def with_session_def Let_def
  by (intro dump_keeps_rules keeps_case_prod keeps_check_err from_quiet quiet_bin_paths quiet_all)

end

lemma Run_delivers: "Run E h w v = (Ok (), v') \<Longrightarrow> \<exists>out. proc_output E out \<and> delivers w out v v'"
  unfolding Run_def
  by (erule bnd_delivers) (intro quiet_rules, auto split: sum.splits if_splits dest: run_process_delivers)

interpretation local_dump: dumper "WriteLocal E cfg" "proc_output E" for E cfg
proof
  show "effects R (WriteLocal E cfg w)" if "io_sink R w" for R w
    using that by (rule io_sink.WriteLocal_keeps)
  show "\<exists>out. proc_output E out \<and> delivers w out v v'" if "WriteLocal E cfg w v = (Ok (), v')" for w v v'
    using that unfolding WriteLocal_def by (rule bnd_delivers [OF _ quiet_NewLocal]) (rule Run_delivers)
qed

lemma docker_Run_Ok:
  assumes "docker_Run E h w v = (Ok (), v')"
  shows "\<exists>i u stream u3 u4. keeps files_part v u \<and> ContainerExecAttach E i u = (Ok stream, u3) \<and>
      io_copy w (demux_reader E stream) u3 = (Ok (), u4) \<and> ContainerExecInspect E i u4 = (Ok 0, v')"
proof -
  obtain i u where c: "ContainerExecCreate E (dh_containerName h)
        (dh_binPath h # getArgs (dh_user h) (dh_pw h) (dh_dbName h)) [] v = (Ok i, u)"
      and r: "\<exists>stream u3 u4. ContainerExecAttach E i u = (Ok stream, u3) \<and>
        io_copy w (demux_reader E stream) u3 = (Ok (), u4) \<and> ContainerExecInspect E i u4 = (Ok 0, v')"
    using assms by (auto simp: docker_Run_def Let_def split: if_splits)
  then show ?thesis using effectsD [OF quiet_docker(1) c] by blast
qed

lemma docker_Run_delivers:
  assumes "docker_Run E h w v = (Ok (), v')"
  shows "\<exists>out. exec_output E out \<and> delivers w out v v'"
proof -
  obtain i u stream u3 u4 where v: "keeps files_part v u" and a: "ContainerExecAttach E i u = (Ok stream, u3)"
      and io: "io_copy w (demux_reader E stream) u3 = (Ok (), u4)" and x: "ContainerExecInspect E i u4 = (Ok 0, v')"
    using docker_Run_Ok [OF assms] by blast
  obtain out where out: "docker_demux E (tick u3) stream = (out, None)" "delivers w out u3 u4"
    using demux_copy_Ok [OF io] by blast
  have "exec_output E out" using a x out(1) unfolding exec_output_def docker_calls_Ok by blast
  moreover have "keeps files_part v u3"
    using v effectsD [OF quiet_docker(2) a] by (simp add: files_part_eq)
  then have "delivers w out v v'"
    using out(2) effectsD [OF quiet_docker(3) x] delivers_before delivers_after by blast
  ultimately show ?thesis by blast
qed

interpretation docker_dump: dumper "WriteFromDocker E cfg" "exec_output E" for E cfg
proof
  show "effects R (WriteFromDocker E cfg w)" if "io_sink R w" for R w
    using that by (rule io_sink.WriteFromDocker_keeps)
  show "\<exists>out. exec_output E out \<and> delivers w out v v'" if "WriteFromDocker E cfg w v = (Ok (), v')" for w v v'
    using that unfolding WriteFromDocker_def
    by (rule bnd_delivers [OF _ quiet_NewDocker], elim deferred_delivers [OF _ _ quiet_docker(5)])
      (erule bnd_delivers, intro quiet_rules quiet_bin_paths, erule docker_Run_delivers)
qed

interpretation remote_dump: dumper "WriteFromRemote E c cfg" "remote_output E" for E c cfg
proof
  show "effects R (WriteFromRemote E c cfg w)" if "io_sink R w" for R w
    using that by (rule io_sink.WriteFromRemote_keeps)
  show "\<exists>out. remote_output E out \<and> delivers w out v v'" if "WriteFromRemote E c cfg w v = (Ok (), v')" for w v v'
    using that unfolding WriteFromRemote_def remote_Run_def Let_def
    by (rule bnd_delivers, intro quiet_rules quiet_bin_paths)
      (erule session_delivers, erule stream_ssh_delivers)
qed

lemma sshdocker_Run_delivers: "sshdocker_Run E c h w v = (Ok (), v') \<Longrightarrow> \<exists>out. remote_output E out \<and> delivers w out v v'"
  unfolding sshdocker_Run_def
  by (erule session_delivers, erule bnd_delivers, rule quiet_all, simp split: prod.splits,
    erule bnd_delivers, intro quiet_rules, erule session_delivers, erule stream_ssh_delivers)

interpretation sshdocker_dump: dumper "WriteFromSshDocker E c cfg" "remote_output E" for E c cfg
proof
  show "effects R (WriteFromSshDocker E c cfg w)" if "io_sink R w" for R w
    using that by (rule io_sink.WriteFromSshDocker_keeps)
  show "\<exists>out. remote_output E out \<and> delivers w out v v'" if "WriteFromSshDocker E c cfg w v = (Ok (), v')" for w v v'
    using that unfolding WriteFromSshDocker_def Let_def
    by (rule bnd_delivers) (intro quiet_rules quiet_bin_paths, rule sshdocker_Run_delivers)
qed


section \<open>What a successful dump has written\<close>


definition to_nowhere :: io_writer where
  "to_nowhere c = ret ()"

definition dump_env :: env where
  "dump_env = ref_env\<lparr>run_proc := (\<lambda>t b a vars. quiet_proc (str_join '' '' (b # a)))\<rparr>"

definition dump_world :: world where
  "dump_world = world_of [([''d''], plain_file ''elf'')]"

lemma dump_env_runs:
  "WriteLocal dump_env \<lparr>lc_BinPath = ''/d'', lc_User = ''u'', lc_Pw = ''p'', lc_DbName = ''a b''\<rparr> to_nowhere dump_world
     = (Ok (), dump_world\<lparr>tick := 2, trace :=
          [EvExec ''/d'' [''-u'', ''u'', ''-pp'', ''--add-drop-database'', ''--databases'', ''a_b''] []]\<rparr>)"
  by code_simp





definition docker_cfg :: DockerCfg where
  "docker_cfg = \<lparr>dc_ContainerName = ''c'', dc_BinPath = ''d'', dc_User = ''u'', dc_Pw = [], dc_DbName = ''x''\<rparr>"

lemma docker_runs:
  "\<exists>v'. WriteFromDocker ref_env docker_cfg to_nowhere dump_world = (Ok (), v')"
  by (rule exI) code_simp



section \<open>Sessions\<close>

lemma keeps_sessions_in:
  "effects (keeps sessions) body \<Longrightarrow>
     effects (keeps sessions) (bnd (map_err f (Session E c)) (\<lambda>_. with_session E body))"
  using in_session_closed by (intro effectsI) (simp add: keeps_def)

lemma keeps_sessions_stream:
  assumes "\<And>c. effects (keeps sessions) (w c)"
  shows "effects (keeps sessions) (stream_ssh E a b d e cmd w)"
  unfolding stream_ssh_def io_copy_def proc_reader_def
  by (intro kp.keeps_bnd kp.keeps_case_prod kp.keeps_if kp.keeps_ret kp.keeps_check_err kp.keeps_map_err
      keeps_sessions_calls assms)

lemma keeps_sessions_output: "effects (keeps sessions) (CombinedOutput E cmd)"
  unfolding CombinedOutput_def by (intro kp.keeps_bnd keeps_sessions_calls)

text \<open>An error of closing is dropped here, the session is closed all the same.\<close>

lemma keeps_sessions_ignored:
  assumes "effects (keeps sessions) body"
  shows "effects (keeps sessions)
    (bnd (map_err f (Session E c)) (\<lambda>_. defer_ignore body (session_Close E)))"
proof (rule effectsI)
  fix v
  have "snd (defer_ignore body (session_Close E) u) = snd (with_session E body u)" for u
    by (auto simp: defer_ignore_def with_session_def defer_join_def split: prod.splits res.splits)
  then have "snd (bnd (map_err f (Session E c)) (\<lambda>_. defer_ignore body (session_Close E)) v) =
      snd (bnd (map_err f (Session E c)) (\<lambda>_. with_session E body) v)"
    by (auto simp: bnd_def split: prod.splits res.splits)
  then show "keeps sessions v (snd (bnd (map_err f (Session E c)) (\<lambda>_. defer_ignore body (session_Close E)) v))"
    using effects_snd [OF keeps_sessions_in [OF assms], of v f E c] by simp
qed

lemmas session_rules =
  kp.keeps_bnd kp.keeps_case_prod kp.keeps_if kp.keeps_ret kp.keeps_throw kp.keeps_check_err kp.keeps_map_err
  keeps_sessions_output keeps_sessions_calls

text \<open>The remote dumps leave as many ssh sessions open as there were, whatever fails, when the
  writer does not touch sessions itself.\<close>

lemma remote_dumps_close_sessions:
  assumes "\<And>c. effects (keeps sessions) (w c)"
  shows "sessions (snd (WriteFromRemote E c cfg w v)) = sessions v \<and>
    sessions (snd (WriteFromSshDocker E c dcfg w v)) = sessions v"
proof -
  have bin: "effects (keeps sessions) (GetRemoteBinPath E c)"
    unfolding GetRemoteBinPath_def Let_def by (rule keeps_sessions_in, intro session_rules)
  have run: "effects (keeps sessions) (remote_Run E c h w)" for h
    unfolding remote_Run_def by (intro keeps_sessions_in keeps_sessions_stream assms)
  have remote: "effects (keeps sessions) (WriteFromRemote E c cfg w)"
    unfolding WriteFromRemote_def Let_def by (intro session_rules bin run)
  have "effects (keeps sessions) (GetSshDockerBinPath E c n)" for n
    unfolding GetSshDockerBinPath_def Let_def
    by (rule keeps_sessions_ignored, rule kp.keeps_bnd, rule keeps_sessions_output, rule kp.keeps_case_prod,
      rule kp.keeps_bnd, rule kp.keeps_map_err, rule kp.keeps_check_err, rule keeps_sessions_ignored,
      intro session_rules)
  moreover have "effects (keeps sessions) (sshdocker_Run E c h w)" for h
    unfolding sshdocker_Run_def
    by (rule keeps_sessions_in, rule kp.keeps_bnd, rule keeps_sessions_output, rule kp.keeps_case_prod,
      rule kp.keeps_bnd, rule kp.keeps_map_err, rule kp.keeps_check_err, rule keeps_sessions_in,
      intro keeps_sessions_stream assms)
  ultimately have "effects (keeps sessions) (WriteFromSshDocker E c dcfg w)"
    unfolding WriteFromSshDocker_def Let_def by (intro session_rules)
  with remote show ?thesis by (simp add: effects_def keeps_def)
qed


section \<open>Arguments\<close>

lemma replace_char_gone: "c \<noteq> d \<Longrightarrow> c \<notin> set (replace_char c d s)"
  by (auto simp: replace_char_def)

lemma replace_char_other: "x \<notin> set s \<Longrightarrow> x \<noteq> d \<Longrightarrow> x \<notin> set (replace_char c d s)"
  by (auto simp: replace_char_def)

lemma sanitize_one_word:
  "CHR '' '' \<notin> set (sanitizeString s)" "CHR 0x0A \<notin> set (sanitizeString s)" "CHR 0x0D \<notin> set (sanitizeString s)"
  unfolding sanitizeString_def Let_def by (intro replace_char_other replace_char_gone; simp)+

lemma getArgs_one_word: "x \<in> set (getArgs u p d) \<Longrightarrow> CHR '' '' \<notin> set x"
  using sanitize_one_word(1) by (auto simp: getArgs_def split: if_splits)

text \<open>C35. Whatever blanks and line breaks user, password and database name contain, the command
  sent to a remote machine falls at its blanks exactly into the binary and the arguments, so
  that no value adds or swallows an argument.\<close>

theorem remote_Cmd_words:
  assumes "CHR '' '' \<notin> set (rh_binPath h)"
  shows "split_on (CHR '' '') (remote_Cmd h) =
    rh_binPath h # getArgs (rh_user h) (rh_pw h) (rh_dbName h)"
proof -
  have "remote_Cmd h = str_join '' '' (rh_binPath h # getArgs (rh_user h) (rh_pw h) (rh_dbName h))"
    by (simp add: remote_Cmd_def str_join_Cons getArgs_def)
  moreover have words: "CHR '' '' \<notin> set x" if "x \<in> set (rh_binPath h # getArgs (rh_user h) (rh_pw h) (rh_dbName h))" for x
    using that assms getArgs_one_word by auto
  ultimately show ?thesis using split_on_str_join [OF list.distinct(2) words] by simp
qed

theorem remote_Cmd_words_witness:
  "split_on (CHR '' '') (remote_Cmd \<lparr>rh_binPath = ''d'', rh_dbName = ''x y'', rh_user = '' a b '', rh_pw = []\<rparr>) =
     [''d'', ''-u'', ''a_b'', ''--add-drop-database'', ''--databases'', ''x_y'']"
proof -
  have "CHR '' '' \<notin> set (rh_binPath \<lparr>rh_binPath = ''d'', rh_dbName = ''x y'', rh_user = '' a b '', rh_pw = []\<rparr>)"
    by simp
  from remote_Cmd_words [OF this] show ?thesis by (simp add: getArgs_def) code_simp
qed


section \<open>Where the code loses something\<close>

text \<open>C36. A user that is configured without a password is forgotten when no configuration file of
  the database gives one: the dump then runs without a user, and no error is reported.\<close>

theorem NewLocal_forgets_user:
  assumes "lc_BinPath cfg \<noteq> []" and "lc_Pw cfg = []" and "current_home E = Some home"
    and "\<And>t f. ini_load E t f = Inl (ErrSentinel ErrNotExist)"
  shows "fst (NewLocal E cfg v) =
    Ok \<lparr>lh_binPath = lc_BinPath cfg, lh_dbName = lc_DbName cfg, lh_user = [], lh_pw = []\<rparr>"
proof -
  have skip: "bnd (attempt (service_sum (\<lambda>t. ini_load E t f))) k u = k (Inl (ErrSentinel ErrNotExist)) (tock u)"
    for f u and k :: "_ \<Rightarrow> (world, string \<times> string) go"
    by (simp add: bnd_def attempt_def service_sum_def service_def from_sum_def throw_def assms(4))
  have "read_cnf E [a, b] ([], []) u = (Ok ([], []), tock (tock u))" for a b u
    by (simp add: skip)
  then show ?thesis
    by (simp add: NewLocal_def Let_def assms(1-3) MysqlIniLocations_def loadCnfFiles_def bnd_def ret_def)
qed

theorem NewLocal_forgets_user_witness:
  "fst (NewLocal (ref_env\<lparr>ini_load := \<lambda>t f. Inl (ErrSentinel ErrNotExist)\<rparr>)
     \<lparr>lc_BinPath = ''d'', lc_User = ''backup'', lc_Pw = [], lc_DbName = ''x''\<rparr> dump_world) =
   Ok \<lparr>lh_binPath = ''d'', lh_dbName = ''x'', lh_user = [], lh_pw = []\<rparr>"
  by (subst NewLocal_forgets_user [where home = "''/root''"]) simp_all

end
