(* ===== verification/PgDump.thy ===== *)
theory PgDump
  imports DbExec
begin

text \<open>
  \<open>lib/pgdump\<close>: dumping a PostgreSQL database on this machine, in a local container, on a
  remote machine and in a container there. The package has the structure of
  \<open>lib/mysqldump\<close>; the arguments, the way the password is passed and some messages differ.
\<close>

section \<open>Local databases\<close>

record LocalCfg =
  lc_BinPath :: string
  lc_User :: string
  lc_Pw :: string
  lc_DbName :: string

record LocalHandler =
  lh_binPath :: string
  lh_dbName :: string
  lh_user :: string
  lh_pw :: string

definition sanitizeString :: "string \<Rightarrow> string" where
  "sanitizeString s =
     (let s = trim_space s;
          s = replace_char (CHR '' '') (CHR ''_'') s;
          s = replace_char (CHR 0x0A) (CHR ''_'') s;
          s = replace_char (CHR 0x0D) (CHR ''_'') s
      in s)"

definition getArgs :: "string \<Rightarrow> string \<Rightarrow> string \<Rightarrow> string list" where
  "getArgs user pass dbname =
     (if user \<noteq> [] then [''-U'', sanitizeString user] else []) @
     (if pass \<noteq> [] then [''-W''] else []) @
     [''--clean'', ''--if-exists'', ''--create'', ''--verbose'', sanitizeString dbname]"

text \<open>\<open>user.Current\<close> failing leaves a nil user, and reading its home directory panics.\<close>

definition PostgresIniLocations :: "env \<Rightarrow> (world, string list) go" where
  "PostgresIniLocations E =
     (case current_home E of
        None \<Rightarrow> gopanic
      | Some home \<Rightarrow>
          ret [''/etc/postgresql/postgresql.conf'', path_join [home, ''/.pgpass''], path_join [home, ''/.psqlrc'']])"

text \<open>
  The files are read in order and later ones win. \<open>ini_load\<close> gives the value of a key of a
  section, if the file has it; a missing file is skipped.
\<close>

fun read_cnf :: "env \<Rightarrow> string list \<Rightarrow> string \<times> string \<Rightarrow> (world, string \<times> string) go" where
  "read_cnf E [] up = ret up"
| "read_cnf E (file # files) (usr, pw) =
     bnd (attempt (service_sum (\<lambda>t. ini_load E t file))) (\<lambda>r.
     case r of
       Inl e \<Rightarrow> if errors_is e ErrNotExist then read_cnf E files (usr, pw) else throw e
     | Inr cfg \<Rightarrow>
         read_cnf E files
           (case cfg ''postgres'' ''user'' of Some u \<Rightarrow> u | None \<Rightarrow> usr,
            case cfg ''postgres'' ''password'' of Some q \<Rightarrow> q | None \<Rightarrow> pw))"

definition loadCnfFiles :: "env \<Rightarrow> LocalHandler \<Rightarrow> string list \<Rightarrow> (world, LocalHandler) go" where
  "loadCnfFiles E h files =
     bnd (read_cnf E files ([], [])) (\<lambda>(usr, pw). ret (h\<lparr>lh_user := usr, lh_pw := pw\<rparr>))"

definition GetLocalBinPath :: "env \<Rightarrow> (world, string) go" where
  "GetLocalBinPath E = bnd (from_sum (look_path E ''pg_dump'')) (\<lambda>binPath. ret (abs_path (wd E) binPath))"

definition NewLocal :: "env \<Rightarrow> LocalCfg \<Rightarrow> (world, LocalHandler) go" where
  "NewLocal E cfg =
     bnd (if lc_BinPath cfg = [] then
            map_err (errorf_w ''unable to get path for pg_dump: '') (GetLocalBinPath E)
          else ret (lc_BinPath cfg)) (\<lambda>binPath.
     let h = \<lparr>lh_binPath = binPath, lh_dbName = lc_DbName cfg, lh_user = lc_User cfg, lh_pw = lc_Pw cfg\<rparr> in
     if lc_User cfg = [] \<or> lc_Pw cfg = [] then
       bnd (PostgresIniLocations E) (\<lambda>files. loadCnfFiles E h files)
     else ret h)"

definition Cmd :: "LocalHandler \<Rightarrow> string \<times> string list" where
  "Cmd h = (lh_binPath h, getArgs (lh_user h) (lh_pw h) (lh_dbName h))"

definition Run :: "env \<Rightarrow> LocalHandler \<Rightarrow> io_writer \<Rightarrow> (world, unit) go" where
  "Run E h w =
     bnd (attempt (os_stat E (lh_binPath h))) (\<lambda>r.
     case r of
       Inl e \<Rightarrow>
         if errors_is e ErrNotExist then throw (ErrNew (''binary not found at path: '' @ lh_binPath h))
         else throw (errorf_w ''failed to check binary path: '' e)
     | Inr info \<Rightarrow>
         run_process E ''pg_dump'' (lh_binPath h) (getArgs (lh_user h) (lh_pw h) (lh_dbName h)) (if lh_pw h \<noteq> [] then [''PGPASSWORD='' @ lh_pw h] else []) w)"

definition WriteLocal :: "env \<Rightarrow> LocalCfg \<Rightarrow> io_writer \<Rightarrow> (world, unit) go" where
  "WriteLocal E cfg w = bnd (NewLocal E cfg) (\<lambda>h. Run E h w)"


section \<open>Databases in containers\<close>

record DockerCfg =
  dc_ContainerName :: string
  dc_BinPath :: string
  dc_User :: string
  dc_Pw :: string
  dc_DbName :: string

record DockerHandler =
  dh_binPath :: string
  dh_containerName :: string
  dh_dbName :: string
  dh_user :: string
  dh_pw :: string

definition NewDocker :: "env \<Rightarrow> DockerCfg \<Rightarrow> (world, DockerHandler) go" where
  "NewDocker E cfg =
     bnd (map_err (errorf_v ''unable to create docker client: '') (NewDockerClient E)) (\<lambda>_.
     ret \<lparr>dh_binPath = (if dc_BinPath cfg = [] then ''pg_dump'' else dc_BinPath cfg),
          dh_containerName = dc_ContainerName cfg, dh_dbName = dc_DbName cfg,
          dh_user = dc_User cfg, dh_pw = dc_Pw cfg\<rparr>)"

definition SetBinPath :: "DockerHandler \<Rightarrow> string \<Rightarrow> DockerHandler" where
  "SetBinPath h p = h\<lparr>dh_binPath := p\<rparr>"

definition docker_Cmd :: "DockerHandler \<Rightarrow> string" where
  "docker_Cmd h = dh_binPath h @ '' '' @ str_join '' '' (getArgs (dh_user h) (dh_pw h) (dh_dbName h))"

text \<open>With a password the exec is created a second time, with the password in its environment.\<close>

definition docker_Run :: "env \<Rightarrow> DockerHandler \<Rightarrow> io_writer \<Rightarrow> (world, unit) go" where
  "docker_Run E h w =
     (let args = getArgs (dh_user h) (dh_pw h) (dh_dbName h) in
      bnd (map_err (errorf_v ''unable to create container exec: '')
             (ContainerExecCreate E (dh_containerName h) (dh_binPath h # args) [])) (\<lambda>execResp.
      bnd (if dh_pw h \<noteq> [] then
             map_err (errorf_v ''unable to create container exec with password: '')
               (ContainerExecCreate E (dh_containerName h) (dh_binPath h # args) [''PGPASSWORD='' @ dh_pw h])
           else ret execResp) (\<lambda>execResp.
      bnd (map_err (errorf_v ''unable to attach to container exec: '') (ContainerExecAttach E execResp)) (\<lambda>output.
      bnd (map_err (errorf_v ''unable to copy pg_dump output to zip: '') (io_copy w (demux_reader E output))) (\<lambda>_.
      bnd (map_err (errorf_v ''unable to inspect container exec: '') (ContainerExecInspect E execResp)) (\<lambda>exitCode.
      if exitCode \<noteq> 0 then throw (ErrNew (''pg_dump failed with exit code '' @ show_int exitCode))
      else ret ()))))))"

text \<open>When \<open>which\<close> finds nothing the path is empty and there is no error.\<close>

text \<open>
  The header of the first frame of the stream is skipped by reading eight bytes; an empty
  stream ends there with \<open>io.EOF\<close>. The rest is taken as it is, headers of later frames
  included.
\<close>

definition read_header :: "string \<Rightarrow> (world, string) go" where
  "read_header s = (if s = [] then throw (ErrSentinel ErrEOF) else ret (drop 8 s))"

definition GetDockerBinPath :: "env \<Rightarrow> string \<Rightarrow> (world, string) go" where
  "GetDockerBinPath E containerName =
     bnd (map_err (errorf_v ''unable to create which command exec: '')
            (ContainerExecCreate E containerName [''which'', ''pg_dump''] [])) (\<lambda>whichResp.
     bnd (map_err (errorf_v ''unable to attach to which command exec: '') (ContainerExecAttach E whichResp)) (\<lambda>whichOutput.
     bnd (map_err (errorf_v ''unable to read Docker protocol header: '') (read_header whichOutput)) (\<lambda>pathBytes.
     bnd (map_err (errorf_v ''unable to read which command output: '') (service_err (docker_read E))) (\<lambda>_.
     bnd (map_err (errorf_v ''unable to inspect which command exec: '') (ContainerExecInspect E whichResp)) (\<lambda>exitCode.
     ret (if exitCode = 0 \<and> pathBytes \<noteq> [] then trim_space pathBytes else []))))))"

definition WriteFromDocker :: "env \<Rightarrow> DockerCfg \<Rightarrow> io_writer \<Rightarrow> (world, unit) go" where
  "WriteFromDocker E cfg w =
     bnd (NewDocker E cfg) (\<lambda>h.
     defer_join (\<lambda>_. True)
       (bnd (if dc_BinPath cfg = [] then
               bnd (map_err (errorf_w ''unable to get path for pg_dump: '')
                      (GetDockerBinPath E (dc_ContainerName cfg))) (\<lambda>binPath.
               ret (SetBinPath h binPath))
             else ret h) (\<lambda>h.
        docker_Run E h w))
       (docker_Close E))"


section \<open>Databases on a remote machine\<close>

record RemoteCfg =
  rc_BinPath :: string
  rc_User :: string
  rc_Pw :: string
  rc_DbName :: string

record RemoteHandler =
  rh_binPath :: string
  rh_dbName :: string
  rh_user :: string
  rh_pw :: string

definition NewRemote :: "RemoteCfg \<Rightarrow> RemoteHandler" where
  "NewRemote cfg =
     \<lparr>rh_binPath = (if rc_BinPath cfg = [] then ''pg_dump'' else rc_BinPath cfg),
      rh_dbName = rc_DbName cfg, rh_user = rc_User cfg, rh_pw = rc_Pw cfg\<rparr>"

definition remote_SetBinPath :: "RemoteHandler \<Rightarrow> string \<Rightarrow> RemoteHandler" where
  "remote_SetBinPath h p = h\<lparr>rh_binPath := p\<rparr>"

definition remote_Cmd :: "RemoteHandler \<Rightarrow> string" where
  "remote_Cmd h = rh_binPath h @ '' '' @ str_join '' '' (getArgs (rh_user h) (rh_pw h) (rh_dbName h))"

definition GetRemoteBinPath :: "env \<Rightarrow> Client \<Rightarrow> (world, string) go" where
  "GetRemoteBinPath E c =
     bnd (map_err (errorf_v ''unable to create ssh session: '') (Session E c)) (\<lambda>_.
     with_session E
       (bnd (CombinedOutput E ''which pg_dump'') (\<lambda>(output, err).
        bnd (map_err (errorf_v ''unable to execute which command: '') (check_err err)) (\<lambda>_.
        let path = trim_space output in
        if path = [] then throw (ErrNew ''pg_dump not found on remote machine'')
        else ret path))))"

definition remote_command :: "RemoteHandler \<Rightarrow> string" where
  "remote_command h =
     (if rh_pw h \<noteq> [] then ''PGPASSWORD='' @ rh_pw h @ '' '' @ remote_Cmd h else remote_Cmd h)"

definition remote_Run :: "env \<Rightarrow> Client \<Rightarrow> RemoteHandler \<Rightarrow> io_writer \<Rightarrow> (world, unit) go" where
  "remote_Run E c h w =
     bnd (map_err (errorf_w ''unable to create ssh session: '') (Session E c)) (\<lambda>_.
     with_session E
       (stream_ssh E (errorf_w ''unable to set stdout pipe, '') (errorf_w ''unable to start ssh command: '')
          (errorf_w ''error writing output to writer: '') (errorf_w ''error with ssh command: '') (remote_command h) w))"

definition WriteFromRemote :: "env \<Rightarrow> Client \<Rightarrow> RemoteCfg \<Rightarrow> io_writer \<Rightarrow> (world, unit) go" where
  "WriteFromRemote E c cfg w =
     (let h = NewRemote cfg in
      bnd (if rc_BinPath cfg = [] then
             bnd (map_err (errorf_w ''unable to get path for pg_dump: '') (GetRemoteBinPath E c)) (\<lambda>binPath.
             ret (remote_SetBinPath h binPath))
           else ret h) (\<lambda>h.
      remote_Run E c h w))"


section \<open>Databases in containers on a remote machine\<close>

record SshDockerCfg =
  sd_ContainerName :: string
  sd_BinPath :: string
  sd_User :: string
  sd_Pw :: string
  sd_DbName :: string

record SshDockerHandler =
  sh_binPath :: string
  sh_containerName :: string
  sh_dbName :: string
  sh_user :: string
  sh_pw :: string

definition NewSshDocker :: "SshDockerCfg \<Rightarrow> SshDockerHandler" where
  "NewSshDocker cfg =
     \<lparr>sh_binPath = (if sd_BinPath cfg = [] then ''pg_dump'' else sd_BinPath cfg),
      sh_containerName = sd_ContainerName cfg, sh_dbName = sd_DbName cfg,
      sh_user = sd_User cfg, sh_pw = sd_Pw cfg\<rparr>"

definition sshdocker_SetBinPath :: "SshDockerHandler \<Rightarrow> string \<Rightarrow> SshDockerHandler" where
  "sshdocker_SetBinPath h p = h\<lparr>sh_binPath := p\<rparr>"

definition sshdocker_Cmd :: "SshDockerHandler \<Rightarrow> string" where
  "sshdocker_Cmd h = sh_binPath h @ '' '' @ str_join '' '' (getArgs (sh_user h) (sh_pw h) (sh_dbName h))"

text \<open>
  The results of \<open>GetSshDockerBinPath\<close> have no names, so what its deferred functions put in
  \<open>err\<close> is lost: errors of closing the sessions are dropped.
\<close>

definition GetSshDockerBinPath :: "env \<Rightarrow> Client \<Rightarrow> string \<Rightarrow> (world, string) go" where
  "GetSshDockerBinPath E c containerName =
     bnd (map_err (errorf_v ''unable to create ssh session: '') (Session E c)) (\<lambda>_.
     defer_ignore
       (bnd (CombinedOutput E ''which docker'') (\<lambda>(output, err).
        bnd (map_err (errorf_v ''docker is not available on the remote server: '') (check_err err)) (\<lambda>_.
        bnd (map_err (errorf_v ''unable to create second ssh session: '') (Session E c)) (\<lambda>_.
        defer_ignore
          (bnd (CombinedOutput E (''docker exec '' @ containerName @ '' which pg_dump'')) (\<lambda>(output, err).
           bnd (map_err (errorf_v (''pg_dump not found in container '' @ containerName @ '': '')) (check_err err)) (\<lambda>_.
           let path = trim_space output in
           if path = [] then throw (ErrNew (''pg_dump path is empty in container '' @ containerName))
           else ret path)))
          (session_Close E)))))
       (session_Close E))"

definition docker_command :: "SshDockerHandler \<Rightarrow> string" where
  "docker_command h =
     (if sh_pw h \<noteq> [] then
        ''docker exec -e PGPASSWORD='' @ sh_pw h @ '' '' @ sh_containerName h @ '' '' @ sh_binPath h @ '' '' @
        str_join '' '' (getArgs (sh_user h) (sh_pw h) (sh_dbName h))
      else
        ''docker exec '' @ sh_containerName h @ '' '' @ sh_binPath h @ '' '' @
        str_join '' '' (getArgs (sh_user h) (sh_pw h) (sh_dbName h)))"

definition sshdocker_Run :: "env \<Rightarrow> Client \<Rightarrow> SshDockerHandler \<Rightarrow> io_writer \<Rightarrow> (world, unit) go" where
  "sshdocker_Run E c h w =
     bnd (map_err (errorf_v ''unable to create ssh session for docker check: '') (Session E c)) (\<lambda>_.
     with_session E
       (bnd (CombinedOutput E ''which docker'') (\<lambda>(output, err).
        bnd (map_err (errorf_v ''docker is not available on the remote server: '') (check_err err)) (\<lambda>_.
        bnd (map_err (errorf_v ''unable to create ssh session for docker execution: '') (Session E c)) (\<lambda>_.
        with_session E
          (stream_ssh E (errorf_v ''unable to set stdout pipe, '') (errorf_v ''unable to start ssh command: '')
             (errorf_v ''unable to copy pg_dump output: '') (errorf_v ''error with ssh command: '')
             (docker_command h) w))))))"

definition WriteFromSshDocker :: "env \<Rightarrow> Client \<Rightarrow> SshDockerCfg \<Rightarrow> io_writer \<Rightarrow> (world, unit) go" where
  "WriteFromSshDocker E c cfg w =
     (let h = NewSshDocker cfg in
      bnd (if sd_BinPath cfg = [] then
             bnd (map_err (errorf_w ''unable to get path for pg_dump: '')
                    (GetSshDockerBinPath E c (sd_ContainerName cfg))) (\<lambda>binPath.
             ret (sshdocker_SetBinPath h binPath))
           else ret h) (\<lambda>h.
      sshdocker_Run E c h w))"

section \<open>Every dump keeps the contract\<close>

text \<open>Everything before the dump itself leaves the files alone.\<close>

lemma pg_quiet_read_cnf: "effects (keeps files_part) (read_cnf E files up)"
proof (induction files arbitrary: up)
  case Nil
  then show ?case by (cases up) (simp add: kp.keeps_ret)
next
  case (Cons f files)
  then show ?case
    by (cases up) (auto intro!: kp.keeps_bnd kp.keeps_attempt quiet_calls kp.keeps_throw split: sum.splits)
qed

lemma pg_quiet_NewLocal: "effects (keeps files_part) (NewLocal E cfg)"
  unfolding NewLocal_def Let_def GetLocalBinPath_def PostgresIniLocations_def loadCnfFiles_def
  by (intro quiet_rules pg_quiet_read_cnf)

lemma pg_quiet_bin_paths:
  "effects (keeps files_part) (GetDockerBinPath E name)" "effects (keeps files_part) (GetRemoteBinPath E c)"
  "effects (keeps files_part) (GetSshDockerBinPath E c name)"
  unfolding GetDockerBinPath_def GetRemoteBinPath_def GetSshDockerBinPath_def with_session_def Let_def read_header_def
  by (intro quiet_rules)+

lemma pg_quiet_NewDocker: "effects (keeps files_part) (NewDocker E cfg)"
  unfolding NewDocker_def by (intro quiet_rules)

context io_sink
begin

lemma WriteLocal_keeps: "effects R (WriteLocal E cfg sink)"
  unfolding WriteLocal_def Run_def by (intro dump_keeps_rules from_quiet pg_quiet_NewLocal quiet_all kp.keeps_attempt)

lemma WriteFromDocker_keeps: "effects R (WriteFromDocker E cfg sink)"
  unfolding WriteFromDocker_def docker_Run_def Let_def
  by (intro dump_keeps_rules from_quiet pg_quiet_NewDocker pg_quiet_bin_paths quiet_all)

lemma WriteFromRemote_keeps: "effects R (WriteFromRemote E c cfg sink)"
  unfolding WriteFromRemote_def remote_Run_def with_session_def Let_def
  by (intro dump_keeps_rules from_quiet pg_quiet_bin_paths quiet_all)

lemma WriteFromSshDocker_keeps: "effects R (WriteFromSshDocker E c cfg sink)"
  unfolding WriteFromSshDocker_def sshdocker_Run_def with_session_def Let_def
  by (intro dump_keeps_rules keeps_case_prod keeps_check_err from_quiet pg_quiet_bin_paths quiet_all)

end

lemma pg_Run_delivers: "Run E h w v = (Ok (), v') \<Longrightarrow> \<exists>out. proc_output E out \<and> delivers w out v v'"
  unfolding Run_def
  by (erule bnd_delivers) (intro quiet_rules, auto split: sum.splits if_splits dest: run_process_delivers)

interpretation local_dump: dumper "WriteLocal E cfg" "proc_output E" for E cfg
proof
  show "effects R (WriteLocal E cfg w)" if "io_sink R w" for R w
    using that by (rule io_sink.WriteLocal_keeps)
  show "\<exists>out. proc_output E out \<and> delivers w out v v'" if "WriteLocal E cfg w v = (Ok (), v')" for w v v'
    using that unfolding WriteLocal_def by (rule bnd_delivers [OF _ pg_quiet_NewLocal]) (rule pg_Run_delivers)
qed

lemma pg_docker_Run_Ok:
  assumes "docker_Run E h w v = (Ok (), v')"
  shows "\<exists>i u stream u3 u4. keeps files_part v u \<and> ContainerExecAttach E i u = (Ok stream, u3) \<and>
      io_copy w (demux_reader E stream) u3 = (Ok (), u4) \<and> ContainerExecInspect E i u4 = (Ok 0, v')"
proof -
  let ?args = "dh_binPath h # getArgs (dh_user h) (dh_pw h) (dh_dbName h)"
  obtain j u where c: "ContainerExecCreate E (dh_containerName h) ?args [] v = (Ok j, u)"
      and r: "\<exists>i u2 stream u3 u4. (if dh_pw h \<noteq> [] then
          ContainerExecCreate E (dh_containerName h) ?args [''PGPASSWORD='' @ dh_pw h] else ret j) u = (Ok i, u2) \<and>
        ContainerExecAttach E i u2 = (Ok stream, u3) \<and>
        io_copy w (demux_reader E stream) u3 = (Ok (), u4) \<and> ContainerExecInspect E i u4 = (Ok 0, v')"
    using assms by (auto simp: docker_Run_def Let_def split: if_splits)
  obtain i u2 where i: "(if dh_pw h \<noteq> [] then
          ContainerExecCreate E (dh_containerName h) ?args [''PGPASSWORD='' @ dh_pw h] else ret j) u = (Ok i, u2)"
      and s: "\<exists>stream u3 u4. ContainerExecAttach E i u2 = (Ok stream, u3) \<and>
        io_copy w (demux_reader E stream) u3 = (Ok (), u4) \<and> ContainerExecInspect E i u4 = (Ok 0, v')"
    using r by blast
  have q: "effects (keeps files_part) (if dh_pw h \<noteq> [] then
      ContainerExecCreate E (dh_containerName h) ?args [''PGPASSWORD='' @ dh_pw h] else ret j)"
    by (intro quiet_rules)
  have "keeps files_part v u2"
    using effectsD [OF quiet_docker(1) c] effectsD [OF q i] by (simp add: files_part_eq)
  then show ?thesis using s by blast
qed

lemma pg_docker_Run_delivers:
  assumes "docker_Run E h w v = (Ok (), v')"
  shows "\<exists>out. exec_output E out \<and> delivers w out v v'"
proof -
  obtain i u stream u3 u4 where v: "keeps files_part v u" and a: "ContainerExecAttach E i u = (Ok stream, u3)"
      and io: "io_copy w (demux_reader E stream) u3 = (Ok (), u4)" and x: "ContainerExecInspect E i u4 = (Ok 0, v')"
    using pg_docker_Run_Ok [OF assms] by blast
  obtain out where out: "docker_demux E (tick u3) stream = (out, None)" "delivers w out u3 u4"
    using demux_copy_Ok [OF io] by blast
  have "exec_output E out" using a x out(1) unfolding exec_output_def docker_calls_Ok by blast
  moreover have "keeps files_part v u3"
    using v effectsD [OF quiet_docker(2) a] by (simp add: files_part_eq)
  then have "delivers w out v v'"
    using out(2) effectsD [OF quiet_docker(3) x] delivers_before delivers_after by blast
  ultimately show ?thesis by blast
qed

interpretation docker_dump: dumper "WriteFromDocker E cfg" "exec_output E" for E cfg
proof
  show "effects R (WriteFromDocker E cfg w)" if "io_sink R w" for R w
    using that by (rule io_sink.WriteFromDocker_keeps)
  show "\<exists>out. exec_output E out \<and> delivers w out v v'" if "WriteFromDocker E cfg w v = (Ok (), v')" for w v v'
    using that unfolding WriteFromDocker_def
    by (rule bnd_delivers [OF _ pg_quiet_NewDocker], elim deferred_delivers [OF _ _ quiet_docker(5)])
      (erule bnd_delivers, intro quiet_rules pg_quiet_bin_paths, erule pg_docker_Run_delivers)
qed

interpretation remote_dump: dumper "WriteFromRemote E c cfg" "remote_output E" for E c cfg
proof
  show "effects R (WriteFromRemote E c cfg w)" if "io_sink R w" for R w
    using that by (rule io_sink.WriteFromRemote_keeps)
  show "\<exists>out. remote_output E out \<and> delivers w out v v'" if "WriteFromRemote E c cfg w v = (Ok (), v')" for w v v'
    using that unfolding WriteFromRemote_def remote_Run_def Let_def
    by (rule bnd_delivers, intro quiet_rules pg_quiet_bin_paths)
      (erule session_delivers, erule stream_ssh_delivers)
qed

lemma pg_sshdocker_Run_delivers: "sshdocker_Run E c h w v = (Ok (), v') \<Longrightarrow> \<exists>out. remote_output E out \<and> delivers w out v v'"
  unfolding sshdocker_Run_def
  by (erule session_delivers, erule bnd_delivers, rule quiet_all, simp split: prod.splits,
    erule bnd_delivers, intro quiet_rules, erule session_delivers, erule stream_ssh_delivers)

interpretation sshdocker_dump: dumper "WriteFromSshDocker E c cfg" "remote_output E" for E c cfg
proof
  show "effects R (WriteFromSshDocker E c cfg w)" if "io_sink R w" for R w
    using that by (rule io_sink.WriteFromSshDocker_keeps)
  show "\<exists>out. remote_output E out \<and> delivers w out v v'" if "WriteFromSshDocker E c cfg w v = (Ok (), v')" for w v v'
    using that unfolding WriteFromSshDocker_def Let_def
    by (rule bnd_delivers) (intro quiet_rules pg_quiet_bin_paths, rule pg_sshdocker_Run_delivers)
qed


section \<open>What a successful dump has written\<close>


definition to_nowhere :: io_writer where
  "to_nowhere c = ret ()"

definition dump_world :: world where
  "dump_world = world_of [([''d''], plain_file ''elf'')]"

lemma dump_runs:
  "\<exists>v'. WriteLocal ref_env \<lparr>lc_BinPath = ''/d'', lc_User = ''u'', lc_Pw = ''p'', lc_DbName = ''a b''\<rparr>
     to_nowhere dump_world = (Ok (), v')"
  by (rule exI) code_simp



section \<open>The password on the command line\<close>

lemma pg_sanitize_one_word: "CHR '' '' \<notin> set (sanitizeString s)"
  by (auto simp: sanitizeString_def Let_def replace_char_def)

lemma pg_getArgs_one_word: "x \<in> set (getArgs u p d) \<Longrightarrow> CHR '' '' \<notin> set x"
  using pg_sanitize_one_word by (auto simp: getArgs_def split: if_splits)

text \<open>C37. On a remote machine the password stands in the command line as it is. With a blank in it,
  only its first part is the password; the shell then runs its second part as the command, with
  the dump tool as an argument.\<close>

theorem remote_command_splits_password:
  assumes "rh_pw h = p1 @ '' '' @ p2" and "CHR '' '' \<notin> set p1" and "CHR '' '' \<notin> set p2"
    and "CHR '' '' \<notin> set (rh_binPath h)"
  shows "split_on (CHR '' '') (remote_command h) =
    (''PGPASSWORD='' @ p1) # p2 # rh_binPath h # getArgs (rh_user h) (rh_pw h) (rh_dbName h)"
proof -
  let ?words = "(''PGPASSWORD='' @ p1) # p2 # rh_binPath h # getArgs (rh_user h) (rh_pw h) (rh_dbName h)"
  have "remote_command h = str_join '' '' ?words"
    using assms(1) by (simp add: remote_command_def remote_Cmd_def str_join_Cons getArgs_def)
  moreover have words: "CHR '' '' \<notin> set x" if "x \<in> set ?words" for x
    using that assms(2-4) pg_getArgs_one_word by auto
  moreover have "split_on (CHR '' '') (str_join '' '' ?words) = ?words"
    by (rule split_on_str_join [OF list.distinct(2)]) (rule words)
  ultimately show ?thesis by (simp only:)
qed

theorem remote_command_splits_password_witness:
  "hd (tl (split_on (CHR '' '')
     (remote_command \<lparr>rh_binPath = ''d'', rh_dbName = ''x'', rh_user = ''u'', rh_pw = ''a reboot''\<rparr>))) = ''reboot''"
proof -
  let ?h = "\<lparr>rh_binPath = ''d'', rh_dbName = ''x'', rh_user = ''u'', rh_pw = ''a reboot''\<rparr>"
  show ?thesis by (subst remote_command_splits_password [of ?h "''a''" "''reboot''"]) simp_all
qed

end
