(* ===== verification/Backup.thy ===== *)
theory Backup
  imports Files Scp MysqlDump PgDump
begin

text \<open>
  The pieces of \<open>app/goback/goback.go\<close> a run is made of: preparing the destination, writing
  one backup of local or remote data, its owner and mode, and deleting it after an error.
\<close>

section \<open>The destination\<close>

definition prepareDestination :: "env \<Rightarrow> string \<Rightarrow> (world, unit) go" where
  "prepareDestination E dest =
     bnd (attempt (os_stat E dest)) (\<lambda>r.
     bnd (case r of
            Inr fInfo \<Rightarrow> ret fInfo
          | Inl err \<Rightarrow>
              if errors_is err ErrNotExist then
                bnd (map_err (\<lambda>mkdirErr. errorf_v ''unable to create backup destination: '' err) (os_mkdir E dest)) (\<lambda>_.
                map_err (errorf_v ''unable to stat destination: '') (os_stat E dest))
              else throw (errorf_v ''unable to stat destination: '' err)) (\<lambda>fInfo.
     if \<not> IsDir fInfo then throw (ErrNew ''the output path is not a directory'') else ret ()))"

definition delZipAndErr :: "env \<Rightarrow> string \<Rightarrow> goerr \<Rightarrow> (world, unit) go" where
  "delZipAndErr E dest err =
     bnd (attempt (os_remove E dest)) (\<lambda>r.
     case r of
       Inl e \<Rightarrow> throw (ErrNew (''unable to delete incomplete zip file due to: '' @ error_text e @
                              '' while handling error: '' @ error_text err))
     | Inr _ \<Rightarrow> throw err)"


section \<open>Owner and mode\<close>

text \<open>
  \<open>strconv\<close>: digits from left to right, up to the first that is no digit of the base or that
  takes the number over the limit.
\<close>

definition num_error :: "string \<Rightarrow> string \<Rightarrow> string \<Rightarrow> goerr" where
  "num_error fn s what = ErrNew (''strconv.'' @ fn @ '': parsing '' @ go_quote s @ '': '' @ what)"

definition syntax_error :: string where
  "syntax_error = ''invalid syntax''"

definition range_error :: string where
  "range_error = ''value out of range''"

fun parse_digits :: "nat \<Rightarrow> nat \<Rightarrow> nat \<Rightarrow> string \<Rightarrow> string + nat" where
  "parse_digits b limit n [] = Inr n"
| "parse_digits b limit n (c # cs) =
     (if \<not> is_digit c \<or> b \<le> digit_val c then Inl syntax_error
      else if limit \<le> b * n + digit_val c then Inl range_error
      else parse_digits b limit (b * n + digit_val c) cs)"

text \<open>\<open>strconv.ParseUint(s, 8, 32)\<close>\<close>

definition parse_octal :: "string \<Rightarrow> goerr + nat" where
  "parse_octal s =
     (if s = [] then Inl (num_error ''ParseUint'' s syntax_error)
      else case parse_digits 8 (2 ^ 32) 0 s of
        Inl what \<Rightarrow> Inl (num_error ''ParseUint'' s what)
      | Inr n \<Rightarrow> Inr n)"

text \<open>\<open>strconv.Atoi\<close> on a 64-bit machine.\<close>

definition atoi :: "string \<Rightarrow> goerr + int" where
  "atoi s =
     (let neg = (s \<noteq> [] \<and> hd s = CHR ''-'');
          ds = (if s \<noteq> [] \<and> (hd s = CHR ''-'' \<or> hd s = CHR ''+'') then tl s else s) in
      if ds = [] then Inl (num_error ''Atoi'' s syntax_error)
      else case parse_digits 10 (2 ^ 64) 0 ds of
        Inl what \<Rightarrow> Inl (num_error ''Atoi'' s what)
      | Inr n \<Rightarrow>
          if \<not> neg \<and> 2 ^ 63 \<le> n \<or> neg \<and> 2 ^ 63 < n then Inl (num_error ''Atoi'' s range_error)
          else Inr (if neg then - int n else int n))"

text \<open>
  What \<open>os.Chmod\<close> hands to the kernel: the nine permission bits, and setuid, setgid and
  sticky from the high bits where \<open>os.FileMode\<close> keeps them.
\<close>

definition syscallMode :: "32 word \<Rightarrow> 32 word" where
  "syscallMode m =
     Bit_Operations.or (Bit_Operations.and m 511)
       (Bit_Operations.or (if bit m 23 then 2048 else 0)
         (Bit_Operations.or (if bit m 22 then 1024 else 0) (if bit m 20 then 512 else 0)))"

definition chown :: "env \<Rightarrow> string \<Rightarrow> string \<Rightarrow> (world, unit) go" where
  "chown E f owner =
     bnd (map_err (errorf_v ''unable to find user: '') (from_sum (user_lookup E owner))) (\<lambda>(Uid, Gid).
     bnd (map_err (errorf_v ''user to id conversion: '') (from_sum (atoi Uid))) (\<lambda>uid.
     bnd (map_err (errorf_v ''user to gid conversion: '') (from_sum (atoi Gid))) (\<lambda>gid.
     map_err (errorf_v ''chown failed: '') (os_chown E f uid gid))))"

definition chmod :: "env \<Rightarrow> string \<Rightarrow> string \<Rightarrow> (world, unit) go" where
  "chmod E f mode =
     bnd (map_err (errorf_v ''type conversion: '') (from_sum (parse_octal mode))) (\<lambda>octal.
     map_err (errorf_v ''chmod failed: '') (os_chmod E f (syscallMode (word_of_nat octal))))"


section \<open>Local data\<close>

definition backupLocalDatabase :: "env \<Rightarrow> BackupDb \<Rightarrow> Handler \<Rightarrow> (world, unit) go" where
  "backupLocalDatabase E db z =
     (if db_Type db = DbMysql \<or> db_Type db = DbMaria then
        bnd (FileWriter E z (path_join [''_mysqldump'', db_Name db @ ''.dump.sql''])) (\<lambda>zipWriter.
        MysqlDump.WriteLocal E
          \<lparr>MysqlDump.LocalCfg.lc_BinPath = [], MysqlDump.LocalCfg.lc_User = db_User db, MysqlDump.LocalCfg.lc_Pw = db_Password db,
           MysqlDump.LocalCfg.lc_DbName = db_Name db\<rparr> zipWriter)
      else if db_Type db = DbDockerMaria \<or> db_Type db = DbDockerMysql then
        bnd (FileWriter E z (path_join [''_mysqldump'', db_Name db @ ''.dump.sql''])) (\<lambda>zipWriter.
        MysqlDump.WriteFromDocker E
          \<lparr>MysqlDump.DockerCfg.dc_ContainerName = db_ContainerName db, MysqlDump.DockerCfg.dc_BinPath = [],
           MysqlDump.DockerCfg.dc_User = db_User db, MysqlDump.DockerCfg.dc_Pw = db_Password db, MysqlDump.DockerCfg.dc_DbName = db_Name db\<rparr> zipWriter)
      else if db_Type db = DbPostgres then
        bnd (FileWriter E z (path_join [''_postgres'', db_Name db @ ''.dump.sql''])) (\<lambda>zipWriter.
        PgDump.WriteLocal E
          \<lparr>PgDump.LocalCfg.lc_BinPath = [], PgDump.LocalCfg.lc_User = db_User db, PgDump.LocalCfg.lc_Pw = db_Password db,
           PgDump.LocalCfg.lc_DbName = db_Name db\<rparr> zipWriter)
      else if db_Type db = DbDockerPostgres then
        bnd (FileWriter E z (path_join [''_postgres'', db_Name db @ ''.dump.sql''])) (\<lambda>zipWriter.
        PgDump.WriteFromDocker E
          \<lparr>PgDump.DockerCfg.dc_ContainerName = db_ContainerName db, PgDump.DockerCfg.dc_BinPath = [],
           PgDump.DockerCfg.dc_User = db_User db, PgDump.DockerCfg.dc_Pw = db_Password db, PgDump.DockerCfg.dc_DbName = db_Name db\<rparr> zipWriter)
      else throw (ErrNew (''unknown db type: '' @ db_Type db)))"

text \<open>After an error the handler stays open: nothing closes it.\<close>

definition backupLocal :: "env \<Rightarrow> Profile \<Rightarrow> string \<Rightarrow> (world, unit) go" where
  "backupLocal E prfl zipDestination =
     bnd (New E zipDestination) (\<lambda>zipHandler.
     bnd (for_each (prf_Dirs prfl) (\<lambda>bkpDir. copyLocalFiles E bkpDir (zip_adder E zipHandler))) (\<lambda>_.
     bnd (if 0 < length (prf_Dbs prfl) then
            for_each (prf_Dbs prfl) (\<lambda>db. backupLocalDatabase E db zipHandler)
          else ret ()) (\<lambda>_.
     bnd (Close E zipHandler) (\<lambda>_.
     ret ()))))"


section \<open>Remote data\<close>

definition backupRemoteDatabase :: "env \<Rightarrow> Client \<Rightarrow> BackupDb \<Rightarrow> Handler \<Rightarrow> (world, unit) go" where
  "backupRemoteDatabase E sshC db z =
     (if db_Type db = DbMysql \<or> db_Type db = DbMaria then
        bnd (FileWriter E z (path_join [''_mysqldump'', db_Name db @ ''.dump.sql''])) (\<lambda>zipWriter.
        MysqlDump.WriteFromRemote E sshC
          \<lparr>MysqlDump.RemoteCfg.rc_BinPath = [], MysqlDump.RemoteCfg.rc_User = db_User db, MysqlDump.RemoteCfg.rc_Pw = db_Password db,
           MysqlDump.RemoteCfg.rc_DbName = db_Name db\<rparr> zipWriter)
      else if db_Type db = DbDockerMaria \<or> db_Type db = DbDockerMysql then
        bnd (FileWriter E z (path_join [''_mysqldump'', db_Name db @ ''.dump.sql''])) (\<lambda>zipWriter.
        MysqlDump.WriteFromSshDocker E sshC
          \<lparr>MysqlDump.SshDockerCfg.sd_ContainerName = db_ContainerName db, MysqlDump.SshDockerCfg.sd_BinPath = [],
           MysqlDump.SshDockerCfg.sd_User = db_User db, MysqlDump.SshDockerCfg.sd_Pw = db_Password db, MysqlDump.SshDockerCfg.sd_DbName = db_Name db\<rparr> zipWriter)
      else if db_Type db = DbPostgres then
        bnd (FileWriter E z (path_join [''_postgres'', db_Name db @ ''.dump.sql''])) (\<lambda>zipWriter.
        PgDump.WriteFromRemote E sshC
          \<lparr>PgDump.RemoteCfg.rc_BinPath = [], PgDump.RemoteCfg.rc_User = db_User db, PgDump.RemoteCfg.rc_Pw = db_Password db,
           PgDump.RemoteCfg.rc_DbName = db_Name db\<rparr> zipWriter)
      else if db_Type db = DbDockerPostgres then
        bnd (FileWriter E z (path_join [''_postgres'', db_Name db @ ''.dump.sql''])) (\<lambda>zipWriter.
        PgDump.WriteFromSshDocker E sshC
          \<lparr>PgDump.SshDockerCfg.sd_ContainerName = db_ContainerName db, PgDump.SshDockerCfg.sd_BinPath = [],
           PgDump.SshDockerCfg.sd_User = db_User db, PgDump.SshDockerCfg.sd_Pw = db_Password db, PgDump.SshDockerCfg.sd_DbName = db_Name db\<rparr> zipWriter)
      else throw (ErrNew (''unknown db type: '' @ db_Type db)))"

definition ignoreHostKey :: bool where
  "ignoreHostKey = False"

definition ssh_cfg :: "Profile \<Rightarrow> Cfg" where
  "ssh_cfg prfl =
     \<lparr>cfg_Host = ssh_Host (prf_Ssh prfl), cfg_Port = ssh_Port (prf_Ssh prfl),
      cfg_Auth = GetAuthType (ssh_Type (prf_Ssh prfl)), cfg_User = ssh_User (prf_Ssh prfl),
      cfg_Password = ssh_Password (prf_Ssh prfl), cfg_PrivateKey = ssh_PrivateKey (prf_Ssh prfl),
      cfg_PassPhrase = ssh_Passphrase (prf_Ssh prfl), cfg_IgnoreHostKey = ignoreHostKey\<rparr>"

definition backupRemote :: "env \<Rightarrow> Profile \<Rightarrow> string \<Rightarrow> (world, unit) go" where
  "backupRemote E prfl dest =
     bnd (map_err (errorf_v ''error creating ssh client: '') (NewClient E (ssh_cfg prfl))) (\<lambda>sshC.
     bnd (map_err (errorf_v ''error connecting ssh: '') (Connect E sshC)) (\<lambda>sshC.
     defer_ignore
       (bnd (New E dest) (\<lambda>zipHandler.
        bnd (for_each (prf_Dirs prfl) (\<lambda>bkpDir. copyRemoteFiles E sshC bkpDir zipHandler)) (\<lambda>_.
        bnd (if 0 < length (prf_Dbs prfl) then
               for_each (prf_Dbs prfl) (\<lambda>db. backupRemoteDatabase E sshC db zipHandler)
             else ret ()) (\<lambda>_.
        bnd (Close E zipHandler) (\<lambda>_.
        ret ())))))
       (Disconnect E sshC)))"


section \<open>What each step may touch\<close>

lemma effects_prepareDestination: "key_of (wd E) dest \<in> K \<Longrightarrow> effects (frame K) (prepareDestination E dest)"
  unfolding prepareDestination_def
  by (intro fr.keeps_bnd fr.keeps_attempt fr.keeps_case_sum fr.keeps_if fr.keeps_throw fr.keeps_ret
      fr.keeps_map_err effects_os_mkdir frame_calls(6))

lemma effects_delZipAndErr: "key_of (wd E) dest \<in> K \<Longrightarrow> effects (frame K) (delZipAndErr E dest err)"
  unfolding delZipAndErr_def
  by (intro fr.keeps_bnd fr.keeps_attempt fr.keeps_case_sum fr.keeps_throw effects_os_remove)

lemma effects_chown: "key_of (wd E) f \<in> K \<Longrightarrow> effects (frame K) (chown E f owner)"
  unfolding chown_def
  by (intro fr.keeps_bnd fr.keeps_map_err fr.keeps_case_prod effects_os_chown frame_calls(3))

lemma effects_chmod: "key_of (wd E) f \<in> K \<Longrightarrow> effects (frame K) (chmod E f mode)"
  unfolding chmod_def by (intro fr.keeps_bnd fr.keeps_map_err effects_os_chmod frame_calls(3))

lemmas dumpers =
  MysqlDump.local_dump.dumper_axioms MysqlDump.docker_dump.dumper_axioms
  MysqlDump.remote_dump.dumper_axioms MysqlDump.sshdocker_dump.dumper_axioms
  PgDump.local_dump.dumper_axioms PgDump.docker_dump.dumper_axioms
  PgDump.remote_dump.dumper_axioms PgDump.sshdocker_dump.dumper_axioms

text \<open>A dump into an entry of the zip file keeps what adding entries and data keeps.\<close>

context zip_file
begin

lemma dump_into: "dumper dump produced \<Longrightarrow> zfile z = k \<Longrightarrow> effects R (bnd (FileWriter E z d) dump)"
  by (intro bnd_FileWriter_keeps dumper.dump_keeps entry_sink)

lemma backupLocalDatabase_keeps: "zfile z = k \<Longrightarrow> effects R (backupLocalDatabase E db z)"
  unfolding backupLocalDatabase_def by (intro keeps_if keeps_throw dumpers [THEN dump_into])

lemma backupRemoteDatabase_keeps: "zfile z = k \<Longrightarrow> effects R (backupRemoteDatabase E c db z)"
  unfolding backupRemoteDatabase_def by (intro keeps_if keeps_throw dumpers [THEN dump_into])

end

lemma effects_backupLocalDatabase: "zfile z \<in> K \<Longrightarrow> effects (frame K) (backupLocalDatabase E db z)"
  using zf.backupLocalDatabase_keeps [OF refl, of z K] by (simp add: insert_absorb)

lemma effects_backupRemoteDatabase: "zfile z \<in> K \<Longrightarrow> effects (frame K) (backupRemoteDatabase E c db z)"
  using zf.backupRemoteDatabase_keeps [OF refl, of z K] by (simp add: insert_absorb)

lemma effects_copyLocalFiles:
  "zfile z \<in> K \<Longrightarrow> effects (frame K) (copyLocalFiles E d (zip_adder E z))"
  using zip_files.copyLocalFiles_keeps [of z K] by (simp add: insert_absorb)

lemma New_Ok_key:
  assumes "New E dest w = (Ok z, w')" and "\<not> is_link w (key_of (wd E) dest)"
  shows "zfile z = key_of (wd E) dest \<and> isOpen z"
  using assms os_create_key by (auto simp: New_def split: if_splits)

lemma frame_bnd_New:
  assumes k: "key_of (wd E) dest \<in> K"
    and f: "\<And>z. zfile z = key_of (wd E) dest \<Longrightarrow> effects (frame K) (f z)"
  shows "effects (frame K) (bnd (New E dest) f)"
proof (rule fr.keeps_bnd_before [OF effects_New [OF k]])
  fix z and s t :: world
  assume n: "New E dest s = (Ok z, t)"
  show "frame K s (snd (f z t))"
  proof (cases "is_link s (key_of (wd E) dest)")
    case True
    then show ?thesis using k by (rule frame_if_link)
  next
    case False
    with n have "zfile z = key_of (wd E) dest" using New_Ok_key by blast
    then have "frame K t (snd (f z t))" by (rule effects_snd [OF f])
    moreover have "frame K s t" using effectsD [OF effects_New [OF k] n] .
    ultimately show ?thesis by (rule frame_trans [rotated])
  qed
qed

lemma effects_backupLocal:
  assumes "key_of (wd E) dest \<in> K"
  shows "effects (frame K) (backupLocal E prfl dest)"
  unfolding backupLocal_def
proof (rule frame_bnd_New [OF assms])
  fix z :: Handler assume "zfile z = key_of (wd E) dest"
  then have z: "zfile z \<in> K" using assms by simp
  show "effects (frame K) (bnd (for_each (prf_Dirs prfl) (\<lambda>bkpDir. copyLocalFiles E bkpDir (zip_adder E z))) (\<lambda>_.
     bnd (if 0 < length (prf_Dbs prfl) then for_each (prf_Dbs prfl) (\<lambda>db. backupLocalDatabase E db z) else ret ()) (\<lambda>_.
     bnd (Close E z) (\<lambda>_. ret ()))))"
    by (intro fr.keeps_bnd fr.keeps_for_each fr.keeps_if fr.keeps_ret effects_copyLocalFiles
        effects_backupLocalDatabase effects_Close z)
qed

end
