(* ===== verification/Profile.thy ===== *)
theory Profile
  imports Walk SshClient
begin

text \<open>
  \<open>internal/profile/profile.go\<close>: loading a profile from a yaml file, completing and checking
  it, and loading all the profiles of a directory. The yaml library is part of the
  environment: \<open>yaml_version\<close> and \<open>yaml_v1\<close> are what \<open>yaml.Unmarshal\<close> makes of the text
  for the two target types. Letters are put in lower case for ASCII.
\<close>

section \<open>One profile\<close>

definition getVersion :: "env \<Rightarrow> string \<Rightarrow> goerr + int" where
  "getVersion E data = yaml_version E data"

definition createProfile :: "profileV1 \<Rightarrow> goerr + Profile" where
  "createProfile l =
     (if v1_Type l = [] then Inl (ErrNew ''profile has no type'')
      else
        let p = \<lparr>prf_Name = v1_Name l, prf_Type = to_lower (v1_Type l), prf_Ssh = v1_Ssh l,
                 prf_Dirs = [], prf_Dbs = [], prf_Destination = v1_Destination l, prf_Notify = v1_Notify l\<rparr> in
        if \<not> List.member [TypeSftpSync, TypeLocal, TypeRemote] (prf_Type p)
        then Inl (ErrNew ''profile has invalid type'')
        else
          let p = p\<lparr>prf_Ssh := (prf_Ssh p)\<lparr>ssh_Type := to_lower (ssh_Type (v1_Ssh l))\<rparr>\<rparr> in
          if prf_Name p = [] then Inl (ErrNew ''profile name cannot be empty'')
          else Inr p)"

text \<open>The profile is changed in place: the default port is filled in.\<close>

definition validateSshConfig :: "Profile \<Rightarrow> goerr + Profile" where
  "validateSshConfig p =
     (if List.member [TypeSftpSync, TypeRemote] (prf_Type p) then
        if \<not> List.member [ConnTypeSshKey, ConnTypePasswd, ConnTypeSshAgent] (ssh_Type (prf_Ssh p)) \<or>
           ssh_Type (prf_Ssh p) = []
        then Inl (ErrNew ''profile has invalid ssh connection type'')
        else if ssh_Host (prf_Ssh p) = [] then Inl (ErrNew ''profile ssh host cannot be empty'')
        else Inr (if ssh_Port (prf_Ssh p) = 0 then p\<lparr>prf_Ssh := (prf_Ssh p)\<lparr>ssh_Port := 22\<rparr>\<rparr> else p)
      else Inr p)"

definition validateBackupTargets :: "profileV1 \<Rightarrow> ProfileType \<Rightarrow> goerr + unit" where
  "validateBackupTargets l t =
     (if List.member [TypeLocal, TypeRemote] t \<and> length (v1_Dbs l) = 0 \<and> length (v1_Dirs l) = 0
      then Inl (ErrNew ''nothing to backup'') else Inr ())"

fun compile_excludes :: "env \<Rightarrow> string list \<Rightarrow> (string \<Rightarrow> bool) list \<Rightarrow> goerr + (string \<Rightarrow> bool) list" where
  "compile_excludes E [] gs = Inr gs"
| "compile_excludes E (excl # excls) gs =
     (case glob_compile E excl of
        Inl gerr \<Rightarrow> Inl (errorf_w ''unable to compile exclude pattern: '' gerr)
      | Inr g \<Rightarrow> compile_excludes E excls (gs @ [g]))"

fun processDirectories :: "env \<Rightarrow> dirV1 list \<Rightarrow> ProfileType \<Rightarrow> BackupPath list \<Rightarrow> goerr + BackupPath list" where
  "processDirectories E [] t backupDirs = Inr backupDirs"
| "processDirectories E (dir # dirs) t backupDirs =
     (case compile_excludes E (d1_Exclude dir) [] of
        Inl e \<Rightarrow> Inl e
      | Inr gs \<Rightarrow>
          if d1_Path dir = [] then Inl (ErrNew ''profile path cannot be empty'')
          else if t = TypeSftpSync \<and> d1_Name dir = [] then
            Inl (ErrNew ''profile name for sync path cannot be empty'')
          else
            processDirectories E dirs t
              (backupDirs @ [\<lparr>bp_Path = d1_Path dir, bp_Name = d1_Name dir, bp_Exclude = gs\<rparr>]))"

fun processDatabases :: "BackupDb list \<Rightarrow> BackupDb list \<Rightarrow> goerr + BackupDb list" where
  "processDatabases [] backupDbs = Inr backupDbs"
| "processDatabases (db # dbs) backupDbs =
     (let d = db\<lparr>db_Type := to_lower (db_Type db)\<rparr> in
      if List.member [DbDockerPostgres, DbDockerMysql] (db_Type d) \<and> db_ContainerName d = []
      then Inl (ErrNew ''DB container name cannot be empty'')
      else processDatabases dbs (backupDbs @ [d]))"

definition loadProfileV1 :: "env \<Rightarrow> string \<Rightarrow> goerr + Profile" where
  "loadProfileV1 E data =
     (case yaml_v1 E data of Inl e \<Rightarrow> Inl e | Inr loaded \<Rightarrow>
      case createProfile loaded of Inl e \<Rightarrow> Inl e | Inr p \<Rightarrow>
      case validateSshConfig p of Inl e \<Rightarrow> Inl e | Inr p \<Rightarrow>
      case validateBackupTargets loaded (prf_Type p) of Inl e \<Rightarrow> Inl e | Inr _ \<Rightarrow>
      case processDirectories E (v1_Dirs loaded) (prf_Type p) [] of Inl e \<Rightarrow> Inl e | Inr dirs \<Rightarrow>
      case processDatabases (v1_Dbs loaded) [] of Inl e \<Rightarrow> Inl e | Inr dbs \<Rightarrow>
      Inr (p\<lparr>prf_Dirs := dirs, prf_Dbs := dbs\<rparr>))"

definition LoadProfile :: "env \<Rightarrow> string \<Rightarrow> (world, Profile) go" where
  "LoadProfile E file =
     (if ext file \<noteq> ''.yaml'' then throw (ErrNew ''profile path is not a .yaml file'')
      else
      bnd (os_read_file E file) (\<lambda>data.
      bnd (map_err (errorf_w ''unable to get profile version: '') (from_sum (getVersion E (bytes_of data)))) (\<lambda>version.
      if version = 1 then from_sum (loadProfileV1 E (bytes_of data))
      else throw (ErrNew (''unsupported profile version: '' @ show_int version)))))"


section \<open>All profiles of a directory\<close>

definition profileExt :: string where
  "profileExt = ''.backup.yaml''"

text \<open>The callback of the walk: it does not look at the error, and a missing info panics.\<close>

definition collect :: "string list walk_fn" where
  "collect files path info err =
     (case info of
        None \<Rightarrow> gopanic
      | Some i \<Rightarrow> ret (if \<not> IsDir i \<and> has_suffix (fi_name i) profileExt then files @ [path] else files))"

fun load_files :: "env \<Rightarrow> string list \<Rightarrow> Profile list \<Rightarrow> goerr option \<Rightarrow> (world, Profile list \<times> goerr option) go" where
  "load_files E [] profiles errs = ret (profiles, errs)"
| "load_files E (file # files) profiles errs =
     bnd (attempt (LoadProfile E file)) (\<lambda>r.
     case r of
       Inl perr \<Rightarrow>
         load_files E files profiles
           (errors_join errs (Some (errorf_w (''failed to load profile '' @ file @ '': '') perr)))
     | Inr p \<Rightarrow> load_files E files (profiles @ [p]) errs)"

text \<open>Both results count: the profiles that could be loaded, and the error.\<close>

definition LoadProfiles :: "env \<Rightarrow> string \<Rightarrow> (world, Profile list \<times> goerr option) go" where
  "LoadProfiles E dir =
     bnd (attempt (os_stat E dir)) (\<lambda>r.
     case r of
       Inl e \<Rightarrow> ret ([], Some e)
     | Inr finfo \<Rightarrow>
         if \<not> IsDir finfo then ret ([], Some (ErrNew ''the path is not a directory''))
         else
           bnd (attempt (filepath_Walk E collect [] dir)) (\<lambda>r.
           case r of Inl e \<Rightarrow> ret ([], Some e) | Inr files \<Rightarrow> load_files E files [] None))"


section \<open>What is accepted, and what is made of it\<close>

text \<open>
  The checks as conditions on the loaded values, without their order; and the profile that is
  made, as one record.
\<close>

definition dir_acceptable :: "env \<Rightarrow> ProfileType \<Rightarrow> dirV1 \<Rightarrow> bool" where
  "dir_acceptable E t d \<longleftrightarrow> d1_Path d \<noteq> [] \<and> (t = TypeSftpSync \<longrightarrow> d1_Name d \<noteq> []) \<and>
     (\<forall>x \<in> set (d1_Exclude d). \<exists>g. glob_compile E x = Inr g)"

definition db_acceptable :: "BackupDb \<Rightarrow> bool" where
  "db_acceptable d \<longleftrightarrow>
     (to_lower (db_Type d) \<in> {DbDockerPostgres, DbDockerMysql} \<longrightarrow> db_ContainerName d \<noteq> [])"

definition acceptable :: "env \<Rightarrow> profileV1 \<Rightarrow> bool" where
  "acceptable E l \<longleftrightarrow>
     (let t = to_lower (v1_Type l) in
      t \<in> {TypeSftpSync, TypeLocal, TypeRemote} \<and> v1_Name l \<noteq> [] \<and>
      (t \<noteq> TypeLocal \<longrightarrow>
         to_lower (ssh_Type (v1_Ssh l)) \<in> {ConnTypeSshKey, ConnTypePasswd, ConnTypeSshAgent} \<and>
         ssh_Host (v1_Ssh l) \<noteq> []) \<and>
      (t \<noteq> TypeSftpSync \<longrightarrow> v1_Dirs l \<noteq> [] \<or> v1_Dbs l \<noteq> []) \<and>
      (\<forall>d \<in> set (v1_Dirs l). dir_acceptable E t d) \<and> (\<forall>d \<in> set (v1_Dbs l). db_acceptable d))"

definition compiled :: "env \<Rightarrow> string \<Rightarrow> string \<Rightarrow> bool" where
  "compiled E x = (case glob_compile E x of Inr g \<Rightarrow> g | Inl e \<Rightarrow> (\<lambda>s. False))"

definition completed :: "env \<Rightarrow> profileV1 \<Rightarrow> Profile" where
  "completed E l =
     (let t = to_lower (v1_Type l); s = v1_Ssh l in
      \<lparr>prf_Name = v1_Name l, prf_Type = t,
       prf_Ssh = s\<lparr>ssh_Type := to_lower (ssh_Type s),
                  ssh_Port := (if t \<noteq> TypeLocal \<and> ssh_Port s = 0 then 22 else ssh_Port s)\<rparr>,
       prf_Dirs = map (\<lambda>d. \<lparr>bp_Path = d1_Path d, bp_Name = d1_Name d,
                           bp_Exclude = map (compiled E) (d1_Exclude d)\<rparr>) (v1_Dirs l),
       prf_Dbs = map (\<lambda>d. d\<lparr>db_Type := to_lower (db_Type d)\<rparr>) (v1_Dbs l),
       prf_Destination = v1_Destination l, prf_Notify = v1_Notify l\<rparr>)"

lemma type_distinct [simp]:
  "TypeSftpSync \<noteq> TypeLocal" "TypeRemote \<noteq> TypeLocal" "TypeSftpSync \<noteq> TypeRemote"
  "TypeLocal \<noteq> TypeSftpSync" "TypeLocal \<noteq> TypeRemote" "TypeRemote \<noteq> TypeSftpSync"
  "TypeSftpSync \<noteq> []" "TypeLocal \<noteq> []" "TypeRemote \<noteq> []"
  "[] \<noteq> TypeSftpSync" "[] \<noteq> TypeLocal" "[] \<noteq> TypeRemote"
  by (simp_all add: profile_consts)

lemma conn_types_not_Nil [simp]:
  "ConnTypeSshKey \<noteq> []" "ConnTypePasswd \<noteq> []" "ConnTypeSshAgent \<noteq> []"
  "[] \<noteq> ConnTypeSshKey" "[] \<noteq> ConnTypePasswd" "[] \<noteq> ConnTypeSshAgent"
  by (simp_all add: profile_consts)

lemma compile_excludes_iff:
  "compile_excludes E xs gs = Inr hs \<longleftrightarrow>
     (\<forall>x \<in> set xs. \<exists>g. glob_compile E x = Inr g) \<and> hs = gs @ map (compiled E) xs"
  by (induction xs arbitrary: gs) (auto simp: compiled_def split: sum.splits)

lemma processDirectories_iff:
  "processDirectories E ds t acc = Inr bs \<longleftrightarrow> (\<forall>d \<in> set ds. dir_acceptable E t d) \<and>
     bs = acc @ map (\<lambda>d. \<lparr>bp_Path = d1_Path d, bp_Name = d1_Name d,
                         bp_Exclude = map (compiled E) (d1_Exclude d)\<rparr>) ds"
proof (induction ds arbitrary: acc)
  case Nil
  then show ?case by auto
next
  case (Cons d ds)
  show ?case
  proof (cases "compile_excludes E (d1_Exclude d) []")
    case (Inl e)
    then have "\<not> dir_acceptable E t d"
      using compile_excludes_iff [of E "d1_Exclude d" "[]"] by (auto simp: dir_acceptable_def)
    then show ?thesis using Inl by simp
  next
    case (Inr gs)
    then have "\<forall>x \<in> set (d1_Exclude d). \<exists>g. glob_compile E x = Inr g" "gs = map (compiled E) (d1_Exclude d)"
      using compile_excludes_iff [of E "d1_Exclude d" "[]"] by auto
    then show ?thesis using Inr Cons.IH by (auto simp: dir_acceptable_def)
  qed
qed

lemma processDatabases_iff:
  "processDatabases ds acc = Inr bs \<longleftrightarrow> (\<forall>d \<in> set ds. db_acceptable d) \<and>
     bs = acc @ map (\<lambda>d. d\<lparr>db_Type := to_lower (db_Type d)\<rparr>) ds"
  by (induction ds arbitrary: acc) (auto simp: Let_def db_acceptable_def)

lemma to_lower_Nil [simp]: "to_lower [] = []"
  by (simp add: to_lower_def)

section \<open>A profile that loads\<close>

lemma createProfile_iff:
  "createProfile l = Inr p \<longleftrightarrow>
     to_lower (v1_Type l) \<in> {TypeSftpSync, TypeLocal, TypeRemote} \<and> v1_Name l \<noteq> [] \<and>
     p = \<lparr>prf_Name = v1_Name l, prf_Type = to_lower (v1_Type l),
          prf_Ssh = (v1_Ssh l)\<lparr>ssh_Type := to_lower (ssh_Type (v1_Ssh l))\<rparr>,
          prf_Dirs = [], prf_Dbs = [], prf_Destination = v1_Destination l, prf_Notify = v1_Notify l\<rparr>"
  by (auto simp: createProfile_def Let_def)

lemma validateSshConfig_iff:
  "prf_Type p \<in> {TypeSftpSync, TypeLocal, TypeRemote} \<Longrightarrow>
   validateSshConfig p = Inr q \<longleftrightarrow>
     (prf_Type p \<noteq> TypeLocal \<longrightarrow>
        ssh_Type (prf_Ssh p) \<in> {ConnTypeSshKey, ConnTypePasswd, ConnTypeSshAgent} \<and> ssh_Host (prf_Ssh p) \<noteq> []) \<and>
     q = p\<lparr>prf_Ssh := (prf_Ssh p)\<lparr>ssh_Port :=
            (if prf_Type p \<noteq> TypeLocal \<and> ssh_Port (prf_Ssh p) = 0 then 22 else ssh_Port (prf_Ssh p))\<rparr>\<rparr>"
  by (auto simp: validateSshConfig_def)

lemma validateBackupTargets_iff:
  "t \<in> {TypeSftpSync, TypeLocal, TypeRemote} \<Longrightarrow>
   validateBackupTargets l t = Inr u \<longleftrightarrow> (t \<noteq> TypeSftpSync \<longrightarrow> v1_Dirs l \<noteq> [] \<or> v1_Dbs l \<noteq> [])"
  by (auto simp: validateBackupTargets_def)

lemma loadProfileV1_steps:
  "loadProfileV1 E data = Inr p \<longleftrightarrow>
     (\<exists>l q r dirs dbs. yaml_v1 E data = Inr l \<and> createProfile l = Inr q \<and> validateSshConfig q = Inr r \<and>
        validateBackupTargets l (prf_Type r) = Inr () \<and>
        processDirectories E (v1_Dirs l) (prf_Type r) [] = Inr dirs \<and>
        processDatabases (v1_Dbs l) [] = Inr dbs \<and> p = r\<lparr>prf_Dirs := dirs, prf_Dbs := dbs\<rparr>)"
  by (auto simp: loadProfileV1_def split: sum.splits)

lemma steps_completed:
  assumes "createProfile l = Inr q" and "validateSshConfig q = Inr r"
    and "processDirectories E (v1_Dirs l) (prf_Type r) [] = Inr dirs" and "processDatabases (v1_Dbs l) [] = Inr dbs"
  shows "completed E l = r\<lparr>prf_Dirs := dirs, prf_Dbs := dbs\<rparr>"
proof -
  have "prf_Type q \<in> {TypeSftpSync, TypeLocal, TypeRemote}" using assms(1) by (simp add: createProfile_iff)
  then show ?thesis
    using assms
    by (simp add: validateSshConfig_iff createProfile_iff processDirectories_iff processDatabases_iff
        completed_def Let_def)
qed

lemma acceptable_steps:
  "acceptable E l \<longleftrightarrow> (\<exists>q r dirs dbs. createProfile l = Inr q \<and> validateSshConfig q = Inr r \<and>
        validateBackupTargets l (prf_Type r) = Inr () \<and>
        processDirectories E (v1_Dirs l) (prf_Type r) [] = Inr dirs \<and> processDatabases (v1_Dbs l) [] = Inr dbs)"
  (is "_ = ?steps")
proof (cases "to_lower (v1_Type l) \<in> {TypeSftpSync, TypeLocal, TypeRemote} \<and> v1_Name l \<noteq> []")
  case True
  define q where "q = \<lparr>prf_Name = v1_Name l, prf_Type = to_lower (v1_Type l),
          prf_Ssh = (v1_Ssh l)\<lparr>ssh_Type := to_lower (ssh_Type (v1_Ssh l))\<rparr>,
          prf_Dirs = [], prf_Dbs = [], prf_Destination = v1_Destination l, prf_Notify = v1_Notify l\<rparr>"
  have q: "createProfile l = Inr q" and t: "prf_Type q = to_lower (v1_Type l)"
    using True by (simp_all add: createProfile_iff q_def)
  have steps: "?steps \<longleftrightarrow> (\<exists>r dirs dbs. validateSshConfig q = Inr r \<and>
        validateBackupTargets l (prf_Type r) = Inr () \<and>
        processDirectories E (v1_Dirs l) (prf_Type r) [] = Inr dirs \<and> processDatabases (v1_Dbs l) [] = Inr dbs)"
    using q by simp
  have qt: "prf_Type q \<in> {TypeSftpSync, TypeLocal, TypeRemote}" using True t by simp
  let ?A = "prf_Type q \<noteq> TypeLocal \<longrightarrow>
        ssh_Type (prf_Ssh q) \<in> {ConnTypeSshKey, ConnTypePasswd, ConnTypeSshAgent} \<and> ssh_Host (prf_Ssh q) \<noteq> []"
  let ?B = "prf_Type q \<noteq> TypeSftpSync \<longrightarrow> v1_Dirs l \<noteq> [] \<or> v1_Dbs l \<noteq> []"
  have "?steps \<longleftrightarrow> ?A \<and> ?B \<and> (\<forall>d \<in> set (v1_Dirs l). dir_acceptable E (prf_Type q) d) \<and>
      (\<forall>d \<in> set (v1_Dbs l). db_acceptable d)"
    unfolding steps unfolding processDirectories_iff processDatabases_iff validateSshConfig_iff [OF qt]
    by (simp add: validateBackupTargets_iff [OF qt])
  then show ?thesis using True unfolding acceptable_def Let_def t by (simp add: q_def)
next
  case False
  then show ?thesis by (auto simp: acceptable_def Let_def createProfile_iff)
qed

text \<open>
  C17. The checks of a profile, all of them and in one condition: \<open>loadProfileV1\<close> gives a profile
  exactly when the yaml can be read and its values are acceptable, and the profile is then
  those values completed (types in lower case, patterns compiled, the default port filled in).
\<close>

theorem loadProfileV1_iff:
  "loadProfileV1 E data = Inr p \<longleftrightarrow>
     (\<exists>l. yaml_v1 E data = Inr l \<and> acceptable E l \<and> p = completed E l)"
proof
  assume "loadProfileV1 E data = Inr p"
  then obtain l q r dirs dbs where s: "yaml_v1 E data = Inr l" "createProfile l = Inr q"
      "validateSshConfig q = Inr r" "validateBackupTargets l (prf_Type r) = Inr ()"
      "processDirectories E (v1_Dirs l) (prf_Type r) [] = Inr dirs" "processDatabases (v1_Dbs l) [] = Inr dbs"
      "p = r\<lparr>prf_Dirs := dirs, prf_Dbs := dbs\<rparr>"
    unfolding loadProfileV1_steps by blast
  then have "acceptable E l" unfolding acceptable_steps by blast
  moreover have "p = completed E l" using steps_completed [OF s(2,3,5,6)] s(7) by simp
  ultimately show "\<exists>l. yaml_v1 E data = Inr l \<and> acceptable E l \<and> p = completed E l" using s(1) by blast
next
  assume "\<exists>l. yaml_v1 E data = Inr l \<and> acceptable E l \<and> p = completed E l"
  then obtain l where l: "yaml_v1 E data = Inr l" "p = completed E l" and "acceptable E l" by blast
  then obtain q r dirs dbs where s: "createProfile l = Inr q"
      "validateSshConfig q = Inr r" "validateBackupTargets l (prf_Type r) = Inr ()"
      "processDirectories E (v1_Dirs l) (prf_Type r) [] = Inr dirs" "processDatabases (v1_Dbs l) [] = Inr dbs"
    unfolding acceptable_steps by blast
  moreover have "p = r\<lparr>prf_Dirs := dirs, prf_Dbs := dbs\<rparr>" using steps_completed [OF s(1,2,4,5)] l(2) by simp
  ultimately show "loadProfileV1 E data = Inr p" unfolding loadProfileV1_steps using l(1) by blast
qed

section \<open>Loading a directory\<close>

lemma effects_LoadProfile: "effects ticked (LoadProfile E file)"
  unfolding LoadProfile_def
  by (intro tk.keeps_if tk.keeps_throw tk.keeps_bnd tk.keeps_map_err effects_os_read_file effects_from_sum)

lemma effects_load_files: "effects ticked (load_files E files ps errs)"
proof (induction files arbitrary: ps errs)
  case Nil
  show ?case by (simp add: tk.keeps_ret)
next
  case (Cons f files)
  show ?case
    unfolding load_files.simps by (intro tk.keeps_bnd tk.keeps_attempt tk.keeps_case_sum effects_LoadProfile Cons.IH)
qed

lemma effects_LoadProfiles: "effects (keeps fs) (LoadProfiles E dir)"
proof -
  have "effects (keeps fs) (collect acc p i e)" for acc p i e
    by (cases i) (simp_all add: collect_def kp.keeps_gopanic kp.keeps_ret)
  then show ?thesis
    unfolding LoadProfiles_def
    by (intro kp.keeps_bnd kp.keeps_attempt kp.keeps_case_sum kp.keeps_if kp.keeps_ret
        kfs.filepath_Walk_keeps effects_os_stat [THEN kfs.from_ticked] effects_load_files [THEN kfs.from_ticked])
qed

text \<open>Whatever the tick is, a file loads the same when no call fails; and it never panics.\<close>

lemma os_read_file_ticked:
  assumes "no_faults E"
  shows "fst (os_read_file E p (w\<lparr>tick := n\<rparr>)) = fst (os_read_file E p w)"
proof (cases "path_ok p")
  case True
  then show ?thesis
    using assms
    by (simp add: os_read_file_def syscall_run with_target_def fail_missing_def ret_def throw_def
        split: sum.splits option.splits node.splits)
next
  case False
  then show ?thesis
    using assms by (auto simp: os_read_file_def syscall_def Let_def no_faults_def path_ok_def)
qed

lemma LoadProfile_fst:
  "fst (LoadProfile E file w) =
     (if ext file \<noteq> ''.yaml'' then Fail (ErrNew ''profile path is not a .yaml file'')
      else case fst (os_read_file E file w) of
        Panic \<Rightarrow> Panic
      | Fail e \<Rightarrow> Fail e
      | Ok c \<Rightarrow>
          (case getVersion E (bytes_of c) of
             Inl e \<Rightarrow> Fail (errorf_w ''unable to get profile version: '' e)
           | Inr version \<Rightarrow>
               if version = 1 then (case loadProfileV1 E (bytes_of c) of Inl e \<Rightarrow> Fail e | Inr p \<Rightarrow> Ok p)
               else Fail (ErrNew (''unsupported profile version: '' @ show_int version))))"
  by (simp add: LoadProfile_def bnd_def map_err_def handle_def from_sum_def throw_def ret_def
      split: prod.splits res.splits sum.splits)

lemma os_read_file_no_panic: "fst (os_read_file E p w) \<noteq> Panic"
  by (auto simp: os_read_file_def syscall_def Let_def with_target_def fail_missing_def ret_def throw_def
      split: option.splits sum.splits node.splits)

lemma LoadProfile_no_panic: "fst (LoadProfile E f w) \<noteq> Panic"
  using os_read_file_no_panic [of E f w] by (auto simp: LoadProfile_fst split: res.splits sum.splits)

lemma LoadProfile_ticked:
  assumes "no_faults E" and "ticked w v"
  shows "fst (LoadProfile E f v) = fst (LoadProfile E f w)"
proof -
  have "v = w\<lparr>tick := tick v\<rparr>" using assms(2) by (simp add: ticked_def)
  then show ?thesis using os_read_file_ticked [OF assms(1), of f "tick v" w] by (simp add: LoadProfile_fst)
qed

text \<open>The profiles that load, in the order of their files.\<close>

definition loaded :: "env \<Rightarrow> world \<Rightarrow> string list \<Rightarrow> Profile list" where
  "loaded E w files = concat (map (\<lambda>f. case fst (LoadProfile E f w) of Ok p \<Rightarrow> [p] | _ \<Rightarrow> []) files)"

definition loads :: "env \<Rightarrow> world \<Rightarrow> string \<Rightarrow> bool" where
  "loads E w file \<longleftrightarrow> (case fst (LoadProfile E file w) of Ok p \<Rightarrow> True | _ \<Rightarrow> False)"

lemma load_files_run:
  assumes "no_faults E"
  shows "ticked w v \<Longrightarrow> \<exists>errs' v'. load_files E files ps errs v = (Ok (ps @ loaded E w files, errs'), v') \<and>
    (errs' = None \<longleftrightarrow> errs = None \<and> list_all (loads E w) files) \<and> ticked w v'"
proof (induction files arbitrary: ps errs v)
  case Nil
  then show ?case by (auto simp: loaded_def ret_def)
next
  case (Cons f files)
  obtain r u where r: "LoadProfile E f v = (r, u)" by (cases "LoadProfile E f v")
  then have fr: "fst (LoadProfile E f w) = r" using LoadProfile_ticked [OF assms Cons.prems, of f] by simp
  have u: "ticked w u" using Cons.prems effectsD [OF effects_LoadProfile r] tk.rel_trans by blast
  show ?case
  proof (cases r)
    case (Ok p)
    then show ?thesis
      using Cons.IH [OF u, of "ps @ [p]" errs] r fr by (simp add: bnd_def attempt_def loaded_def loads_def)
  next
    case (Fail e)
    then show ?thesis
      using Cons.IH [OF u, of ps "errors_join errs (Some (errorf_w (''failed to load profile '' @ f @ '': '') e))"] r fr
      by (simp add: bnd_def attempt_def loaded_def loads_def)
  next
    case Panic
    then show ?thesis using LoadProfile_no_panic [of E f w] fr by simp
  qed
qed

definition profile_files :: "env \<Rightarrow> string \<Rightarrow> world \<Rightarrow> string list" where
  "profile_files E dir w =
     map (\<lambda>(ns, x). path_below dir ns)
       (filter (\<lambda>(ns, x). has_suffix (last ns) profileExt) (files_below w (key_of (wd E) dir)))"

lemma collect_run:
  assumes "no_faults E" and "plain_key (wd E)" and "fs_wf w" and "paths_ok w (key_of (wd E) dir) dir"
    and "node_at w (key_of (wd E) dir) = Some Dir"
  shows "\<exists>v. filepath_Walk E collect [] dir w = (Ok (profile_files E dir w), v) \<and> ticked w v"
proof -
  let ?k = "key_of (wd E) dir"
  let ?files = "\<lambda>seen. map (\<lambda>(ns, x). path_below dir ns) (filter (\<lambda>(ns, x). has_suffix (last ns) profileExt) seen)"
  have tree: "node_at v (?k @ ns) = node_at w (?k @ ns) \<and> children v (?k @ ns) = children w (?k @ ns)"
    if "ticked w v" for v ns
    using ticked_fields(1) [OF that] node_at_cong children_cong by blast
  have leaf: "\<exists>a' v'. collect a (path_below dir ns)
        (Some \<lparr>fi_name = base (path_below dir ns), fi_kind = kind_of x\<rparr>) None v = (Ok a', v') \<and>
      ticked w v' \<and> a' = ?files (seen @ [(ns, x)])"
    if "ticked w v" and "a = ?files seen" and "list_all plain_name ns" and "node_at w (?k @ ns) = Some x" and "x \<noteq> Dir"
    for seen a v ns x
  proof -
    have "ns \<noteq> []" using that(4,5) assms(5) by auto
    then obtain ms m where ns: "ns = ms @ [m]" by (cases ns rule: rev_cases) auto
    have "path_below dir ms \<noteq> []"
      using ns that(3) assms(4)
      by (cases ms rule: rev_cases) (auto simp: paths_ok_def path_ok_def path_join_not_Nil plain_name_def)
    then have "base (path_below dir ns) = m" using ns that(3) by (simp add: base_join)
    moreover have "\<not> IsDir \<lparr>fi_name = base (path_below dir ns), fi_kind = kind_of x\<rparr>"
      using that(5) by (cases x) (simp_all add: IsDir_def)
    ultimately show ?thesis using that(1,2) ns by (simp add: collect_def ret_def)
  qed
  have dirs: "collect a p (Some i) None v = (Ok a, v)" if "IsDir i" for a p v i
    using that by (simp add: collect_def ret_def)
  have po: "path_ok dir" using assms(4) by (simp add: paths_ok_def)
  have l: "os_lstat E dir w = (Ok \<lparr>fi_name = base dir, fi_kind = kind_of Dir\<rparr>, tock w)"
    by (rule os_lstat_run [OF assms(1) po assms(5)])
  have "\<exists>a' v'. walk (Suc path_max) E collect [] (path_below dir []) \<lparr>fi_name = base (path_below dir []), fi_kind = kind_of Dir\<rparr>
        (tock w) = (Ok a', v') \<and> ticked w v' \<and> a' = ?files ([] @ visit (Suc path_max) w ?k [])"
  proof (rule walk_run [where S = "ticked w" and P = "\<lambda>seen a v. a = ?files seen", OF refl assms(1,3,4)])
    show "ticked w (tock v)" if "ticked w v" for v using tk.rel_trans [OF that ticked_tick] .
    show "node_at v (?k @ ns) = node_at w (?k @ ns) \<and> children v (?k @ ns) = children w (?k @ ns)"
      if "ticked w v" for v ns using tree [OF that] .
    show "collect a p (Some i) None v = (Ok a, v)" if "IsDir i" for a p v i using dirs [OF that] .
    show "\<exists>a' v'. collect a (path_below dir ns)
        (Some \<lparr>fi_name = base (path_below dir ns), fi_kind = kind_of x\<rparr>) None v = (Ok a', v') \<and>
      ticked w v' \<and> a' = ?files (seen @ [(ns, x)])"
      if "ticked w v" and "a = ?files seen" and "list_all plain_name ns" and "node_at w (?k @ ns) = Some x" and "x \<noteq> Dir"
      for seen a v ns x using leaf [OF that] .
  qed (use assms(5) in simp_all)
  then show ?thesis
    using l by (auto simp: filepath_Walk_def walk_root_def bnd_def attempt_def profile_files_def files_below_def)
qed

lemma LoadProfiles_run:
  assumes "no_faults E" and "plain_key (wd E)" and "fs_wf w" and "paths_ok w (key_of (wd E) dir) dir"
    and "node_at w (key_of (wd E) dir) = Some Dir"
  shows "\<exists>err w'. LoadProfiles E dir w = (Ok (loaded E w (profile_files E dir w), err), w') \<and>
    (err = None \<longleftrightarrow> list_all (loads E w) (profile_files E dir w)) \<and> fs w' = fs w"
proof -
  have po: "path_ok dir" using assms(4) by (simp add: paths_ok_def)
  have s: "os_stat E dir w = (Ok \<lparr>fi_name = base dir, fi_kind = KDir\<rparr>, tock w)"
    using os_stat_run [OF assms(1) po assms(5)] by simp
  obtain v where w: "filepath_Walk E collect [] dir (tock w) = (Ok (profile_files E dir w), v)" and v: "ticked w v"
  proof -
    have "fs_wf (tock w)" "paths_ok (tock w) (key_of (wd E) dir) dir"
      using assms(3,4) by (simp_all add: fs_wf_def paths_ok_def)
    then obtain v where v: "filepath_Walk E collect [] dir (tock w) = (Ok (profile_files E dir (tock w)), v)"
        and t: "ticked (tock w) v"
      using collect_run [of E "tock w"] assms by auto
    have "visit n (tock w) k ns = visit n w k ns" for n k ns
      by (induction n arbitrary: ns) (simp_all split: option.splits)
    then have "profile_files E dir (tock w) = profile_files E dir w"
      by (simp add: profile_files_def files_below_def)
    then show ?thesis using that v ticked_from_tick [OF t] by simp
  qed
  obtain err w' where "load_files E (profile_files E dir w) [] None v =
      (Ok (loaded E w (profile_files E dir w), err), w')"
      and "err = None \<longleftrightarrow> list_all (loads E w) (profile_files E dir w)" and "ticked w w'"
    using load_files_run [OF assms(1) v, of "profile_files E dir w" "[]" None] by auto
  then show ?thesis
    using s w by (auto simp: LoadProfiles_def bnd_def attempt_def IsDir_def ticked_fields)
qed

text \<open>
  C18. When no call fails, \<open>LoadProfiles\<close> loads exactly the files below the directory whose name
  ends in \<open>.backup.yaml\<close>, in the order of the walk: its first result are the profiles of
  those that load, a bad file takes none of the others away, and there is an error just when
  some file does not load. No file is changed.
\<close>

theorem LoadProfiles_loads_all:
  assumes "no_faults E" and "plain_key (wd E)" and "fs_wf w" and "paths_ok w (key_of (wd E) dir) dir"
    and "node_at w (key_of (wd E) dir) = Some Dir"
  shows "\<exists>err w'. LoadProfiles E dir w = (Ok (loaded E w (profile_files E dir w), err), w') \<and>
    (err = None \<longleftrightarrow> list_all (loads E w) (profile_files E dir w)) \<and> fs w' = fs w"
  using assms by (rule LoadProfiles_run)

section \<open>An example\<close>

text \<open>A directory with a good profile, a bad one, and another file.\<close>

definition yaml_local :: profileV1 where
  "yaml_local = empty_profile\<lparr>v1_Name := ''a'', v1_Type := ''Local'', v1_Dirs := [\<lparr>d1_Path = ''/d'', d1_Name = [], d1_Exclude = []\<rparr>]\<rparr>"

definition load_env :: env where
  "load_env = ref_env\<lparr>yaml_v1 := (\<lambda>s. if s = ''A'' then Inr yaml_local else Inl (ErrNew ''bad yaml''))\<rparr>"

definition load_world :: world where
  "load_world = world_of [([''p''], Dir), ([''p'', ''a.backup.yaml''], plain_file ''A''),
     ([''p'', ''b.backup.yaml''], plain_file ''B''), ([''p'', ''c.txt''], plain_file ''C'')]"

lemma load_env_simps [simp]: "no_faults load_env" "wd load_env = []" "yaml_version load_env = (\<lambda>s. Inr 1)"
  "yaml_v1 load_env = (\<lambda>s. if s = ''A'' then Inr yaml_local else Inl (ErrNew ''bad yaml''))"
  by (simp_all add: load_env_def no_faults_def)

lemma load_world_at:
  "node_at load_world k = (if k = [] \<or> k = [''p''] then Some Dir
     else if k = [''p'', ''a.backup.yaml''] then Some (plain_file ''A'')
     else if k = [''p'', ''b.backup.yaml''] then Some (plain_file ''B'')
     else if k = [''p'', ''c.txt''] then Some (plain_file ''C'') else None)"
  by (auto simp: load_world_def node_at_world_of)

lemma load_world_wf: "fs_wf load_world"
  by (simp add: fs_wf_def load_world_def plain_key_def plain_name_def)

lemma load_keys: "key_of [] ''/p'' = [''p'']"
  "key_of [] ''/p/a.backup.yaml'' = [''p'', ''a.backup.yaml'']" "key_of [] ''/p/b.backup.yaml'' = [''p'', ''b.backup.yaml'']"
  "path_below ''/p'' [''a.backup.yaml''] = ''/p/a.backup.yaml''" "path_below ''/p'' [''b.backup.yaml''] = ''/p/b.backup.yaml''"
  "path_below ''/p'' [''c.txt''] = ''/p/c.txt''"
  by (simp_all add: key_of_def path_below_def path_join_def clean_def is_abs_def has_prefix_def norm_def push_def render_def)

lemma load_paths: "paths_ok load_world [''p''] ''/p''"
proof -
  have "ns \<in> {[], [''a.backup.yaml''], [''b.backup.yaml''], [''c.txt'']}"
    if "node_at load_world ([''p''] @ ns) \<noteq> None" for ns
    using that by (auto simp: load_world_at split: if_splits)
  then show ?thesis by (fastforce simp: paths_ok_def path_ok_def path_max_def load_keys)
qed

lemma visit_leaf: "node_at w (k @ ns) = Some x \<Longrightarrow> x \<noteq> Dir \<Longrightarrow> visit n w k ns = [(ns, x)]"
  by (cases n) simp_all

lemma load_profile_files: "profile_files load_env ''/p'' load_world = [''/p/a.backup.yaml'', ''/p/b.backup.yaml'']"
proof -
  have "children load_world [''p''] = [''a.backup.yaml'', ''b.backup.yaml'', ''c.txt'']"
    by (rule sorted_distinct_set_unique)
      (auto simp: sorted_children distinct_children [OF load_world_wf] mem_children_iff load_world_at
        split: if_splits)
  then have "files_below load_world [''p''] =
      [([''a.backup.yaml''], plain_file ''A''), ([''b.backup.yaml''], plain_file ''B''), ([''c.txt''], plain_file ''C'')]"
    by (simp add: files_below_def load_world_at visit_leaf plain_file_def)
  then show ?thesis by (simp add: profile_files_def load_keys profileExt_def has_suffix_def)
qed

lemma load_files_load:
  "fst (LoadProfile load_env ''/p/a.backup.yaml'' load_world) = Ok (completed load_env yaml_local)"
  "fst (LoadProfile load_env ''/p/b.backup.yaml'' load_world) = Fail (ErrNew ''bad yaml'')"
proof -
  have r: "os_read_file load_env p load_world = (Ok (Raw s), tock load_world)"
    if "path_ok p" and "node_at load_world (key_of [] p) = Some (plain_file s)" for p s
    using os_read_file_run [of load_env p load_world] that by (simp add: plain_file_def)
  have "ext ''/p/a.backup.yaml'' = ''.yaml''" "ext ''/p/b.backup.yaml'' = ''.yaml''"
    by code_simp+
  moreover have "to_lower ''Local'' = ''local''" by code_simp
  then have "loadProfileV1 load_env ''A'' = Inr (completed load_env yaml_local)"
    by (simp add: loadProfileV1_def completed_def createProfile_def validateSshConfig_def validateBackupTargets_def
        Let_def yaml_local_def empty_profile_def profile_consts)
  moreover have "loadProfileV1 load_env ''B'' = Inl (ErrNew ''bad yaml'')"
    by (simp add: loadProfileV1_def)
  ultimately show "fst (LoadProfile load_env ''/p/a.backup.yaml'' load_world) = Ok (completed load_env yaml_local)"
    "fst (LoadProfile load_env ''/p/b.backup.yaml'' load_world) = Fail (ErrNew ''bad yaml'')"
    using r [of "''/p/a.backup.yaml''"] r [of "''/p/b.backup.yaml''"]
    by (simp_all add: LoadProfile_fst path_ok_def path_max_def load_keys load_world_at getVersion_def)
qed

theorem LoadProfiles_loads_all_witness:
  "\<exists>err w'. LoadProfiles load_env ''/p'' load_world = (Ok ([completed load_env yaml_local], err), w') \<and> err \<noteq> None"
proof -
  have "paths_ok load_world (key_of (wd load_env) ''/p'') ''/p''" and "plain_key (wd load_env)"
    and "node_at load_world (key_of (wd load_env) ''/p'') = Some Dir"
    by (simp_all add: load_keys load_paths load_world_at plain_key_def)
  from LoadProfiles_loads_all [OF load_env_simps(1) this(2) load_world_wf this(1,3)] show ?thesis
    by (auto simp: load_profile_files loaded_def loads_def load_files_load)
qed


section \<open>What the checks let through\<close>

text \<open>A MariaDB database in a container needs no container name: the list of types that do has
  the two others only, so a profile without one is accepted.\<close>

theorem processDatabases_nameless_mariadb:
  assumes "to_lower (db_Type d) = DbDockerMaria"
  shows "processDatabases [d\<lparr>db_ContainerName := []\<rparr>] [] =
    Inr [d\<lparr>db_ContainerName := [], db_Type := DbDockerMaria\<rparr>]"
  using assms by (simp add: profile_consts)

theorem processDatabases_nameless_mariadb_witness:
  "processDatabases [\<lparr>db_Name = ''x'', db_Type = ''DockerMariaDB'', db_ContainerName = [], db_User = [], db_Password = []\<rparr>] [] =
    Inr [\<lparr>db_Name = ''x'', db_Type = DbDockerMaria, db_ContainerName = [], db_User = [], db_Password = []\<rparr>]"
proof -
  have "to_lower ''DockerMariaDB'' = DbDockerMaria" by code_simp
  then show ?thesis
    using processDatabases_nameless_mariadb
      [of "\<lparr>db_Name = ''x'', db_Type = ''DockerMariaDB'', db_ContainerName = ''c'', db_User = [], db_Password = []\<rparr>"]
    by (simp del: processDatabases.simps)
qed

text \<open>C38. A directory given by a symbolic link is checked with the link followed and walked without
  following it: when nothing fails no profile is loaded, and there is no error.\<close>

theorem LoadProfiles_skips_linked_dir:
  assumes "no_faults E" and "path_ok dir" and "node_at w (key_of (wd E) dir) = Some (Link t)"
    and "follow link_limit w (key_of (wd E) dir) = Inr k" and "node_at w k = Some Dir"
    and "\<not> has_suffix (base dir) profileExt"
  shows "fst (LoadProfiles E dir w) = Ok ([], None)"
proof -
  have s: "os_stat E dir w = (Ok \<lparr>fi_name = base dir, fi_kind = KDir\<rparr>, tock w)"
    using assms(1,2,4,5) by (simp add: os_stat_def syscall_run with_target_def ret_def)
  have l: "os_lstat E dir (tock w) = (Ok \<lparr>fi_name = base dir, fi_kind = KLink\<rparr>, tock (tock w))"
    using os_lstat_run [OF assms(1,2), of "tock w"] assms(3) by simp
  have "collect [] dir (Some \<lparr>fi_name = base dir, fi_kind = KLink\<rparr>) None v = (Ok [], v)" for v
    using assms(6) by (simp add: collect_def ret_def)
  then have "filepath_Walk E collect [] dir (tock w) = (Ok [], tock (tock w))"
    using l by (simp add: filepath_Walk_def walk_root_def bnd_def attempt_def IsDir_def)
  then show ?thesis using s by (simp add: LoadProfiles_def bnd_def attempt_def IsDir_def ret_def)
qed

definition link_world :: world where
  "link_world = world_of [([''p''], Dir), ([''p'', ''a.backup.yaml''], plain_file ''A''), ([''l''], Link ''p'')]"

theorem LoadProfiles_skips_linked_dir_witness:
  "fst (LoadProfiles load_env ''/l'' link_world) = Ok ([], None)"
proof (rule LoadProfiles_skips_linked_dir [where t = "''p''" and k = "[''p'']"])
  have "key_of [] ''/l'' = [''l'']" and p: "key_of [] ''p'' = [''p'']"
    by (simp_all add: key_of_def is_abs_def has_prefix_def norm_def push_def)
  then show "node_at link_world (key_of (wd load_env) ''/l'') = Some (Link ''p'')"
    by (simp add: link_world_def node_at_world_of)
  have "follow (Suc n) link_world [''l''] = Inr [''p'']" for n
    by (subst follow.simps) (simp add: link_world_def node_at_world_of p, subst follow.simps, simp add: node_at_world_of)
  from this [of 39] show "follow link_limit link_world (key_of (wd load_env) ''/l'') = Inr [''p'']"
    using \<open>key_of [] ''/l'' = [''l'']\<close> by (simp add: link_limit_def)
  have "base ''/l'' = ''l''" by code_simp
  then show "\<not> has_suffix (base ''/l'') profileExt" by (simp add: profileExt_def has_suffix_def)
qed (simp_all add: path_ok_def path_max_def link_world_def node_at_world_of)

end
