(* ===== verification/Notify.thy ===== *)
theory Notify
  imports RefEnv
begin

text \<open>
  \<open>app/goback/notify.go\<close>: the two messages and sending them. A message that the mail server
  accepted is added to \<open>mails\<close>.
\<close>

definition crlf :: string where
  "crlf = [CHR 0x0D, CHR 0x0A]"

text \<open>The mail goes out in the name of the account; \<open>From\<close> is only a header.\<close>

definition message :: "EmailNotify \<Rightarrow> string \<Rightarrow> string" where
  "message cfg body =
     ''From: '' @ en_From cfg @ crlf @
     ''To: '' @ str_join '', '' (en_To cfg) @ crlf @
     ''MIME-version: 1.0;'' @ crlf @
     ''Content-Type: text/plain; charset='' @ [CHR 0x22] @ ''UTF-8'' @ [CHR 0x22] @ '';'' @ crlf @
     body"

definition mail_of :: "EmailNotify \<Rightarrow> string \<Rightarrow> mail" where
  "mail_of cfg body =
     \<lparr>mail_addr = en_Host cfg @ '':'' @ en_Port cfg, mail_user = en_User cfg,
      mail_password = en_Password cfg, mail_host = en_Host cfg,
      mail_from = en_User cfg, mail_to = en_To cfg, mail_body = message cfg body\<rparr>"

definition send :: "env \<Rightarrow> EmailNotify \<Rightarrow> string \<Rightarrow> (world, unit) go" where
  "send E cfg body =
     bnd (map_err (errorf_v ''unable to send email: '') (service_err (\<lambda>t. smtp_send E t (mail_of cfg body)))) (\<lambda>_.
     modify (\<lambda>w. w\<lparr>mails := mails w @ [mail_of cfg body]\<rparr>))"

text \<open>The bytes of the two symbols in UTF-8.\<close>

definition check_mark :: string where
  "check_mark = [CHR 0xE2, CHR 0x9C, CHR 0x85]"

definition cross_mark :: string where
  "cross_mark = [CHR 0xE2, CHR 0x9D, CHR 0x8C]"

definition success_body :: "string \<Rightarrow> string \<Rightarrow> string" where
  "success_body prfName time =
     ''Subject: Goback Success Notification'' @ crlf @
     crlf @
     check_mark @ '' Backup completed successfully.'' @ newline @ newline @
     ''Profile: '' @ prfName @ newline @
     ''Time: '' @ time @ newline @
     newline @ ''Everything went as expected.'' @ newline"

definition failure_body :: "string \<Rightarrow> string \<Rightarrow> goerr \<Rightarrow> string" where
  "failure_body prfName time err =
     ''Subject: Goback Failure Notification'' @ crlf @
     crlf @
     cross_mark @ '' Backup failed.'' @ newline @ newline @
     ''Profile: '' @ prfName @ newline @
     ''Time: '' @ time @ newline @
     ''Error: '' @ error_text err @ newline @
     newline @ ''Please investigate the issue.'' @ newline"

definition NotifySuccess :: "env \<Rightarrow> EmailNotify \<Rightarrow> string \<Rightarrow> (world, unit) go" where
  "NotifySuccess E cfg prfName = bnd (time_now E) (\<lambda>t. send E cfg (success_body prfName (rfc1123 E t)))"

definition NotifyFailure :: "env \<Rightarrow> EmailNotify \<Rightarrow> string \<Rightarrow> goerr \<Rightarrow> (world, unit) go" where
  "NotifyFailure E cfg prfName err = bnd (time_now E) (\<lambda>t. send E cfg (failure_body prfName (rfc1123 E t) err))"


section \<open>What a notification does\<close>

lemma send_run:
  "send E cfg body w =
     (case smtp_send E (tick w) (mail_of cfg body) of
        None \<Rightarrow> (Ok (), (tock w)\<lparr>mails := mails w @ [mail_of cfg body]\<rparr>)
      | Some e \<Rightarrow> (Fail (errorf_v ''unable to send email: '' e), tock w))"
  by (simp add: send_def service_err_def service_def bnd_def map_err_def handle_def check_err_def
      modify_def ret_def throw_def split: option.splits)

lemma bnd_time_now: "bnd (time_now E) f w = f (clock E (tick w)) (tock w)"
  by (simp add: bnd_def time_now_def service_def)

lemma notify_run:
  "NotifySuccess E cfg name w = send E cfg (success_body name (rfc1123 E (clock E (tick w)))) (tock w)"
  "NotifyFailure E cfg name err w = send E cfg (failure_body name (rfc1123 E (clock E (tick w))) err) (tock w)"
  by (simp_all add: NotifySuccess_def NotifyFailure_def bnd_time_now)

end
