(* ===== verification/Runner.thy ===== *)
theory Runner
  imports Backup Profile Notify
begin

text \<open>
  \<open>app/goback/goback.go\<close>: running a profile of each type, the notifications around it, and
  running all the profiles that were loaded.
\<close>

section \<open>Local and remote profiles\<close>

text \<open>What both do with a backup that was written: owner, mode, and the old backups.\<close>

definition finish_backup :: "env \<Rightarrow> Profile \<Rightarrow> string \<Rightarrow> (world, unit) go" where
  "finish_backup E prfl destZip =
     (let d = prf_Destination prfl in
      bnd (if dest_Owner d \<noteq> [] then
             map_err (errorf_v (''unable to change owner of file: '' @ [CHR 0x22] @ destZip @ [CHR 0x22] @ '', ''))
               (chown E destZip (dest_Owner d))
           else ret ()) (\<lambda>_.
      bnd (if dest_Mode d \<noteq> [] then
             map_err (errorf_v (''unable to change perm of file: '' @ [CHR 0x22] @ destZip @ [CHR 0x22] @ '', ''))
               (chmod E destZip (dest_Mode d))
           else ret ()) (\<lambda>_.
      if dest_Keep d > 0 then
        map_err (errorf_w ''error expurging old backup files: '')
          (ExpurgeDir E (dest_Path d) (dest_Keep d) (prf_Name prfl))
      else ret ())))"

definition runLocalProfile :: "env \<Rightarrow> Profile \<Rightarrow> (world, unit) go" where
  "runLocalProfile E prfl =
     bnd (prepareDestination E (dest_Path (prf_Destination prfl))) (\<lambda>_.
     bnd (getZipName E (prf_Name prfl)) (\<lambda>zipName.
     let destZip = path_join [dest_Path (prf_Destination prfl), zipName] in
     bnd (handle (backupLocal E prfl destZip) (delZipAndErr E destZip)) (\<lambda>_.
     finish_backup E prfl destZip)))"

text \<open>The path of the zip file is the destination itself: no name is joined to it.\<close>

definition runRemoteProfile :: "env \<Rightarrow> Profile \<Rightarrow> (world, unit) go" where
  "runRemoteProfile E prfl =
     bnd (prepareDestination E (dest_Path (prf_Destination prfl))) (\<lambda>_.
     let destZip = path_join [dest_Path (prf_Destination prfl)] in
     bnd (handle (backupRemote E prfl destZip) (delZipAndErr E destZip)) (\<lambda>_.
     finish_backup E prfl destZip))"


section \<open>Synchronisation profiles\<close>

definition sync_dir :: "env \<Rightarrow> Profile \<Rightarrow> BackupPath \<Rightarrow> (world, unit) go" where
  "sync_dir E prfl syncDir =
     (let d = prf_Destination prfl in
      bnd (syncRemoteBackups E (bp_Path syncDir) (bp_Name syncDir) (dest_Path d)) (\<lambda>_.
      if dest_Keep d > 0 then
        map_err (errorf_w ''error expurging old backup files: '')
          (ExpurgeDir E (dest_Path d) (dest_Keep d) (bp_Name syncDir))
      else ret ()))"

definition runSyncProfile :: "env \<Rightarrow> Profile \<Rightarrow> (world, unit) go" where
  "runSyncProfile E prfl =
     bnd (prepareDestination E (dest_Path (prf_Destination prfl))) (\<lambda>_.
     bnd (map_err (errorf_v ''error creating ssh client: '') (NewClient E (ssh_cfg prfl))) (\<lambda>sshC.
     bnd (map_err (errorf_v ''error connecting ssh: '') (Connect E sshC)) (\<lambda>sshC.
     defer_ignore
       (bnd (map_err (errorf_v ''unable to create sftp client '') (sftp_NewClient E sshC)) (\<lambda>_.
        defer_join (\<lambda>_. True)
          (for_each (prf_Dirs prfl) (sync_dir E prfl))
          (sftpc_Close E)))
       (Disconnect E sshC))))"


section \<open>Running with notifications\<close>

type_synonym runnerFn = "Profile \<Rightarrow> (world, unit) go"

definition RunWithNotify :: "env \<Rightarrow> Profile \<Rightarrow> runnerFn \<Rightarrow> (world, unit) go" where
  "RunWithNotify E prfl runFn =
     bnd (attempt (runFn prfl)) (\<lambda>r.
     case r of
       Inl err \<Rightarrow>
         bnd (if HasValues (prf_Notify prfl) then
                bnd (attempt (NotifyFailure E (prf_Notify prfl) (prf_Name prfl) err)) (\<lambda>_. ret ())
              else ret ()) (\<lambda>_.
         throw err)
     | Inr _ \<Rightarrow>
         if HasValues (prf_Notify prfl) \<and> en_OnSuccess (prf_Notify prfl) then
           bnd (attempt (NotifySuccess E (prf_Notify prfl) (prf_Name prfl))) (\<lambda>_. ret ())
         else ret ())"

text \<open>The clock is read before and after, for the log.\<close>

definition RunProfile :: "env \<Rightarrow> Profile \<Rightarrow> (world, unit) go" where
  "RunProfile E prfl =
     bnd (time_now E) (\<lambda>start.
     let run = (\<lambda>runFn.
       bnd (map_err (errorf_w (''profile '' @ prf_Name prfl @ '' failed: '')) (RunWithNotify E prfl runFn)) (\<lambda>_.
       bnd (time_now E) (\<lambda>t. ret ()))) in
     if prf_Type prfl = TypeLocal then run (runLocalProfile E)
     else if prf_Type prfl = TypeRemote then run (runRemoteProfile E)
     else if prf_Type prfl = TypeSftpSync then run (runSyncProfile E)
     else throw (ErrNew (''unknown profile type: '' @ prf_Type prfl)))"


section \<open>The runner\<close>

record BackupRunner =
  profiles :: "Profile list"

definition LoadProfileFile :: "env \<Rightarrow> BackupRunner \<Rightarrow> string \<Rightarrow> (world, BackupRunner) go" where
  "LoadProfileFile E br f =
     bnd (LoadProfile E f) (\<lambda>prfl. ret (br\<lparr>profiles := profiles br @ [prfl]\<rparr>))"

text \<open>The profiles that loaded are kept although there is an error.\<close>

definition LoadProfilesDir :: "env \<Rightarrow> BackupRunner \<Rightarrow> string \<Rightarrow> (world, BackupRunner \<times> goerr option) go" where
  "LoadProfilesDir E br dir =
     bnd (LoadProfiles E dir) (\<lambda>(prfl, err). ret (br\<lparr>profiles := profiles br @ prfl\<rparr>, err))"

definition run_next :: "env \<Rightarrow> Profile \<Rightarrow> goerr option \<Rightarrow> (world, goerr option) go" where
  "run_next E prfl errs =
     bnd (attempt (RunProfile E prfl)) (\<lambda>r.
     case r of
       Inl err \<Rightarrow> ret (errors_join errs (Some (errorf_w (''profile '' @ prf_Name prfl @ '' failed: '') err)))
     | Inr _ \<Rightarrow> ret errs)"

definition Run :: "env \<Rightarrow> BackupRunner \<Rightarrow> (world, unit) go" where
  "Run E br =
     bnd (go_fold (run_next E) (profiles br) None) (\<lambda>errs.
     if errs \<noteq> None then throw (ErrNew ''at least one profile execution was not successful'')
     else ret ())"


section \<open>What a local run may touch\<close>

text \<open>The destination directory and the possible backups of the profile in it.\<close>

definition own_keys :: "key \<Rightarrow> string \<Rightarrow> key set" where
  "own_keys d name = insert d (backup_keys d name)"

lemma zip_key:
  assumes "is_backup_of name f" and "slash \<notin> set name"
  shows "key_of d (path_join [dest, f]) \<in> own_keys (key_of d dest) name"
  using is_backup_of_plain_name [OF assms] assms(1)
  by (auto simp: key_of_join own_keys_def backup_keys_def)

lemma effects_finish_backup:
  assumes "dated_glob (glob_compile E)" and "glob_plain (prf_Name p)" and "slash \<notin> set (prf_Name p)"
    and "key_of (wd E) destZip \<in> own_keys (key_of (wd E) (dest_Path (prf_Destination p))) (prf_Name p)"
  shows "effects (frame (own_keys (key_of (wd E) (dest_Path (prf_Destination p))) (prf_Name p)))
    (finish_backup E p destZip)"
proof -
  have "effects (frame (own_keys (key_of (wd E) (dest_Path (prf_Destination p))) (prf_Name p)))
      (ExpurgeDir E (dest_Path (prf_Destination p)) n (prf_Name p))" for n
    by (rule effects_mono [OF effects_ExpurgeDir [OF assms(1-3)]], erule frame_mono) (auto simp: own_keys_def)
  then show ?thesis
    unfolding finish_backup_def Let_def
    by (intro fr.keeps_bnd fr.keeps_if fr.keeps_ret fr.keeps_map_err effects_chown effects_chmod assms(4))
qed

lemma effects_getZipName: "effects ticked (getZipName E name)"
  unfolding getZipName_def by (intro tk.keeps_bnd effects_time_now tk.keeps_ret)

lemma getZipName_Ok: "getZipName E name w = (Ok zn, w') \<Longrightarrow> zn = zip_name name (clock E (tick w))"
  by (auto simp: getZipName_def time_now_def service_def)

text \<open>
  C6. Safety. Whatever system calls, processes and services fail, and whatever the run returns, a
  local profile changes no file of the system but the destination directory (which it may
  create) and files of that directory named as its own backups: the data that is backed up,
  the backups of other profiles and everything else stay as they are.
\<close>

theorem runLocalProfile_touches_only_own:
  assumes "dated_glob (glob_compile E)" and "glob_plain (prf_Name p)" and "slash \<notin> set (prf_Name p)"
    and "\<And>t. valid_time (clock E t)"
    and "no_links (own_keys (key_of (wd E) (dest_Path (prf_Destination p))) (prf_Name p)) w"
    and "k \<notin> own_keys (key_of (wd E) (dest_Path (prf_Destination p))) (prf_Name p)"
  shows "node_at (snd (runLocalProfile E p w)) k = node_at w k"
proof -
  let ?d = "dest_Path (prf_Destination p)"
  let ?K = "own_keys (key_of (wd E) ?d) (prf_Name p)"
  have body: "effects (frame ?K) (bnd (handle (backupLocal E p z) (delZipAndErr E z)) (\<lambda>_. finish_backup E p z))"
    if "key_of (wd E) z \<in> ?K" for z
    by (intro fr.keeps_bnd fr.keeps_handle effects_backupLocal effects_delZipAndErr that
        effects_finish_backup assms(1-3))
  have "effects (frame ?K) (runLocalProfile E p)"
    unfolding runLocalProfile_def Let_def
  proof (rule fr.keeps_bnd [OF effects_prepareDestination])
    show "key_of (wd E) ?d \<in> ?K" by (simp add: own_keys_def)
    show "effects (frame ?K) (bnd (getZipName E (prf_Name p)) (\<lambda>zipName.
        bnd (handle (backupLocal E p (path_join [?d, zipName])) (delZipAndErr E (path_join [?d, zipName])))
          (\<lambda>_. finish_backup E p (path_join [?d, zipName]))))"
    proof (rule fr.keeps_bnd_Ok [OF fr.from_ticked [OF effects_getZipName]])
      fix zn and s t :: world
      assume "getZipName E (prf_Name p) s = (Ok zn, t)"
      then have "is_backup_of (prf_Name p) zn"
        using getZipName_Ok is_backup_of_zip_name assms(4) by blast
      then show "frame ?K t (snd (bnd (handle (backupLocal E p (path_join [?d, zn])) (delZipAndErr E (path_join [?d, zn])))
          (\<lambda>_. finish_backup E p (path_join [?d, zn])) t))"
        by (intro effects_snd [OF body] zip_key assms(3))
    qed
  qed
  then have "frame ?K w (snd (runLocalProfile E p w))" by (rule effects_snd)
  then show ?thesis using assms(5,6) by (auto simp: frame_def same_outside_def)
qed


section \<open>Remote profiles\<close>

lemma follow_cong:
  assumes "fs v = fs w"
  shows "follow n v k = follow n w k"
proof -
  have at: "node_at v = node_at w" using assms by (simp add: node_at_def fun_eq_iff)
  show ?thesis
  proof (induction n arbitrary: k)
    case 0
    then show ?case by (subst (1 2) follow.simps) (simp add: at split: option.splits node.splits)
  next
    case (Suc n)
    then show ?case by (subst (1 2) follow.simps) (simp add: at split: option.splits node.splits)
  qed
qed

definition leads_to_dir :: "env \<Rightarrow> string \<Rightarrow> world \<Rightarrow> bool" where
  "leads_to_dir E p w \<longleftrightarrow> (\<exists>k. follow link_limit w (key_of (wd E) p) = Inr k \<and> node_at w k = Some Dir)"

lemma leads_to_dir_cong: "fs v = fs w \<Longrightarrow> leads_to_dir E p v = leads_to_dir E p w"
  unfolding leads_to_dir_def using follow_cong [of v w] node_at_cong [of v w] by metis

lemma os_stat_dir: "os_stat E p w = (Ok i, w') \<Longrightarrow> IsDir i \<Longrightarrow> leads_to_dir E p w'"
  by (auto simp: os_stat_def syscall_def Let_def with_target_def fail_missing_def leads_to_dir_def IsDir_def
      split: option.splits if_splits sum.splits) (metis fkind.distinct(1,3) kind_of.elims)

lemma prepareDestination_dir:
  assumes "prepareDestination E dest w = (Ok (), w')"
  shows "leads_to_dir E dest w'"
proof -
  obtain i v where "os_stat E dest v = (Ok i, w')" and "IsDir i"
    using assms by (auto simp: prepareDestination_def split: sum.splits if_splits)
  then show ?thesis by (rule os_stat_dir)
qed

lemma New_dir: "leads_to_dir E dest w \<Longrightarrow> New E dest w \<noteq> (Ok z, w')"
  by (auto simp: New_def os_open_file_def syscall_def Let_def with_target_def leads_to_dir_def throw_def
      split: option.splits if_splits)

lemma quiet_NewClient: "effects (keeps files_part) (NewClient E cfg)"
proof -
  have "effects (keeps files_part) (readKey E f)" for f
    unfolding readKey_def Let_def by (intro quiet_rules)
  moreover have "effects (keeps files_part) (sshAgentSigners E)"
    unfolding sshAgentSigners_def Let_def by (intro quiet_rules)
  ultimately show ?thesis
    unfolding NewClient_def auth_methods_def host_key_callback_def Let_def by (intro quiet_rules)
qed

lemma quiet_Connect: "effects (keeps files_part) (Connect E c)"
  unfolding Connect_def by (intro quiet_rules)

lemma backupRemote_dir:
  assumes "leads_to_dir E dest w"
  shows "backupRemote E p dest w \<noteq> (Ok (), w')"
proof
  assume "backupRemote E p dest w = (Ok (), w')"
  then obtain c u c' v z v' where c: "NewClient E (ssh_cfg p) w = (Ok c, u)" "Connect E c u = (Ok c', v)"
      and n: "New E dest v = (Ok z, v')"
    by (auto simp: backupRemote_def elim!: defer_ignore_OkE)
  then have "fs v = fs w"
    using effectsD [OF quiet_NewClient c(1)] effectsD [OF quiet_Connect c(2)] by (simp add: files_part_eq)
  then have "leads_to_dir E dest v" using assms leads_to_dir_cong by blast
  then show False using n New_dir by blast
qed

text \<open>
  C39. A remote profile never succeeds: the zip file it opens is the destination directory
  itself, which was checked to be a directory just before. So no remote data is ever backed
  up, whatever the server and the file system do.
\<close>

theorem runRemoteProfile_never_succeeds: "fst (runRemoteProfile E p w) \<noteq> Ok ()"
proof
  let ?d = "dest_Path (prf_Destination p)"
  assume "fst (runRemoteProfile E p w) = Ok ()"
  then obtain w' where "runRemoteProfile E p w = (Ok (), w')" by (metis prod.collapse)
  then obtain v v' where d: "prepareDestination E ?d w = (Ok (), v)"
      and h: "handle (backupRemote E p (path_join [?d])) (delZipAndErr E (path_join [?d])) v = (Ok (), v')"
    by (auto simp: runRemoteProfile_def Let_def)
  have "key_of (wd E) (path_join [?d]) = key_of (wd E) ?d"
    by (cases "?d = []") (simp_all add: path_join_def key_of_clean)
  then have dir: "leads_to_dir E (path_join [?d]) v" using prepareDestination_dir [OF d] by (simp add: leads_to_dir_def)
  have "delZipAndErr E z e t \<noteq> (Ok (), t')" for z e t t'
    by (auto simp: delZipAndErr_def split: sum.splits)
  with h have "backupRemote E p (path_join [?d]) v = (Ok (), v')" by (auto elim: handle_OkE)
  then show False using backupRemote_dir [OF dir] by blast
qed


section \<open>Notifications\<close>

text \<open>The mail a run of the profile is announced with, if it is configured.\<close>

definition announces :: "EmailNotify \<Rightarrow> goerr option \<Rightarrow> bool" where
  "announces cfg err \<longleftrightarrow> HasValues cfg \<and> (err \<noteq> None \<or> en_OnSuccess cfg)"

definition announcement :: "env \<Rightarrow> Profile \<Rightarrow> goerr option \<Rightarrow> nat \<Rightarrow> mail" where
  "announcement E p err t = mail_of (prf_Notify p)
     (case err of None \<Rightarrow> success_body (prf_Name p) (rfc1123 E (clock E t))
      | Some e \<Rightarrow> failure_body (prf_Name p) (rfc1123 E (clock E t)) e)"

lemma RunWithNotify_run:
  assumes "runFn p w = (r, v)" and "r \<noteq> Panic"
  shows "\<exists>t w'. RunWithNotify E p runFn w = (r, w') \<and>
    w' = v\<lparr>tick := tick w', mails := mails w'\<rparr> \<and>
    (let err = (case r of Fail e \<Rightarrow> Some e | _ \<Rightarrow> None); m = announcement E p err t in
     mails w' = mails v @ (if announces (prf_Notify p) err \<and> smtp_send E (Suc t) m = None then [m] else []))"
proof -
  let ?ok = "mail_of (prf_Notify p) (success_body (prf_Name p) (rfc1123 E (clock E (tick v))))"
  show ?thesis
  proof (cases r)
    case (Ok u)
    then show ?thesis
      using assms
      by (intro exI [of _ "tick v"])
        (auto simp: RunWithNotify_def bnd_def attempt_def announces_def announcement_def notify_run send_run
          ret_def Let_def split: option.splits prod.splits res.splits)
  next
    case (Fail e)
    then show ?thesis
      using assms
      by (intro exI [of _ "tick v"])
        (auto simp: RunWithNotify_def bnd_def attempt_def announces_def announcement_def notify_run send_run
          ret_def throw_def Let_def split: option.splits prod.splits res.splits)
  next
    case Panic
    then show ?thesis using assms by simp
  qed
qed

text \<open>
  C23. Notifications never change what a run does: \<open>RunWithNotify\<close> returns what the run returns
  and leaves the files, connections and handles as the run left them. It sends at most one
  mail, and one just when the run returned, notifications are configured (for a success only if
  asked for) and the server accepts it; a mail that cannot be sent is no error.
\<close>

theorem RunWithNotify_transparent:
  assumes "runFn p w = (r, v)" and "r \<noteq> Panic"
  shows "\<exists>t w'. RunWithNotify E p runFn w = (r, w') \<and>
    w' = v\<lparr>tick := tick w', mails := mails w'\<rparr> \<and>
    (let err = (case r of Fail e \<Rightarrow> Some e | _ \<Rightarrow> None); m = announcement E p err t in
     mails w' = mails v @ (if announces (prf_Notify p) err \<and> smtp_send E (Suc t) m = None then [m] else []))"
  using assms by (rule RunWithNotify_run)

section \<open>All profiles\<close>

text \<open>What running some profiles one after another returns, and the state it leaves.\<close>

fun outcomes :: "env \<Rightarrow> Profile list \<Rightarrow> world \<Rightarrow> unit res list" where
  "outcomes E [] w = []"
| "outcomes E (p # ps) w = fst (RunProfile E p w) # outcomes E ps (snd (RunProfile E p w))"

definition after :: "env \<Rightarrow> Profile list \<Rightarrow> world \<Rightarrow> world" where
  "after E ps w = fold (\<lambda>p v. snd (RunProfile E p v)) ps w"

lemma run_next_run:
  assumes "RunProfile E p w = (r, v)" and "r \<noteq> Panic"
  shows "\<exists>errs'. run_next E p errs w = (Ok errs', v) \<and> (errs' = None \<longleftrightarrow> errs = None \<and> r = Ok ())"
proof (cases r)
  case (Fail e)
  have "errors_join errs (Some x) \<noteq> None" for x by simp
  then show ?thesis using Fail assms by (simp add: run_next_def bnd_def attempt_def ret_def del: not_None_eq)
qed (use assms in \<open>simp_all add: run_next_def bnd_def attempt_def ret_def\<close>)

lemma run_all:
  "Panic \<notin> set (outcomes E ps w) \<Longrightarrow> \<exists>errs'. go_fold (run_next E) ps errs w = (Ok errs', after E ps w) \<and>
    (errs' = None \<longleftrightarrow> errs = None \<and> (\<forall>r \<in> set (outcomes E ps w). r = Ok ()))"
proof (induction ps arbitrary: errs w)
  case Nil
  then show ?case by (simp add: after_def ret_def)
next
  case (Cons p ps)
  obtain r v where r: "RunProfile E p w = (r, v)" by (cases "RunProfile E p w")
  with Cons.prems have "r \<noteq> Panic" and np: "Panic \<notin> set (outcomes E ps v)" by auto
  then obtain errs1 where n: "run_next E p errs w = (Ok errs1, v)" "errs1 = None \<longleftrightarrow> errs = None \<and> r = Ok ()"
    using run_next_run [OF r] by blast
  obtain errs' where e: "go_fold (run_next E) ps errs1 v = (Ok errs', after E ps v)"
      "errs' = None \<longleftrightarrow> errs1 = None \<and> (\<forall>r \<in> set (outcomes E ps v). r = Ok ())"
    using Cons.IH [OF np] by blast
  have "after E (p # ps) w = after E ps v" using r by (simp add: after_def)
  moreover have "go_fold (run_next E) (p # ps) errs w = (Ok errs', after E ps v)"
    using n(1) e(1) by (simp add: bnd_def)
  ultimately show ?case using n(2) e(2) r by auto
qed

text \<open>
  C15. \<open>Run\<close> runs every profile, in order and each in the state the one before left, also after
  failures; it fails exactly when at least one of them failed. (For profiles that do not
  panic: a panic ends the program.)
\<close>

theorem Run_runs_every_profile:
  assumes "Panic \<notin> set (outcomes E (profiles br) w)"
  shows "Run E br w =
    (if list_all (\<lambda>r. r = Ok ()) (outcomes E (profiles br) w) then Ok ()
     else Fail (ErrNew ''at least one profile execution was not successful''),
     after E (profiles br) w)"
proof -
  obtain errs where "go_fold (run_next E) (profiles br) None w = (Ok errs, after E (profiles br) w)"
      and "errs = None \<longleftrightarrow> list_all (\<lambda>r. r = Ok ()) (outcomes E (profiles br) w)"
    using run_all [OF assms, of None] by (auto simp: list_all_iff)
  then show ?thesis by (cases errs) (auto simp: Run_def bnd_def ret_def throw_def)
qed


section \<open>Examples\<close>

definition plain_profile :: "ProfileType \<Rightarrow> Profile" where
  "plain_profile t = \<lparr>prf_Name = ''a'', prf_Type = t, prf_Ssh = v1_Ssh empty_profile, prf_Dirs = [], prf_Dbs = [],
     prf_Destination = \<lparr>dest_Path = ''/b'', dest_Keep = 0, dest_Owner = [], dest_Mode = []\<rparr>,
     prf_Notify = \<lparr>en_Host = ''h'', en_Port = ''25'', en_User = ''u'', en_Password = ''p'', en_From = ''f'',
       en_To = [''t''], en_OnSuccess = False\<rparr>\<rparr>"

definition run_world :: world where
  "run_world = world_of [([''b''], Dir), ([''d''], Dir), ([''d'', ''x''], plain_file ''X'')]"

definition two_profiles :: BackupRunner where
  "two_profiles = \<lparr>profiles = [plain_profile ''none'', plain_profile ''local'']\<rparr>"

lemma two_outcomes:
  "outcomes ref_env (profiles two_profiles) run_world = [Fail (ErrNew ''unknown profile type: none''), Ok ()]"
  by code_simp

theorem Run_runs_every_profile_witness:
  "fst (Run ref_env two_profiles run_world) = Fail (ErrNew ''at least one profile execution was not successful'') \<and>
   node_at (snd (Run ref_env two_profiles run_world)) [''b'', zip_name ''a'' ref_time] \<noteq> None"
proof -
  have "Panic \<notin> set (outcomes ref_env (profiles two_profiles) run_world)" by (simp add: two_outcomes)
  note r = Run_runs_every_profile [OF this]
  have "node_at (after ref_env (profiles two_profiles) run_world) [''b'', zip_name ''a'' ref_time] \<noteq> None"
    by code_simp
  then show ?thesis unfolding r by (simp add: two_outcomes)
qed

theorem RunWithNotify_transparent_witness:
  "\<exists>w' m. RunWithNotify ref_env (plain_profile ''local'') (\<lambda>p. throw (ErrNew ''boom'')) run_world =
     (Fail (ErrNew ''boom''), w') \<and> mails w' = [m] \<and> fs w' = fs run_world"
proof -
  let ?f = "\<lambda>p. throw (ErrNew ''boom'')"
  have "?f (plain_profile ''local'') run_world = (Fail (ErrNew ''boom''), run_world)"
    by (simp add: throw_def)
  from RunWithNotify_transparent [where runFn = ?f and p = "plain_profile ''local''", OF this, of ref_env]
  obtain t w' where r: "RunWithNotify ref_env (plain_profile ''local'') ?f run_world = (Fail (ErrNew ''boom''), w')"
    and w: "w' = run_world\<lparr>tick := tick w', mails := mails w'\<rparr>"
    and m: "mails w' = mails run_world @ (if announces (prf_Notify (plain_profile ''local'')) (Some (ErrNew ''boom'')) \<and> True
      then [announcement ref_env (plain_profile ''local'') (Some (ErrNew ''boom'')) t] else [])"
    by (auto simp: Let_def simp del: not_None_eq)
  have "announces (prf_Notify (plain_profile ''local'')) (Some (ErrNew ''boom''))"
    by (simp add: announces_def HasValues_def plain_profile_def)
  then have "mails w' = [announcement ref_env (plain_profile ''local'') (Some (ErrNew ''boom'')) t]"
    using m by (simp add: run_world_def)
  moreover have "fs w' = fs run_world" by (subst w) simp
  ultimately show ?thesis using r by blast
qed

theorem runLocalProfile_touches_only_own_witness:
  "node_at (snd (runLocalProfile ref_env (plain_profile ''local'') run_world)) [''d'', ''x''] = Some (plain_file ''X'')"
proof -
  have d: "key_of (wd ref_env) (dest_Path (prf_Destination (plain_profile ''local''))) = [''b'']"
    by (simp add: plain_profile_def key_of_def is_abs_def has_prefix_def norm_def push_def)
  have "node_at (snd (runLocalProfile ref_env (plain_profile ''local'') run_world)) [''d'', ''x''] =
      node_at run_world [''d'', ''x'']"
  proof (rule runLocalProfile_touches_only_own)
    show "no_links (own_keys (key_of (wd ref_env) (dest_Path (prf_Destination (plain_profile ''local''))))
        (prf_Name (plain_profile ''local''))) run_world"
      by (auto simp: no_links_def is_link_def run_world_def node_at_world_of plain_file_def)
    show "[''d'', ''x''] \<notin> own_keys (key_of (wd ref_env) (dest_Path (prf_Destination (plain_profile ''local''))))
        (prf_Name (plain_profile ''local''))"
      unfolding d by (simp add: own_keys_def backup_keys_def)
  qed (use ex_backups(8) in \<open>simp_all add: plain_profile_def ref_time_def valid_time_def days_in_def is_leap_def\<close>)
  then show ?thesis by (simp add: run_world_def node_at_world_of)
qed

end
