(* ===== verification/LocalRun.thy ===== *)
theory LocalRun
  imports Runner
begin

text \<open>
  What a local run achieves: the content of the zip file \<open>backupLocal\<close> writes, that a failed
  one leaves no zip file, and the destination after a complete \<open>runLocalProfile\<close>.
\<close>

section \<open>The same data in two states\<close>

text \<open>Two file systems that differ in the zip file only.\<close>

definition elsewhere :: "key \<Rightarrow> world \<Rightarrow> world \<Rightarrow> bool" where
  "elsewhere zk w v \<longleftrightarrow> (\<forall>k. k \<noteq> zk \<longrightarrow> node_at v k = node_at w k)"

lemma elsewhereD: "elsewhere zk w v \<Longrightarrow> k \<noteq> zk \<Longrightarrow> node_at v k = node_at w k"
  by (simp add: elsewhere_def)

lemma elsewhere_trans: "elsewhere zk w v \<Longrightarrow> elsewhere zk v u \<Longrightarrow> elsewhere zk w u"
  by (simp add: elsewhere_def)

lemma wrote_elsewhere: "wrote z es w v \<Longrightarrow> elsewhere (zfile z) w v"
  by (simp add: wrote_def elsewhere_def)

lemma children_elsewhere:
  assumes "elsewhere zk w v" and "fs_wf w" and "fs_wf v" and "\<And>ns. zk \<noteq> k @ ns"
  shows "children v (k @ ns) = children w (k @ ns)"
proof (rule children_eqI [OF assms(3,2)])
  fix n show "node_at v ((k @ ns) @ [n]) = None \<longleftrightarrow> node_at w ((k @ ns) @ [n]) = None"
    using assms(1,4) by (metis append.assoc elsewhereD)
qed

lemma visit_cong:
  assumes "\<And>ns. node_at v (k @ ns) = node_at w (k @ ns)" and "\<And>ns. children v (k @ ns) = children w (k @ ns)"
  shows "visit n v k ns = visit n w k ns"
  by (induction n arbitrary: ns) (simp_all add: assms split: option.splits)

lemma dir_archive_elsewhere:
  assumes "elsewhere zk w v" and "fs_wf w" and "fs_wf v" and "can_archive E dir zk w"
  shows "dir_archive E dir v = dir_archive E dir w"
proof -
  let ?k = "key_of (wd E) (bp_Path dir)"
  have ne: "zk \<noteq> ?k @ ns" for ns using assms(4) by (simp add: can_archive_def Let_def)
  have "visit n v ?k [] = visit n w ?k []" for n
    using children_elsewhere [OF assms(1-3) ne] elsewhereD [OF assms(1)] ne by (intro visit_cong) metis+
  then show ?thesis by (simp add: dir_archive_def files_below_def del: visit.simps)
qed

text \<open>A zip file that was made after \<open>w\<close> is in the way of no link.\<close>

lemma can_archive_elsewhere:
  assumes "elsewhere zk w v" and "can_archive E dir zk w" and "\<not> is_link w zk" and "\<not> is_link v zk"
    and "node_at v zk \<noteq> None"
  shows "can_archive E dir zk v"
proof -
  let ?k = "key_of (wd E) (bp_Path dir)"
  note c = assms(2) [unfolded can_archive_def Let_def]
  have ne: "zk \<noteq> ?k @ ns" for ns using c by blast
  then have at: "node_at v (?k @ ns) = node_at w (?k @ ns)" for ns
    using elsewhereD [OF assms(1)] by metis
  have "\<exists>k' n. follow link_limit v (?k @ ns) = Inr k' \<and> node_at v k' = Some n"
    if "follow link_limit w (?k @ ns) = Inr k'" "node_at w k' = Some n" for ns k' n
  proof -
    have "follow link_limit v (?k @ ns) = Inr k'"
      using that(1) elsewhereD [OF assms(1)] assms(3,4) by (rule follow_cong_except)
    moreover have "\<exists>n. node_at v k' = Some n"
      using that(2) assms(5) elsewhereD [OF assms(1)] by (cases "k' = zk") auto
    ultimately show ?thesis by blast
  qed
  then have "case x of Link t \<Rightarrow> (\<exists>k' n. follow link_limit v (?k @ ns) = Inr k' \<and> node_at v k' = Some n) | _ \<Rightarrow> True"
    if "case x of Link t \<Rightarrow> (\<exists>k' n. follow link_limit w (?k @ ns) = Inr k' \<and> node_at w k' = Some n) | _ \<Rightarrow> True" for x ns
    using that by (cases x) auto
  moreover have "paths_ok v ?k (bp_Path dir)" using c at by (simp add: paths_ok_def)
  moreover have "node_at v ?k = Some Dir" using c at [of "[]"] by simp
  ultimately show ?thesis unfolding can_archive_def Let_def using c at by auto
qed


section \<open>The directories\<close>

definition dirs_archive :: "env \<Rightarrow> BackupPath list \<Rightarrow> world \<Rightarrow> zentry list" where
  "dirs_archive E dirs w = concat (map (\<lambda>d. dir_archive E d w) dirs)"

text \<open>Copying all directories into a zip file that did not exist in \<open>w\<close>.\<close>

lemma copy_dirs_run:
  assumes "no_faults E" and "plain_key (wd E)" and "fs_wf w" and "\<forall>d \<in> set dirs. can_archive E d (zfile z) w"
    and "\<not> is_link w (zfile z)" and "elsewhere (zfile z) w v" and "fs_wf v" and "writing z es v"
  shows "\<exists>v'. for_each dirs (\<lambda>d. copyLocalFiles E d (zip_adder E z)) v = (Ok (), v') \<and>
    wrote z (es @ dirs_archive E dirs w) v v'"
  using assms(4,6-8)
proof (induction dirs arbitrary: es v)
  case Nil
  then show ?case by (auto simp: ret_def wrote_def dirs_archive_def)
next
  case (Cons d dirs)
  have "node_at v (zfile z) \<noteq> None" using Cons.prems(4) by (auto simp: writing_def)
  have all: "can_archive E d (zfile z) w" "\<forall>d \<in> set dirs. can_archive E d (zfile z) w"
    using Cons.prems(1) by simp_all
  have c: "can_archive E d (zfile z) v"
    by (rule can_archive_elsewhere [OF Cons.prems(2) all(1) assms(5) writing_no_link [OF Cons.prems(4)]]) fact
  obtain v1 where v1: "copyLocalFiles E d (zip_adder E z) v = (Ok (), v1)"
      "wrote z (es @ dir_archive E d v) v v1"
    using copyLocalFiles_run [OF assms(1,2) Cons.prems(3) c Cons.prems(4)] by blast
  have a: "dir_archive E d v = dir_archive E d w"
    by (rule dir_archive_elsewhere [OF Cons.prems(2) assms(3) Cons.prems(3) all(1)])
  have "elsewhere (zfile z) w v1" by (rule elsewhere_trans [OF Cons.prems(2) wrote_elsewhere [OF v1(2)]])
  moreover have "fs_wf v1" using v1(2) Cons.prems(3) same_keys_wf unfolding wrote_def by blast
  moreover have "writing z (es @ dir_archive E d w) v1" using v1(2) a by (simp add: wrote_def)
  ultimately obtain v2 where v2: "for_each dirs (\<lambda>d. copyLocalFiles E d (zip_adder E z)) v1 = (Ok (), v2)"
      "wrote z ((es @ dir_archive E d w) @ dirs_archive E dirs w) v1 v2"
    using Cons.IH [OF all(2)] by blast
  have "for_each (d # dirs) (\<lambda>d. copyLocalFiles E d (zip_adder E z)) v = (Ok (), v2)"
    using v1(1) v2(1) by (simp add: bnd_OkI)
  moreover have "wrote z (es @ dirs_archive E (d # dirs) w) v v2"
    using wrote_trans [OF v1(2) v2(2)] by (simp add: dirs_archive_def)
  ultimately show ?case by blast
qed


section \<open>The databases\<close>

definition is_mysql :: "BackupDb \<Rightarrow> bool" where
  "is_mysql db \<longleftrightarrow> db_Type db \<in> {DbMysql, DbMaria, DbDockerMysql, DbDockerMaria}"

definition in_container :: "BackupDb \<Rightarrow> bool" where
  "in_container db \<longleftrightarrow> db_Type db \<in> {DbDockerMysql, DbDockerMaria, DbDockerPostgres}"

definition dump_entry :: "BackupDb \<Rightarrow> string" where
  "dump_entry db = path_join [if is_mysql db then ''_mysqldump'' else ''_postgres'', db_Name db @ ''.dump.sql'']"

text \<open>
  The entry of a database: all that its tool printed, in a process or in a container, which
  ended without an error.
\<close>

definition dumped :: "env \<Rightarrow> BackupDb \<Rightarrow> zentry \<Rightarrow> bool" where
  "dumped E db e \<longleftrightarrow> (\<exists>out. e = ZEntry (dump_entry db) False (Raw out) \<and>
     (if in_container db then exec_output E out else proc_output E out))"

lemma wrote_cong:
  assumes "wrote z es w v" and "fs v' = fs v" and "handles v' = handles v"
  shows "wrote z es w v'"
proof -
  have "node_at v' k = node_at v k" for k using assms(2) by (rule node_at_cong)
  then show ?thesis using assms by (simp add: wrote_def writing_def same_keys_def)
qed

lemma entry_dump_run:
  assumes "dumper dump produced" and "no_faults E" and "writing z es v" and "entry_name_ok d"
    and "bnd (FileWriter E z d) dump v = (Ok (), v')"
  shows "\<exists>out. produced out \<and> wrote z (es @ [ZEntry d False (Raw out)]) v v'"
proof -
  obtain u where u: "FileWriter E z d v = (Ok (entry_writer E (zfile z) d), u)"
      "wrote z (es @ [ZEntry d False (Raw [])]) v u"
    using FileWriter_run [OF assms(2-4)] by blast
  then have "dump (entry_writer E (zfile z) d) u = (Ok (), v')" using assms(5) by (auto simp: bnd_def)
  then obtain out where out: "produced out" "delivers (entry_writer E (zfile z) d) out u v'"
    using dumper.dump_delivers [OF assms(1)] by blast
  obtain a b where a: "fs a = fs u" "handles a = handles u" and b: "fs v' = fs b" "handles v' = handles b"
      and ab: "if out = [] then b = a else entry_writer E (zfile z) d (Raw out) a = (Ok (), b)"
    using out(2) unfolding delivers_def by blast
  have va: "wrote z (es @ [ZEntry d False (Raw [])]) v a" using wrote_cong [OF u(2) a] .
  have "wrote z (es @ [ZEntry d False (Raw out)]) v b"
  proof (cases "out = []")
    case True
    then show ?thesis using va ab by simp
  next
    case False
    have "writing z (es @ [ZEntry d False (Raw [])]) a" using va by (simp add: wrote_def)
    then obtain c where "entry_writer E (zfile z) d (Raw out) a = (Ok (), c)"
        "wrote z (es @ [ZEntry d False (content_append (Raw []) (Raw out))]) a c"
      using entry_writer_run [OF assms(2) _ assms(4)] by blast
    then show ?thesis using ab False wrote_trans [OF va] by auto
  qed
  then show ?thesis using out(1) wrote_cong [OF _ b] by blast
qed

lemma backupLocalDatabase_run:
  assumes "no_faults E" and "writing z es v" and "entry_name_ok (dump_entry db)"
    and "backupLocalDatabase E db z v = (Ok (), v')"
  shows "\<exists>e. dumped E db e \<and> wrote z (es @ [e]) v v'"
proof -
  have step: "\<exists>e. dumped E db e \<and> wrote z (es @ [e]) v v'"
    if "bnd (FileWriter E z d) dump v = (Ok (), v')" and "dumper dump produced" and "d = dump_entry db"
      and "produced = (if in_container db then exec_output E else proc_output E)" for d dump produced
  proof -
    have "entry_name_ok d" using that(3) assms(3) by simp
    then have "\<exists>out. produced out \<and> wrote z (es @ [ZEntry d False (Raw out)]) v v'"
      using that(1) by (rule entry_dump_run [OF that(2) assms(1,2)])
    then show ?thesis unfolding dumped_def that(3,4) by fastforce
  qed
  note types = DbMysql_def DbMaria_def DbDockerMysql_def DbDockerMaria_def DbPostgres_def DbDockerPostgres_def
  note defs = dump_entry_def is_mysql_def in_container_def types
  consider "db_Type db = DbMysql" | "db_Type db = DbMaria" | "db_Type db = DbDockerMaria"
    | "db_Type db = DbDockerMysql" | "db_Type db = DbPostgres" | "db_Type db = DbDockerPostgres"
    using assms(4) by (auto simp: backupLocalDatabase_def split: if_splits)
  then show ?thesis
    using assms(4) by cases (simp_all add: backupLocalDatabase_def types,
      (erule step, rule dumpers, simp add: defs, simp add: defs)+)
qed

text \<open>One entry for each of a list, when the loop over the list succeeds.\<close>

lemma entries_run:
  assumes "\<And>x es v v'. x \<in> set xs \<Longrightarrow> writing z es v \<Longrightarrow> f x v = (Ok (), v') \<Longrightarrow> \<exists>e. P x e \<and> wrote z (es @ [e]) v v'"
    and "writing z es v" and "for_each xs f v = (Ok (), v')"
  shows "\<exists>ds. list_all2 P xs ds \<and> wrote z (es @ ds) v v'"
  using assms
proof (induction xs arbitrary: es v)
  case Nil
  then show ?case by (auto simp: wrote_def)
next
  case (Cons x xs)
  obtain u where u: "f x v = (Ok (), u)" and rest: "for_each xs f u = (Ok (), v')"
    using Cons.prems(3) by auto
  obtain e where e: "P x e" "wrote z (es @ [e]) v u"
    using Cons.prems(1) [OF list.set_intros(1) Cons.prems(2) u] by blast
  then have "writing z (es @ [e]) u" by (simp add: wrote_def)
  from Cons.IH [OF _ this rest] obtain ds where ds: "list_all2 P xs ds" "wrote z ((es @ [e]) @ ds) u v'"
    using Cons.prems(1) by (metis list.set_intros(2))
  then have "list_all2 P (x # xs) (e # ds)" and "wrote z (es @ e # ds) v v'"
    using e(1) wrote_trans [OF e(2) ds(2)] by simp_all
  then show ?case by blast
qed

lemma dump_dbs_run:
  assumes "no_faults E" and "\<forall>db \<in> set dbs. entry_name_ok (dump_entry db)" and "writing z es v"
    and "for_each dbs (\<lambda>db. backupLocalDatabase E db z) v = (Ok (), v')"
  shows "\<exists>ds. list_all2 (dumped E) dbs ds \<and> wrote z (es @ ds) v v'"
  using backupLocalDatabase_run [OF assms(1)] assms(2) by (intro entries_run [OF _ assms(3,4)]) blast


section \<open>The zip file\<close>

text \<open>The path of a zip file that can be made.\<close>

definition new_zip :: "env \<Rightarrow> string \<Rightarrow> world \<Rightarrow> bool" where
  "new_zip E dest w \<longleftrightarrow> has_suffix dest ''.zip'' \<and> path_ok dest \<and>
     node_at w (key_of (wd E) dest) = None \<and> node_at w (butlast (key_of (wd E) dest)) = Some Dir"

text \<open>A profile whose local data can be written into the zip file \<open>zk\<close>.\<close>

definition can_backup :: "env \<Rightarrow> Profile \<Rightarrow> key \<Rightarrow> world \<Rightarrow> bool" where
  "can_backup E p zk w \<longleftrightarrow> fs_wf w \<and> (\<forall>d \<in> set (prf_Dirs p). can_archive E d zk w) \<and>
     (\<forall>db \<in> set (prf_Dbs p). entry_name_ok (dump_entry db))"

text \<open>The entries of a full backup: the files of all directories, then one dump per database.\<close>

definition full_backup :: "env \<Rightarrow> Profile \<Rightarrow> world \<Rightarrow> zentry list \<Rightarrow> bool" where
  "full_backup E p w es \<longleftrightarrow> (\<exists>ds. es = dirs_archive E (prf_Dirs p) w @ ds \<and> list_all2 (dumped E) (prf_Dbs p) ds)"

text \<open>Everything up to the databases cannot go wrong.\<close>

lemma backupLocal_dirs:
  assumes "no_faults E" and "plain_key (wd E)" and "new_zip E dest w"
    and "can_backup E p (key_of (wd E) dest) w"
  defines "z \<equiv> \<lparr>isOpen = True, zfile = key_of (wd E) dest\<rparr>"
  shows "\<exists>v. writing z (dirs_archive E (prf_Dirs p) w) v \<and> elsewhere (zfile z) w v \<and>
    handles v = handles w + 1 \<and> fs_wf v \<and>
    backupLocal E p dest w =
      bnd (for_each (prf_Dbs p) (\<lambda>db. backupLocalDatabase E db z)) (\<lambda>_. bnd (Close E z) (\<lambda>_. ret ())) v"
proof -
  note n = assms(3) [unfolded new_zip_def] and c = assms(4) [unfolded can_backup_def]
  obtain u where u: "New E dest w = (Ok z, u)" "writing z [] u" "handles u = handles w + 1"
      "elsewhere (zfile z) w u" "fs_wf u"
    using New_run [OF assms(1), of dest w] n c assms(2) unfolding z_def elsewhere_def by auto
  have "\<not> is_link w (zfile z)" and "\<forall>d \<in> set (prf_Dirs p). can_archive E d (zfile z) w" and "fs_wf w"
    using n c by (simp_all add: z_def is_link_def)
  then obtain v where v: "for_each (prf_Dirs p) (\<lambda>d. copyLocalFiles E d (zip_adder E z)) u = (Ok (), v)"
      "wrote z ([] @ dirs_archive E (prf_Dirs p) w) u v"
    using copy_dirs_run [OF assms(1,2) _ _ _ u(4,5,2)] by blast
  have "backupLocal E p dest w =
      bnd (for_each (prf_Dbs p) (\<lambda>db. backupLocalDatabase E db z)) (\<lambda>_. bnd (Close E z) (\<lambda>_. ret ())) v"
    using u(1) v(1) by (simp add: backupLocal_def bnd_OkI)
  moreover have "fs_wf v" using v(2) u(5) same_keys_wf unfolding wrote_def by blast
  ultimately show ?thesis
    using v(2) u(3) elsewhere_trans [OF u(4) wrote_elsewhere [OF v(2)]] by (auto simp: wrote_def)
qed

lemma backupLocal_run:
  assumes "no_faults E" and "plain_key (wd E)" and "new_zip E dest w"
    and "can_backup E p (key_of (wd E) dest) w" and "backupLocal E p dest w = (Ok (), w')"
  shows "\<exists>es m. full_backup E p w es \<and> node_at w' (key_of (wd E) dest) = Some (File (Archive es True) m) \<and>
    elsewhere (key_of (wd E) dest) w w' \<and> handles w' = handles w \<and> fs_wf w'"
proof -
  let ?z = "\<lparr>isOpen = True, zfile = key_of (wd E) dest\<rparr>"
  obtain v where v: "writing ?z (dirs_archive E (prf_Dirs p) w) v" "elsewhere (zfile ?z) w v"
      "handles v = handles w + 1" "fs_wf v"
      and run: "bnd (for_each (prf_Dbs p) (\<lambda>db. backupLocalDatabase E db ?z)) (\<lambda>_. bnd (Close E ?z) (\<lambda>_. ret ())) v = (Ok (), w')"
    using backupLocal_dirs [OF assms(1-4)] assms(5) by auto
  obtain u z' where u: "for_each (prf_Dbs p) (\<lambda>db. backupLocalDatabase E db ?z) v = (Ok (), u)"
      and c: "Close E ?z u = (Ok z', w')"
    using run by auto
  obtain ds where ds: "list_all2 (dumped E) (prf_Dbs p) ds" "wrote ?z (dirs_archive E (prf_Dirs p) w @ ds) v u"
    using dump_dbs_run [OF assms(1) _ v(1) u] assms(4) by (auto simp: can_backup_def)
  then have "writing ?z (dirs_archive E (prf_Dirs p) w @ ds) u" by (simp add: wrote_def)
  from Close_run [OF assms(1) this] c obtain m where m: "handles w' = handles u - 1" "same_keys u w'"
      "node_at w' (zfile ?z) = Some (File (Archive (dirs_archive E (prf_Dirs p) w @ ds) True) m)"
      "elsewhere (zfile ?z) u w'"
    unfolding elsewhere_def by (metis Pair_inject)
  have "fs_wf w'" using m(2) ds(2) v(4) same_keys_wf unfolding wrote_def by blast
  moreover have "elsewhere (zfile ?z) w w'"
    using elsewhere_trans [OF v(2) elsewhere_trans [OF wrote_elsewhere [OF ds(2)] m(4)]] .
  moreover have "full_backup E p w (dirs_archive E (prf_Dirs p) w @ ds)"
    using ds(1) by (auto simp: full_backup_def)
  ultimately show ?thesis using m(1,3) v(3) ds(2) by (auto simp: wrote_def)
qed

text \<open>Without databases nothing can go wrong.\<close>

lemma backupLocal_succeeds:
  assumes "no_faults E" and "plain_key (wd E)" and "new_zip E dest w"
    and "can_backup E p (key_of (wd E) dest) w" and "prf_Dbs p = []"
  shows "\<exists>w'. backupLocal E p dest w = (Ok (), w')"
proof -
  let ?z = "\<lparr>isOpen = True, zfile = key_of (wd E) dest\<rparr>"
  obtain v where "writing ?z (dirs_archive E (prf_Dirs p) w) v"
      and "backupLocal E p dest w = bnd (Close E ?z) (\<lambda>_. ret ()) v"
    using backupLocal_dirs [OF assms(1-4)] assms(5) by auto
  then show ?thesis using Close_run [OF assms(1)] by (fastforce simp: bnd_def ret_def)
qed

section \<open>A backup that fails\<close>

text \<open>A file stays a file, of the same owner and mode.\<close>

definition same_meta :: "key \<Rightarrow> world \<Rightarrow> world \<Rightarrow> bool" where
  "same_meta k w w' \<longleftrightarrow>
     (\<forall>c m. node_at w k = Some (File c m) \<longrightarrow> (\<exists>c'. node_at w' k = Some (File c' m)))"

interpretation sm: fs_rel "same_meta k" for k
proof
  show "same_meta k s s" for s by (simp add: same_meta_def)
  show "same_meta k a c" if "same_meta k a b" "same_meta k b c" for a b c
    using that unfolding same_meta_def by blast
  show "same_meta k w w'" if "keeps fs w w'" for w w'
    using that node_at_cong [of w' w k] by (simp add: same_meta_def keeps_def)
qed

interpretation zm: zip_file "same_meta k" k for k
  by standard (auto simp: same_meta_def node_at_set_content)

lemma sm_Close: "effects (same_meta (zfile z)) (Close E z)"
proof -
  have "effects (same_meta k) (zip_update E k f)" for k f
    by (rule effectsI) (auto simp: zip_update_def same_meta_def node_at_set_content split: option.splits)
  then show ?thesis
    unfolding Close_def
    by (intro sm.keeps_if sm.keeps_bnd sm.keeps_attempt sm.keeps_ret sm.from_fs [OF effects_os_close])
qed

text \<open>
  Whatever happens after the zip file was made, it stays a regular file that only its owner
  can read and write, as far as the umask allows.
\<close>

lemma backupLocal_file:
  assumes "no_faults E" and "new_zip E dest w"
  shows "\<exists>c. node_at (snd (backupLocal E p dest w)) (key_of (wd E) dest) = Some (File c (new_meta E 384))"
proof -
  let ?z = "\<lparr>isOpen = True, zfile = key_of (wd E) dest\<rparr>"
  let ?rest = "\<lambda>z. bnd (for_each (prf_Dirs p) (\<lambda>d. copyLocalFiles E d (zip_adder E z))) (\<lambda>_.
     bnd (if 0 < length (prf_Dbs p) then for_each (prf_Dbs p) (\<lambda>db. backupLocalDatabase E db z) else ret ()) (\<lambda>_.
     bnd (Close E z) (\<lambda>_. ret ())))"
  obtain u where u: "New E dest w = (Ok ?z, u)"
      "node_at u (key_of (wd E) dest) = Some (File (Raw []) (new_meta E 384))"
    using New_run [OF assms(1)] assms(2) unfolding new_zip_def by blast
  have "effects (same_meta (zfile z)) (?rest z)" for z
    by (intro sm.keeps_bnd sm.keeps_for_each sm.keeps_if sm.keeps_ret sm_Close
        zm.copyLocalFiles_keeps zm.backupLocalDatabase_keeps refl)
  from effects_snd [OF this, of ?z u] have "same_meta (key_of (wd E) dest) u (snd (?rest ?z u))" by simp
  moreover have "backupLocal E p dest w = ?rest ?z u"
    unfolding backupLocal_def using u(1) by (rule bnd_OkI)
  ultimately show ?thesis using u(2) by (simp add: same_meta_def)
qed

lemma elsewhere_frame:
  assumes "frame {k} w w'" and "node_at w k = None"
  shows "elsewhere k w w'"
  using assms by (auto simp: frame_def no_links_def is_link_def same_outside_def elsewhere_def)

lemma del_elsewhere: "elsewhere k w v \<Longrightarrow> elsewhere k w (del_node k v)"
  by (simp add: elsewhere_def node_at_del)

text \<open>The backup with what \<open>runLocalProfile\<close> does when it fails.\<close>

lemma backup_or_nothing:
  assumes "no_faults E" and "new_zip E dest w"
    and "handle (backupLocal E p dest) (delZipAndErr E dest) w = (r, v)"
  shows "elsewhere (key_of (wd E) dest) w v \<and>
    (r = Ok () \<and> backupLocal E p dest w = (Ok (), v) \<or> r = Panic \<or>
     (\<exists>e. r = Fail e) \<and> node_at v (key_of (wd E) dest) = None)"
proof -
  let ?k = "key_of (wd E) dest"
  obtain r1 u where u: "backupLocal E p dest w = (r1, u)" by (cases "backupLocal E p dest w")
  then obtain c where c: "node_at u ?k = Some (File c (new_meta E 384))"
    using backupLocal_file [OF assms(1,2), of p] by auto
  have none: "node_at w ?k = None" and path: "path_ok dest" using assms(2) by (simp_all add: new_zip_def)
  have e: "elsewhere ?k w u"
    using effectsD [OF effects_backupLocal [of E dest "{?k}"] u] none by (intro elsewhere_frame) simp_all
  show ?thesis
  proof (cases r1)
    case (Fail err)
    have "delZipAndErr E dest err u = (Fail err, del_node ?k (tock u))"
      using os_remove_run [OF assms(1) path c]
      by (simp add: delZipAndErr_def bnd_def attempt_def throw_def)
    then have "r = Fail err" "v = del_node ?k (tock u)" using assms(3) u Fail by (simp_all add: handle_def)
    moreover have "?k \<noteq> []" using none by auto
    moreover have "elsewhere ?k w (tock u)" using e by (simp add: elsewhere_def)
    ultimately show ?thesis by (simp add: del_elsewhere node_at_del)
  qed (use assms(3) u e in \<open>auto simp: handle_def\<close>)
qed

section \<open>Owner, mode and old backups\<close>

text \<open>A file is deleted, or its data stays.\<close>

definition same_data :: "key \<Rightarrow> world \<Rightarrow> world \<Rightarrow> bool" where
  "same_data k w w' \<longleftrightarrow> (node_at w k = None \<longrightarrow> node_at w' k = None) \<and>
     (\<forall>c m. node_at w k = Some (File c m) \<longrightarrow> node_at w' k = None \<or> (\<exists>m'. node_at w' k = Some (File c m')))"

interpretation sd: fs_rel "same_data k" for k
proof
  show "same_data k s s" for s by (simp add: same_data_def)
  show "same_data k a c" if "same_data k a b" "same_data k b c" for a b c
    using that unfolding same_data_def by metis
  show "same_data k w w'" if "keeps fs w w'" for w w'
    using that node_at_cong [of w' w k] by (simp add: same_data_def keeps_def)
qed

lemma sd_syscall:
  assumes "\<And>w. same_data k w (snd (body (key_of (wd E) p) w))"
  shows "effects (same_data k) (syscall E name p body)"
  by (rule syscall_rel [OF sd.effect_rel_axioms]) (use assms in \<open>simp_all add: same_data_def\<close>)

lemma sd_set_node: "node_at w k' = Some (File c m) \<Longrightarrow> same_data k w (set_node k' (File c m') w)"
  by (auto simp: same_data_def node_at_set)

lemma sd_calls:
  "effects (same_data k) (os_chown E p u g)" "effects (same_data k) (os_chmod E p md)"
  "effects (same_data k) (os_remove E p)"
  unfolding os_chown_def os_chmod_def os_remove_def
  by (rule sd_syscall, auto simp: snd_with_target sd_set_node sd.rel_refl same_data_def node_at_del node_at_set
      split: sum.splits option.splits node.splits)+

lemma sd_ExpurgeDir: "effects (same_data k) (ExpurgeDir E path n name)"
  unfolding ExpurgeDir_def remove_old_def Let_def
  by (intro sd.keeps_bnd sd.keeps_map_err sd.keeps_if sd.keeps_throw sd.keeps_ret sd.keeps_for_each sd_calls
      sd.from_ticked [OF effects_os_stat] sd.from_ticked [OF effects_filepath_glob]
      sd.from_ticked [OF effects_from_res])

lemma sd_finish_backup: "effects (same_data k) (finish_backup E p z)"
  unfolding finish_backup_def chown_def chmod_def Let_def
  by (intro sd.keeps_bnd sd.keeps_map_err sd.keeps_if sd.keeps_ret sd.keeps_case_prod sd_calls sd_ExpurgeDir
      sd.from_ticked [OF effects_from_sum])

section \<open>A run\<close>

text \<open>The zip file of a run that starts now, in a destination that exists.\<close>

definition run_zip_name :: "env \<Rightarrow> Profile \<Rightarrow> world \<Rightarrow> string" where
  "run_zip_name E p w = zip_name (prf_Name p) (clock E (Suc (tick w)))"

definition run_zip :: "env \<Rightarrow> Profile \<Rightarrow> world \<Rightarrow> string" where
  "run_zip E p w = path_join [dest_Path (prf_Destination p), run_zip_name E p w]"

definition dest_key :: "env \<Rightarrow> Profile \<Rightarrow> key" where
  "dest_key E p = key_of (wd E) (dest_Path (prf_Destination p))"

definition ready :: "env \<Rightarrow> Profile \<Rightarrow> world \<Rightarrow> bool" where
  "ready E p w \<longleftrightarrow> path_ok (dest_Path (prf_Destination p)) \<and> node_at w (dest_key E p) = Some Dir \<and>
     new_zip E (run_zip E p w) w \<and> can_backup E p (key_of (wd E) (run_zip E p w)) w"

lemma tick_simps [simp]:
  "new_zip E d (w\<lparr>tick := n\<rparr>) = new_zip E d w"
  "paths_ok (w\<lparr>tick := n\<rparr>) k r = paths_ok w k r"
  "can_archive E dir zk (w\<lparr>tick := n\<rparr>) = can_archive E dir zk w"
  "can_backup E p zk (w\<lparr>tick := n\<rparr>) = can_backup E p zk w"
  by (simp_all add: new_zip_def paths_ok_def can_archive_def can_backup_def cong: node.case_cong)

lemma full_backup_tick [simp]: "full_backup E p (w\<lparr>tick := n\<rparr>) es = full_backup E p w es"
proof -
  have "visit l (w\<lparr>tick := n\<rparr>) k ns = visit l w k ns" for l k ns
    by (rule visit_cong) simp_all
  then show ?thesis by (simp add: full_backup_def dirs_archive_def dir_archive_def files_below_def del: visit.simps)
qed

lemma runLocalProfile_parts:
  assumes "no_faults E" and "ready E p w"
  shows "runLocalProfile E p w =
    bnd (handle (backupLocal E p (run_zip E p w)) (delZipAndErr E (run_zip E p w)))
      (\<lambda>_. finish_backup E p (run_zip E p w)) (tock (tock w))"
proof -
  have "prepareDestination E (dest_Path (prf_Destination p)) w = (Ok (), tock w)"
    using os_stat_run [OF assms(1), of "dest_Path (prf_Destination p)" w Dir] assms(2)
    by (simp add: prepareDestination_def ready_def dest_key_def bnd_def attempt_def IsDir_def ret_def)
  then show ?thesis
    by (simp add: runLocalProfile_def bnd_OkI getZipName_def time_now_def service_def bnd_def [of "\<lambda>w. (Ok _, _)"]
        ret_def run_zip_def run_zip_name_def Let_def)
qed


section \<open>A run that succeeds\<close>

definition owner_ids :: "env \<Rightarrow> string \<Rightarrow> (int \<times> int) option" where
  "owner_ids E owner =
     (case user_lookup E owner of
        Inl e \<Rightarrow> None
      | Inr (u, g) \<Rightarrow> (case (atoi u, atoi g) of (Inr uid, Inr gid) \<Rightarrow> Some (uid, gid) | _ \<Rightarrow> None))"

definition file_mode :: "string \<Rightarrow> 32 word option" where
  "file_mode mode = (case parse_octal mode of Inl e \<Rightarrow> None | Inr n \<Rightarrow> Some (syscallMode (word_of_nat n)))"

text \<open>The owner and mode the backup gets, when the configured ones can be understood.\<close>

definition with_owner :: "env \<Rightarrow> Destination \<Rightarrow> fmeta \<Rightarrow> fmeta option" where
  "with_owner E d m =
     (if dest_Owner d = [] then Some m
      else map_option (\<lambda>(u, g). m\<lparr>m_uid := u, m_gid := g\<rparr>) (owner_ids E (dest_Owner d)))"

definition with_mode :: "Destination \<Rightarrow> fmeta \<Rightarrow> fmeta option" where
  "with_mode d m =
     (if dest_Mode d = [] then Some m else map_option (\<lambda>md. m\<lparr>m_mode := md\<rparr>) (file_mode (dest_Mode d)))"

definition final_meta :: "env \<Rightarrow> Destination \<Rightarrow> fmeta option" where
  "final_meta E d = Option.bind (with_owner E d (new_meta E 384)) (with_mode d)"

lemma os_chown_run:
  assumes "no_faults E" and "path_ok p" and "node_at w (key_of (wd E) p) = Some (File c m)"
  shows "os_chown E p u g w = (Ok (), set_node (key_of (wd E) p) (File c (m\<lparr>m_uid := u, m_gid := g\<rparr>)) (tock w))"
  using assms follow_node [of "tock w" "key_of (wd E) p" "File c m" link_limit]
  by (simp add: os_chown_def syscall_run with_target_def modify_def)

lemma os_chmod_run:
  assumes "no_faults E" and "path_ok p" and "node_at w (key_of (wd E) p) = Some (File c m)"
  shows "os_chmod E p md w = (Ok (), set_node (key_of (wd E) p) (File c (m\<lparr>m_mode := md\<rparr>)) (tock w))"
  using assms follow_node [of "tock w" "key_of (wd E) p" "File c m" link_limit]
  by (simp add: os_chmod_def syscall_run with_target_def modify_def)

text \<open>The state after the file got another owner or mode.\<close>

definition remeta :: "key \<Rightarrow> content \<Rightarrow> fmeta \<Rightarrow> world \<Rightarrow> world \<Rightarrow> bool" where
  "remeta k c m w w' \<longleftrightarrow> node_at w' k = Some (File c m) \<and> elsewhere k w w' \<and> handles w' = handles w \<and>
     (plain_key k \<longrightarrow> fs_wf w \<longrightarrow> fs_wf w')"

lemma remeta_set:
  assumes "node_at w k = Some (File c m)"
  shows "remeta k c m' w (set_node k (File c m') (tock w))"
proof -
  have "k \<noteq> []" using assms by auto
  then show ?thesis by (simp add: remeta_def elsewhere_def node_at_set fs_wf_set_node)
qed

lemma remeta_trans: "remeta k c m a b \<Longrightarrow> remeta k c m' b d \<Longrightarrow> remeta k c m' a d"
  unfolding remeta_def using elsewhere_trans [of k a b d] by simp

lemma owner_step:
  assumes "no_faults E" and "path_ok z" and "node_at w (key_of (wd E) z) = Some (File c m)"
    and "with_owner E d m = Some m'"
  shows "\<exists>w'. (if dest_Owner d \<noteq> [] then map_err f (chown E z (dest_Owner d)) else ret ()) w = (Ok (), w') \<and>
    remeta (key_of (wd E) z) c m' w w'"
proof (cases "dest_Owner d = []")
  case True
  then show ?thesis using assms(3,4) by (simp add: with_owner_def ret_def remeta_def elsewhere_def)
next
  case False
  then obtain u g where ids: "owner_ids E (dest_Owner d) = Some (u, g)" and m': "m' = m\<lparr>m_uid := u, m_gid := g\<rparr>"
    using assms(4) by (auto simp: with_owner_def)
  then have "chown E z (dest_Owner d) w = map_err (errorf_v ''chown failed: '') (os_chown E z u g) w"
    by (auto simp: chown_def owner_ids_def from_sum_def map_err_def handle_def bnd_def ret_def
        split: sum.splits prod.splits)
  also have "\<dots> = (Ok (), set_node (key_of (wd E) z) (File c m') (tock w))"
    unfolding m' by (rule map_err_OkI, rule os_chown_run [OF assms(1-3)])
  finally show ?thesis using False remeta_set [OF assms(3)] by (auto intro!: map_err_OkI)
qed

lemma mode_step:
  assumes "no_faults E" and "path_ok z" and "node_at w (key_of (wd E) z) = Some (File c m)"
    and "with_mode d m = Some m'"
  shows "\<exists>w'. (if dest_Mode d \<noteq> [] then map_err f (chmod E z (dest_Mode d)) else ret ()) w = (Ok (), w') \<and>
    remeta (key_of (wd E) z) c m' w w'"
proof (cases "dest_Mode d = []")
  case True
  then show ?thesis using assms(3,4) by (simp add: with_mode_def ret_def remeta_def elsewhere_def)
next
  case False
  then obtain md where md: "file_mode (dest_Mode d) = Some md" and m': "m' = m\<lparr>m_mode := md\<rparr>"
    using assms(4) by (auto simp: with_mode_def)
  then have "chmod E z (dest_Mode d) w = map_err (errorf_v ''chmod failed: '') (os_chmod E z md) w"
    by (auto simp: chmod_def file_mode_def from_sum_def map_err_def handle_def bnd_def ret_def
        split: sum.splits)
  also have "\<dots> = (Ok (), set_node (key_of (wd E) z) (File c m') (tock w))"
    unfolding m' by (rule map_err_OkI, rule os_chmod_run [OF assms(1-3)])
  finally show ?thesis using False remeta_set [OF assms(3)] by (auto intro!: map_err_OkI)
qed

text \<open>What the deletion of old backups needs, when it is asked for.\<close>

definition can_expurge :: "env \<Rightarrow> Profile \<Rightarrow> world \<Rightarrow> bool" where
  "can_expurge E p w \<longleftrightarrow> dest_Keep (prf_Destination p) > 0 \<longrightarrow>
     dated_glob (glob_compile E) \<and> glob_plain (prf_Name p) \<and> prf_Name p \<noteq> [] \<and>
     expurgeable E (dest_Path (prf_Destination p)) (prf_Name p) w"

text \<open>The backups a run deletes: of the old ones and the new one, all but the newest.\<close>

definition run_deletes :: "env \<Rightarrow> Profile \<Rightarrow> world \<Rightarrow> string list" where
  "run_deletes E p w =
     (if dest_Keep (prf_Destination p) > 0 then
        oldest_but (nat (dest_Keep (prf_Destination p)))
          (backups_of (prf_Name p) (insort (run_zip_name E p w) (children w (dest_key E p))))
      else [])"

lemma children_new:
  assumes "elsewhere (d @ [f]) w v" and "fs_wf w" and "fs_wf v" and "node_at w (d @ [f]) = None"
    and "node_at v (d @ [f]) \<noteq> None"
  shows "children v d = insort f (children w d)"
proof (rule sorted_distinct_set_unique)
  have "f \<notin> set (children w d)" using assms(4) by (simp add: mem_children_iff)
  then show "distinct (insort f (children w d))"
    using assms(2) by (simp add: distinct_insort distinct_children)
  have "n \<in> set (children v d) \<longleftrightarrow> n = f \<or> n \<in> set (children w d)" for n
    using elsewhereD [OF assms(1), of "d @ [n]"] assms(5) by (cases "n = f") (simp_all add: mem_children_iff)
  then show "set (children v d) = set (insort f (children w d))" by (auto simp: set_insort_key)
qed (use assms(2,3) in \<open>simp_all add: sorted_insort sorted_children distinct_children\<close>)

lemma expurgeable_new:
  assumes "expurgeable E path name w" and "elsewhere (key_of (wd E) path @ [f]) w v" and "fs_wf v"
    and "node_at w (key_of (wd E) path @ [f]) = None" and "node_at v (key_of (wd E) path @ [f]) = Some (File c m)"
    and "path_ok (path_join [path, f])"
  shows "expurgeable E path name v"
proof -
  let ?d = "key_of (wd E) path"
  note e = assms(1) [unfolded expurgeable_def]
  have "node_at v ?d = Some Dir" using elsewhereD [OF assms(2), of ?d] e by simp
  moreover have "path_ok (path_join [path, g]) \<and> node_at v (?d @ [g]) \<noteq> Some Dir"
    if "g \<in> set (backups_of name (children v ?d))" for g
  proof (cases "g = f")
    case False
    then have "g \<in> set (backups_of name (children w ?d))"
      using that children_new [OF assms(2) _ assms(3,4)] assms(5) e by (auto simp: backups_of_def set_insort_key)
    then show ?thesis using e elsewhereD [OF assms(2), of "?d @ [g]"] False by simp
  qed (use assms(5,6) in simp)
  ultimately show ?thesis using e assms(3) by (simp add: expurgeable_def)
qed

text \<open>The end of a run, from a state \<open>v\<close> in which only the zip file is new.\<close>

lemma finish_backup_run:
  fixes E :: env and p :: Profile and v w :: world
  defines "d \<equiv> prf_Destination p" and "f \<equiv> run_zip_name E p w" and "z \<equiv> run_zip E p w"
  assumes "no_faults E" and "plain_key (wd E)" and "plain_name f" and "ready E p w"
    and v: "elsewhere (key_of (wd E) z) w v" "fs_wf v" "node_at v (key_of (wd E) z) = Some (File c (new_meta E 384))"
    and m: "final_meta E d = Some m" and x: "can_expurge E p w"
  shows "\<exists>w'. finish_backup E p z v = (Ok (), w') \<and> handles w' = handles v \<and>
    (\<forall>k. node_at w' k =
       (if k \<in> (\<lambda>f. dest_key E p @ [f]) ` set (run_deletes E p w) then None
        else if k = key_of (wd E) z then Some (File c m) else node_at w k))"
proof -
  let ?k = "key_of (wd E) z" and ?d = "dest_key E p"
  have k: "?k = ?d @ [f]" using assms(6) by (simp add: z_def run_zip_def f_def dest_key_def key_of_join)
  have r: "path_ok z" "node_at w ?k = None" "fs_wf w"
    using assms(7) by (simp_all add: ready_def new_zip_def can_backup_def z_def)
  obtain m1 where m1: "with_owner E d (new_meta E 384) = Some m1" "with_mode d m1 = Some m"
    using m by (auto simp: final_meta_def bind_eq_Some_conv)
  let ?own = "\<lambda>f. if dest_Owner d \<noteq> [] then map_err f (chown E z (dest_Owner d)) else ret ()"
  let ?mode = "\<lambda>f. if dest_Mode d \<noteq> [] then map_err f (chmod E z (dest_Mode d)) else ret ()"
  let ?f1 = "errorf_v (''unable to change owner of file: '' @ [CHR 0x22] @ z @ [CHR 0x22] @ '', '')"
  let ?f2 = "errorf_v (''unable to change perm of file: '' @ [CHR 0x22] @ z @ [CHR 0x22] @ '', '')"
  obtain u1 where u1: "?own ?f1 v = (Ok (), u1)" "remeta ?k c m1 v u1"
    using owner_step [OF assms(4) r(1) v(3) m1(1)] by blast
  then have "node_at u1 ?k = Some (File c m1)" by (simp add: remeta_def)
  then obtain u where u: "?mode ?f2 u1 = (Ok (), u)" "remeta ?k c m u1 u"
    using mode_step [OF assms(4) r(1) _ m1(2)] by blast
  have vu: "remeta ?k c m v u" using remeta_trans [OF u1(2) u(2)] .
  have wu: "elsewhere ?k w u" using elsewhere_trans v(1) vu by (auto simp: remeta_def)
  have fu: "fs_wf u" and nu: "node_at u ?k = Some (File c m)" and hu: "handles u = handles v"
    using vu v(2) plain_key_key_of [OF assms(5)] by (simp_all add: remeta_def)
  have nodes: "node_at u q = (if q = ?k then Some (File c m) else node_at w q)" for q
    using wu nu by (simp add: elsewhere_def)
  have fin: "finish_backup E p z v =
      (if dest_Keep d > 0 then
         map_err (errorf_w ''error expurging old backup files: '')
           (ExpurgeDir E (dest_Path d) (dest_Keep d) (prf_Name p)) u
       else (Ok (), u))"
    unfolding finish_backup_def Let_def d_def [symmetric]
    by (rule trans, rule bnd_OkI, rule u1(1), rule trans, rule bnd_OkI, rule u(1)) (simp add: ret_def)
  show ?thesis
  proof (cases "dest_Keep d > 0")
    case False
    then show ?thesis using fin nodes hu by (simp add: run_deletes_def d_def)
  next
    case True
    then have e: "dated_glob (glob_compile E)" "glob_plain (prf_Name p)" "prf_Name p \<noteq> []"
        "expurgeable E (dest_Path d) (prf_Name p) w"
      using x by (simp_all add: can_expurge_def d_def)
    have "node_at u (?d @ [f]) \<noteq> None" using nu k by simp
    with wu [unfolded k] r(3) fu r(2) [unfolded k]
    have ch: "children u ?d = insort f (children w ?d)" by (rule children_new)
    have kd: "?k = key_of (wd E) (dest_Path d) @ [f]" using k by (simp add: dest_key_def d_def)
    have "path_ok (path_join [dest_Path d, f])" using r(1) by (simp add: z_def run_zip_def f_def d_def)
    from expurgeable_new [OF e(4) wu [unfolded kd] fu r(2) [unfolded kd] nu [unfolded kd] this]
    have "ExpurgeDir E (dest_Path d) (dest_Keep d) (prf_Name p) u =
        (Ok (), delete_keys ?d (run_deletes E p w) (tock (tock (tock u))))"
      using ExpurgeDir_run [OF e(1-3) True assms(4)] True ch
      by (simp add: run_deletes_def dest_key_def d_def f_def)
    then show ?thesis
      using fin True nodes hu by (auto simp: node_at_delete_keys map_err_OkI)
  qed
qed

lemma local_run_backs_up:
  assumes "no_faults E" and "plain_key (wd E)" and "plain_name (run_zip_name E p w)" and "ready E p w"
    and "final_meta E (prf_Destination p) = Some m" and "can_expurge E p w"
    and "prf_Dbs p = [] \<or> fst (runLocalProfile E p w) = Ok ()"
  shows "\<exists>w' es. runLocalProfile E p w = (Ok (), w') \<and> full_backup E p w es \<and> handles w' = handles w \<and>
    (\<forall>k. node_at w' k =
       (if k \<in> (\<lambda>f. dest_key E p @ [f]) ` set (run_deletes E p w) then None
        else if k = key_of (wd E) (run_zip E p w) then Some (File (Archive es True) m) else node_at w k))"
proof -
  let ?z = "run_zip E p w" and ?t = "tock (tock w)"
  let ?k = "key_of (wd E) ?z"
  have ready: "new_zip E ?z ?t" "can_backup E p ?k ?t" using assms(4) by (simp_all add: ready_def)
  have parts: "runLocalProfile E p w =
      bnd (handle (backupLocal E p ?z) (delZipAndErr E ?z)) (\<lambda>_. finish_backup E p ?z) ?t"
    by (rule runLocalProfile_parts [OF assms(1,4)])
  obtain v where v: "backupLocal E p ?z ?t = (Ok (), v)"
  proof (cases "prf_Dbs p = []")
    case True
    then show ?thesis using backupLocal_succeeds [OF assms(1,2) ready] that by blast
  next
    case False
    then have "fst (runLocalProfile E p w) = Ok ()" using assms(7) by blast
    moreover obtain r v where h: "handle (backupLocal E p ?z) (delZipAndErr E ?z) ?t = (r, v)"
      by (cases "handle (backupLocal E p ?z) (delZipAndErr E ?z) ?t")
    ultimately show ?thesis
      using backup_or_nothing [OF assms(1) ready(1) h] that parts by (auto simp: bnd_def)
  qed
  obtain es m0 where es: "full_backup E p w es" "node_at v ?k = Some (File (Archive es True) m0)"
      "elsewhere ?k ?t v" "handles v = handles w" "fs_wf v"
    using backupLocal_run [OF assms(1,2) ready v] by auto
  have "m0 = new_meta E 384" using backupLocal_file [OF assms(1) ready(1), of p] v es(2) by simp
  moreover have "elsewhere ?k w v" using es(3) by (simp add: elsewhere_def)
  ultimately obtain w' where w': "finish_backup E p ?z v = (Ok (), w')" "handles w' = handles v"
      "\<forall>k. node_at w' k =
       (if k \<in> (\<lambda>f. dest_key E p @ [f]) ` set (run_deletes E p w) then None
        else if k = ?k then Some (File (Archive es True) m) else node_at w k)"
    using finish_backup_run [OF assms(1,2,3,4) _ es(5) _ assms(5,6)] es(2) by blast
  have "runLocalProfile E p w = (Ok (), w')"
    using parts v w'(1) by (simp add: bnd_def handle_def)
  then show ?thesis using w'(2,3) es(1,4) by auto
qed


section \<open>The mode of a backup\<close>

text \<open>The bits a mode is made of: only the nine permissions of what is written in the profile.\<close>

lemma syscallMode_small:
  assumes "n < 2 ^ 20"
  shows "syscallMode (word_of_nat n) = word_of_nat (n mod 512)"
proof -
  have small: "\<not> bit (word_of_nat n :: 32 word) i" if "20 \<le> i" for i
  proof
    assume "bit (word_of_nat n :: 32 word) i"
    then have "bit n i" by (simp add: bit_of_nat_iff bit_simps)
    moreover have "take_bit 20 n = n" using assms by (simp add: take_bit_nat_eq_self)
    ultimately show False using that by (metis bit_take_bit_iff not_le)
  qed
  have "Bit_Operations.and (word_of_nat n :: 32 word) 511 = take_bit 9 (word_of_nat n)"
    by (simp add: take_bit_eq_mask mask_eq_exp_minus_1)
  also have "\<dots> = word_of_nat (take_bit 9 n)" by (simp only: take_bit_of_nat)
  also have "take_bit 9 n = n mod 512" by (simp add: take_bit_eq_mod)
  finally show ?thesis using small by (simp add: syscallMode_def)
qed




section \<open>Examples\<close>

text \<open>Years of one digit are evaluated fast.\<close>

definition local_env :: env where
  "local_env = ref_env\<lparr>clock := (\<lambda>t. DTime 4 1 1 0 0 0)\<rparr>"

lemma local_env_simps [simp]: "clock local_env = (\<lambda>t. DTime 4 1 1 0 0 0)" "wd local_env = []"
    "glob_compile local_env = glob_ref" "new_meta local_env m = new_meta ref_env m"
  by (simp_all add: local_env_def new_meta_def)

lemma local_no_faults: "no_faults local_env"
  by (simp add: local_env_def no_faults_def)

text \<open>A profile with a directory, and one with a database of no known type.\<close>

definition mysql_db :: "string \<Rightarrow> BackupDb" where
  "mysql_db t = \<lparr>db_Name = ''shop'', db_Type = t, db_ContainerName = [], db_User = ''u'', db_Password = ''p''\<rparr>"

definition local_profile :: Profile where
  "local_profile = (plain_profile TypeLocal)
     \<lparr>prf_Dirs := [files_dir],
      prf_Destination := \<lparr>dest_Path = ''/b'', dest_Keep = 1, dest_Owner = ''bob'', dest_Mode = ''640''\<rparr>\<rparr>"

lemma local_profile_simps [simp]:
  "prf_Name local_profile = ''a''" "prf_Dirs local_profile = [files_dir]" "prf_Dbs local_profile = []"
  "prf_Destination local_profile = \<lparr>dest_Path = ''/b'', dest_Keep = 1, dest_Owner = ''bob'', dest_Mode = ''640''\<rparr>"
  by (simp_all add: local_profile_def plain_profile_def)

definition local_zip :: string where
  "local_zip = zip_name ''a'' (DTime 4 1 1 0 0 0)"

definition local_old :: string where
  "local_old = zip_name ''a'' (DTime 3 1 1 0 0 0)"

lemma local_backups:
  "is_backup_of ''a'' local_zip" "is_backup_of ''a'' local_old" "plain_name local_zip" "plain_name local_old"
  "local_zip \<noteq> local_old" "oldest_but 1 (backups_of ''a'' (insort local_zip [local_old])) = [local_old]"
proof -
  have v: "valid_time (DTime 4 1 1 0 0 0)" "valid_time (DTime 3 1 1 0 0 0)"
    by (simp_all add: valid_time_def days_in_def)
  then show b: "is_backup_of ''a'' local_zip" "is_backup_of ''a'' local_old"
    unfolding local_zip_def local_old_def by (simp_all add: is_backup_of_zip_name)
  then show "plain_name local_zip" "plain_name local_old" using is_backup_of_plain_name by simp_all
  have "local_old < local_zip \<and> DTime 3 1 1 0 0 0 < DTime 4 1 1 0 0 0" by code_simp
  moreover have "backup_time local_zip = DTime 4 1 1 0 0 0" "backup_time local_old = DTime 3 1 1 0 0 0"
    unfolding local_zip_def local_old_def using v by (simp_all add: backup_time_zip_name)
  ultimately show "local_zip \<noteq> local_old"
      "oldest_but 1 (backups_of ''a'' (insort local_zip [local_old])) = [local_old]"
    using b by (auto simp: oldest_but_def backups_of_def less_le_not_le)
qed

definition local_world :: world where
  "local_world = world_of [([''b''], Dir), ([''b'', local_old], plain_file ''o''),
     ([''d''], Dir), ([''d'', ''x''], plain_file ''X'')]"

lemma local_at:
  "node_at local_world k = (if k = [] \<or> k = [''b''] \<or> k = [''d''] then Some Dir
     else if k = [''b'', local_old] then Some (plain_file ''o'')
     else if k = [''d'', ''x''] then Some (plain_file ''X'') else None)"
  by (simp add: local_world_def node_at_world_of)

text \<open>Any profile of that name and destination.\<close>

lemma local_names:
  assumes "prf_Name p = ''a''" and "dest_Path (prf_Destination p) = ''/b''"
  shows "run_zip_name local_env p local_world = local_zip"
    and "run_zip local_env p local_world = path_join [''/b'', local_zip]"
    and "key_of [] (path_join [''/b'', local_zip]) = [''b'', local_zip]"
    and "dest_key local_env p = [''b'']"
proof -
  have k: "key_of [] ''/b'' = [''b'']" by code_simp
  show n: "run_zip_name local_env p local_world = local_zip"
    using assms by (simp add: run_zip_name_def local_zip_def)
  show "run_zip local_env p local_world = path_join [''/b'', local_zip]" using assms by (simp add: run_zip_def n)
  show "key_of [] (path_join [''/b'', local_zip]) = [''b'', local_zip]"
    using local_backups(3) k by (simp add: key_of_join)
  show "dest_key local_env p = [''b'']" using k assms by (simp add: dest_key_def)
qed

lemma local_wf: "fs_wf local_world"
  using local_backups(4) by (auto simp: fs_wf_def local_world_def plain_key_def plain_name_def)

lemma local_can_archive: "can_archive local_env files_dir [''b'', local_zip] local_world"
proof -
  have below: "ns = [] \<or> ns = [''x'']" if "node_at local_world ([''d''] @ ns) \<noteq> None" for ns
    using that by (simp add: local_at split: if_splits)
  have "path_ok (path_below ''/d'' ns)" if "ns = [] \<or> ns = [''x'']" for ns
    using that by (auto simp: files_paths path_ok_def path_max_def)
  then have "paths_ok local_world [''d''] ''/d''"
    using below by (auto simp: paths_ok_def path_ok_def path_max_def)
  moreover have "path_ok (abs_path [] (path_below ''/d'' ns)) \<and> entry_name_ok (archived_name files_dir ns) \<and>
      (case x of Link t \<Rightarrow> (\<exists>k' n. follow link_limit local_world ([''d''] @ ns) = Inr k' \<and> node_at local_world k' = Some n)
       | _ \<Rightarrow> True)"
    if "node_at local_world ([''d''] @ ns) = Some x" and "x \<noteq> Dir" for ns x
    using below [of ns] that
    by (auto simp: files_paths files_names local_at path_ok_def path_max_def entry_name_ok_def
        has_suffix_def abs_path_def is_abs_def has_prefix_def plain_file_def)
  moreover have "bp_Path files_dir = ''/d''" by (simp add: files_dir_def)
  moreover have "node_at local_world [''d''] = Some Dir" and "\<forall>ns. [''b'', local_zip] \<noteq> [''d''] @ ns"
    by (simp_all add: local_at)
  ultimately show ?thesis unfolding can_archive_def Let_def local_env_simps by (simp only: ex_key) blast
qed

lemma local_ready:
  assumes "prf_Name p = ''a''" and "dest_Path (prf_Destination p) = ''/b''"
    and "set (prf_Dirs p) \<subseteq> {files_dir}" and "set (prf_Dbs p) \<subseteq> {mysql_db t}"
  shows "ready local_env p local_world"
proof -
  have "has_suffix (path_join [''/b'', local_zip]) ''.zip'' \<and> path_ok (path_join [''/b'', local_zip])"
    by code_simp
  moreover have "path_join [''_mysqldump'', ''shop.dump.sql''] = ''_mysqldump/shop.dump.sql'' \<and>
      path_join [''_postgres'', ''shop.dump.sql''] = ''_postgres/shop.dump.sql''"
    by code_simp
  then have "entry_name_ok (dump_entry (mysql_db t))"
    by (simp add: dump_entry_def mysql_db_def entry_name_ok_def has_suffix_def)
  moreover have "path_ok ''/b''" by code_simp
  ultimately show ?thesis
    using local_wf local_can_archive local_backups(5) assms(3,4) local_names [OF assms(1,2)] assms(2)
    by (auto simp: ready_def new_zip_def can_backup_def local_at)
qed

definition oracle_profile :: Profile where
  "oracle_profile = (plain_profile TypeLocal)\<lparr>prf_Dbs := [mysql_db ''oracle'']\<rparr>"


lemma local_ids: "owner_ids local_env ''bob'' = Some (1000, 1000)"
proof -
  have "atoi ''1000'' = Inr 1000" by (simp add: atoi_def is_digit_def digit_val_def)
  then show ?thesis by (simp add: owner_ids_def local_env_def ref_env_def)
qed

lemma local_meta: "new_meta local_env 384 = \<lparr>m_uid = 0, m_gid = 0, m_mode = 384\<rparr>"
  by (simp add: new_meta_def local_env_def ref_env_def)

lemma local_mode: "file_mode ''640'' = Some 416"
  by (simp add: file_mode_def parse_octal_def is_digit_def digit_val_def syscallMode_def)


end
