(* ===== verification/Logger.thy ===== *)
theory Logger
  imports GoStrings
begin

text \<open>
  \<open>app/logger/logger.go\<close>: the level of the log, the handlers it is made of, and the writer that
  turns output into log lines. The handlers come from libraries: a logger is the handler that
  was configured, and of what it does only the choice of the lines it keeps is described.
\<close>

section \<open>Levels\<close>

text \<open>The constants of \<open>log/slog\<close>, which are ordered by their numbers.\<close>

datatype Level = LevelDebug | LevelInfo | LevelWarn | LevelError

fun level_value :: "Level \<Rightarrow> int" where
  "level_value LevelDebug = - 4"
| "level_value LevelInfo = 0"
| "level_value LevelWarn = 4"
| "level_value LevelError = 8"

lemma level_value_inject [simp]: "level_value a = level_value b \<longleftrightarrow> a = b"
  by (cases a; cases b) simp_all

instantiation Level :: linorder
begin

definition less_eq_Level :: "Level \<Rightarrow> Level \<Rightarrow> bool" where
  "a \<le> b \<longleftrightarrow> level_value a \<le> level_value b"

definition less_Level :: "Level \<Rightarrow> Level \<Rightarrow> bool" where
  "a < b \<longleftrightarrow> level_value a < level_value b"

instance
  by standard (auto simp: less_eq_Level_def less_Level_def)

end

definition GetLogLevel :: "string \<Rightarrow> Level" where
  "GetLogLevel s =
     (let s = to_upper s in
      if s = ''DEBUG'' then LevelDebug
      else if s = ''WARN'' then LevelWarn
      else if s = ''ERROR'' \<or> s = ''ERR'' then LevelError
      else LevelInfo)"


section \<open>Handlers\<close>

text \<open>
  Where a time is shown in a format of the \<open>time\<close> package, and the handlers: for a terminal and
  as json, both to the standard output, as text to a writer that drops everything, and one that
  rewrites attributes before another handler gets them.
\<close>

datatype Location = Local | UTC

datatype Formatter = ErrorFormatter string | TimeFormatter string Location

datatype Handler =
  ConsoleHandler Level string
| JSONHandler Level
| DiscardHandler Level
| FormatterHandler "Formatter list" Handler

definition Kitchen :: string where
  "Kitchen = ''3:04PM''"

definition RFC3339 :: string where
  "RFC3339 = ''2006-01-02T15:04:05Z07:00''"

text \<open>\<open>useTty\<close>: the standard output is a terminal. No error is ever returned.\<close>

definition GetDefault :: "bool \<Rightarrow> Level \<Rightarrow> ('s, Handler) go" where
  "GetDefault useTty level =
     (let defaultHandler =
        if useTty then
          let consoleHan = ConsoleHandler level Kitchen;
              errFmt = ErrorFormatter ''error'';
              timeFmt = TimeFormatter RFC3339 Local
          in FormatterHandler [errFmt, timeFmt] consoleHan
        else
          let jsonHandler = JSONHandler level;
              timeFmt = TimeFormatter RFC3339 UTC
          in FormatterHandler [timeFmt] jsonHandler
      in ret defaultHandler)"

text \<open>The options are the zero value, whose level is that of \<open>LevelInfo\<close>.\<close>

definition SilentLogger :: Handler where
  "SilentLogger = DiscardHandler LevelInfo"

text \<open>
  \<open>SlogWriter.Write\<close>: what is logged, at the debug level, and the count it reports. All line
  breaks at the end are removed.
\<close>

definition SlogWriter_Write :: "string \<Rightarrow> string \<times> nat" where
  "SlogWriter_Write p = (trim_right (\<lambda>c. c = CHR 0x0A) p, length p)"


section \<open>Which lines are kept\<close>

text \<open>Whether a line of a level reaches the standard output.\<close>

fun shown :: "Handler \<Rightarrow> Level \<Rightarrow> bool" where
  "shown (ConsoleHandler l f) m \<longleftrightarrow> l \<le> m"
| "shown (JSONHandler l) m \<longleftrightarrow> l \<le> m"
| "shown (DiscardHandler l) m \<longleftrightarrow> False"
| "shown (FormatterHandler fs h) m \<longleftrightarrow> shown h m"

lemma GetDefault_Ok: "\<exists>h. GetDefault tty level s = (Ok h, s) \<and> (\<forall>m. shown h m \<longleftrightarrow> level \<le> m)"
  by (simp add: GetDefault_def Let_def ret_def)

text \<open>A level that is not known is no error: the log is then that of \<open>info\<close>.\<close>

lemma GetLogLevel_unknown:
  "to_upper s \<notin> {''DEBUG'', ''WARN'', ''ERROR'', ''ERR''} \<Longrightarrow> GetLogLevel s = LevelInfo"
  by (simp add: GetLogLevel_def Let_def)

text \<open>Errors are shown at every level that can be asked for.\<close>

lemma errors_shown:
  assumes "GetDefault tty (GetLogLevel s) w = (Ok h, w')" shows "shown h LevelError"
proof -
  have "GetLogLevel s \<le> LevelError"
    by (cases "GetLogLevel s") (simp_all add: less_eq_Level_def)
  then show ?thesis using GetDefault_Ok [of tty "GetLogLevel s" w] assms by auto
qed

end
