(* ===== verification/Cmd.thy ===== *)
theory Cmd
  imports Runner Logger
begin

text \<open>
  \<open>app/cmd/cmd.go\<close>: what the commands \<open>backup\<close> and \<open>validate\<close> do with the path they are
  given. The log lines they write are not modelled. The command line is in Cli.
\<close>

definition backupFromFile :: "env \<Rightarrow> string \<Rightarrow> (world, unit) go" where
  "backupFromFile E absFile =
     bnd (LoadProfileFile E \<lparr>profiles = []\<rparr> absFile) (\<lambda>runner. Runner.Run E runner)"

definition backupFromDir :: "env \<Rightarrow> string \<Rightarrow> (world, unit) go" where
  "backupFromDir E absPath =
     bnd (LoadProfilesDir E \<lparr>profiles = []\<rparr> absPath) (\<lambda>(runner, err).
     case err of Some e \<Rightarrow> throw e | None \<Rightarrow> Runner.Run E runner)"

definition validateDir :: "env \<Rightarrow> string \<Rightarrow> (world, unit) go" where
  "validateDir E absPath =
     bnd (LoadProfiles E absPath) (\<lambda>(ps, err).
     if err \<noteq> None then throw (ErrNew ''profiles contains errors'') else ret ())"

definition validateSingle :: "env \<Rightarrow> string \<Rightarrow> (world, unit) go" where
  "validateSingle E absPath =
     bnd (attempt (LoadProfile E absPath)) (\<lambda>r.
     case r of Inl e \<Rightarrow> throw (ErrNew ''profiles contains errors'') | Inr p \<Rightarrow> ret ())"

text \<open>
  The body of the two commands: \<open>args\<close> are the arguments without the flags, and \<open>tty\<close> says
  whether the standard output is a terminal.
\<close>

definition on_path ::
  "env \<Rightarrow> bool \<Rightarrow> (string \<Rightarrow> (world, unit) go) \<Rightarrow> (string \<Rightarrow> (world, unit) go) \<Rightarrow>
   string \<Rightarrow> string list \<Rightarrow> (world, unit) go" where
  "on_path E tty from_dir from_file loglevel args =
     (case args of [] \<Rightarrow> gopanic
      | file # _ \<Rightarrow>
        bnd (GetDefault tty (GetLogLevel loglevel)) (\<lambda>log.
        let absPath = abs_path (wd E) file in
        bnd (os_stat E absPath) (\<lambda>fstat.
        if IsDir fstat then from_dir absPath else from_file absPath)))"

definition backup_RunE :: "env \<Rightarrow> bool \<Rightarrow> string \<Rightarrow> string list \<Rightarrow> (world, unit) go" where
  "backup_RunE E tty loglevel args = on_path E tty (backupFromDir E) (backupFromFile E) loglevel args"

definition validate_RunE :: "env \<Rightarrow> bool \<Rightarrow> string \<Rightarrow> string list \<Rightarrow> (world, unit) go" where
  "validate_RunE E tty loglevel args = on_path E tty (validateDir E) (validateSingle E) loglevel args"

text \<open>What the process ends with: an error is exit code 1; a panic ends a Go program with 2.\<close>

definition exit_code :: "'a res \<Rightarrow> nat" where
  "exit_code r = (case r of Ok _ \<Rightarrow> 0 | Fail e \<Rightarrow> 1 | Panic \<Rightarrow> 2)"

lemma exit_code_simps [simp]:
  "exit_code (Ok a) = 0" "exit_code (Fail e) = 1" "exit_code Panic = 2"
  by (simp_all add: exit_code_def)

lemma on_path_one:
  "on_path E tty from_dir from_file loglevel [file] =
     bnd (os_stat E (abs_path (wd E) file)) (\<lambda>i.
     if IsDir i then from_dir (abs_path (wd E) file) else from_file (abs_path (wd E) file))"
  by (rule ext) (simp add: on_path_def GetDefault_def Let_def ret_def bnd_def)

text \<open>Validating changes no file.\<close>

lemma validate_keeps: "effects (keeps fs) (validate_RunE E tty loglevel [file])"
  unfolding validate_RunE_def on_path_one validateDir_def validateSingle_def
  by (intro kp.keeps_bnd kp.keeps_if kp.keeps_case_prod kp.keeps_throw kp.keeps_ret kp.keeps_attempt kp.keeps_case_sum
      effects_mono [OF effects_os_stat ticked_keeps_fs] effects_mono [OF effects_LoadProfile ticked_keeps_fs]
      effects_LoadProfiles)


section \<open>What the commands report\<close>

lemma validateDir_Ok:
  "LoadProfiles E dir w = (Ok (ps, err), v) \<Longrightarrow> validateDir E dir w =
     (if err = None then Ok () else Fail (ErrNew ''profiles contains errors''), v)"
  by (simp add: validateDir_def bnd_def ret_def throw_def)

lemma backupFromDir_Ok:
  "LoadProfiles E dir w = (Ok (ps, err), v) \<Longrightarrow> backupFromDir E dir w =
     (case err of Some e \<Rightarrow> (Fail e, v) | None \<Rightarrow> Runner.Run E \<lparr>profiles = ps\<rparr> v)"
  by (simp add: backupFromDir_def LoadProfilesDir_def bnd_def ret_def throw_def split: option.splits)

text \<open>
  C22. On a directory of profiles that can be read, \<open>validate\<close> ends with exit code 0 exactly when
  every profile file in it loads, and \<open>backup\<close> then runs them all, in the order of the walk.
  When one does not load, \<open>backup\<close> runs none of the others either: it fails with the files as
  they were.
\<close>

theorem backupFromDir_all_or_nothing:
  assumes "no_faults E" and "plain_key (wd E)" and "fs_wf w" and "paths_ok w (key_of (wd E) dir) dir"
    and "node_at w (key_of (wd E) dir) = Some Dir"
  shows "\<exists>v. fs v = fs w \<and> exit_code (fst (validateDir E dir w)) =
      (if list_all (loads E w) (profile_files E dir w) then 0 else 1) \<and>
    (if list_all (loads E w) (profile_files E dir w)
     then backupFromDir E dir w = Runner.Run E \<lparr>profiles = loaded E w (profile_files E dir w)\<rparr> v
     else \<exists>e. backupFromDir E dir w = (Fail e, v))"
proof -
  obtain err v where l: "LoadProfiles E dir w = (Ok (loaded E w (profile_files E dir w), err), v)"
      and e: "err = None \<longleftrightarrow> list_all (loads E w) (profile_files E dir w)" and v: "fs v = fs w"
    using LoadProfiles_run [OF assms] by blast
  show ?thesis
    using v e unfolding validateDir_Ok [OF l] backupFromDir_Ok [OF l]
    by (intro exI [of _ v]) (cases err; simp)
qed

theorem backupFromDir_all_or_nothing_witness:
  "exit_code (fst (validateDir load_env ''/p'' load_world)) = 1 \<and>
   (\<exists>e v. backupFromDir load_env ''/p'' load_world = (Fail e, v) \<and> fs v = fs load_world)"
proof -
  have "paths_ok load_world (key_of (wd load_env) ''/p'') ''/p''" and "plain_key (wd load_env)"
    and "node_at load_world (key_of (wd load_env) ''/p'') = Some Dir"
    by (simp_all add: load_keys load_paths load_world_at plain_key_def)
  moreover have "\<not> list_all (loads load_env load_world) (profile_files load_env ''/p'' load_world)"
    by (simp add: load_profile_files loads_def load_files_load)
  ultimately show ?thesis
    using backupFromDir_all_or_nothing [OF load_env_simps(1) _ load_world_wf] by fastforce
qed

end
