(* ===== verification/WellFormed.thy ===== *)
theory WellFormed
  imports Cmd
begin

text \<open>
  What a profile that was loaded is known to be, for the code that runs it: the checks of
  \<open>internal/profile/profile.go\<close> as a type of profiles, and that the runner of
  \<open>app/goback/goback.go\<close> only ever holds such profiles.
\<close>

section \<open>Well-formed profiles\<close>

definition ssh_wf :: "Ssh \<Rightarrow> bool" where
  "ssh_wf s \<longleftrightarrow> ssh_Type s \<in> {ConnTypeSshKey, ConnTypePasswd, ConnTypeSshAgent} \<and>
     ssh_Host s \<noteq> [] \<and> ssh_Port s \<noteq> 0"

definition dir_wf :: "ProfileType \<Rightarrow> BackupPath \<Rightarrow> bool" where
  "dir_wf t d \<longleftrightarrow> bp_Path d \<noteq> [] \<and> (t = TypeSftpSync \<longrightarrow> bp_Name d \<noteq> [])"

definition db_wf :: "BackupDb \<Rightarrow> bool" where
  "db_wf d \<longleftrightarrow> to_lower (db_Type d) = db_Type d \<and>
     (db_Type d \<in> {DbDockerPostgres, DbDockerMysql} \<longrightarrow> db_ContainerName d \<noteq> [])"

definition profile_wf :: "Profile \<Rightarrow> bool" where
  "profile_wf p \<longleftrightarrow> prf_Type p \<in> {TypeSftpSync, TypeLocal, TypeRemote} \<and> prf_Name p \<noteq> [] \<and>
     (prf_Type p \<noteq> TypeLocal \<longrightarrow> ssh_wf (prf_Ssh p)) \<and>
     (prf_Type p \<noteq> TypeSftpSync \<longrightarrow> prf_Dirs p \<noteq> [] \<or> prf_Dbs p \<noteq> []) \<and>
     list_all (dir_wf (prf_Type p)) (prf_Dirs p) \<and> list_all db_wf (prf_Dbs p)"

definition runner_wf :: "BackupRunner \<Rightarrow> bool" where
  "runner_wf br \<longleftrightarrow> list_all profile_wf (profiles br)"

lemma completed_wf: "acceptable E l \<Longrightarrow> profile_wf (completed E l)"
  by (auto simp: acceptable_def completed_def Let_def profile_wf_def ssh_wf_def dir_wf_def db_wf_def
      dir_acceptable_def db_acceptable_def list_all_iff)

lemma LoadProfile_wf: "fst (LoadProfile E f w) = Ok p \<Longrightarrow> profile_wf p"
  by (auto simp: LoadProfile_fst loadProfileV1_iff completed_wf split: if_splits res.splits sum.splits)

lemma load_files_wf:
  "load_files E files ps errs w = (Ok (qs, err), v) \<Longrightarrow> list_all profile_wf ps \<Longrightarrow> list_all profile_wf qs"
proof (induction files arbitrary: ps errs w)
  case (Cons f files)
  obtain r u where r: "LoadProfile E f w = (r, u)" by (cases "LoadProfile E f w")
  show ?case
  proof (cases r)
    case (Ok p)
    then have "profile_wf p" using r LoadProfile_wf [of E f w p] by simp
    then show ?thesis
      using Cons.prems r Ok by (intro Cons.IH [of "ps @ [p]" errs u]) (simp_all add: bnd_def attempt_def)
  qed (use Cons r in \<open>auto simp: bnd_def attempt_def\<close>)
qed simp

lemma LoadProfiles_wf:
  assumes "LoadProfiles E dir w = (Ok (qs, err), v)" shows "list_all profile_wf qs"
proof -
  have "list_all profile_wf qs \<or> (\<exists>files u. load_files E files [] None u = (Ok (qs, err), v))"
    using assms
    by (auto simp: LoadProfiles_def bnd_def attempt_def ret_def split: prod.splits res.splits sum.splits if_splits)
  then show ?thesis using load_files_wf by fastforce
qed

text \<open>Running a profile of a known type fails only with what its run reports.\<close>

lemma RunProfile_known:
  assumes "profile_wf p" shows "fst (RunProfile E p w) \<noteq> Fail (ErrNew s)"
proof -
  have "fst (bnd (map_err (errorf_w s') m) (\<lambda>_. bnd (time_now E) (\<lambda>t. ret ())) v) \<noteq> Fail (ErrNew s)"
    for s' and m :: "(world, unit) go" and v
    by (cases "m v"; cases "fst (m v)")
      (simp_all add: bnd_def map_err_def handle_def throw_def errorf_w_def time_now_def service_def ret_def)
  then show ?thesis
    using assms by (auto simp: RunProfile_def Let_def profile_wf_def time_now_def bnd_def [of "service _"] service_def)
qed


section \<open>The runner\<close>

text \<open>
  C19. Type. A runner that holds only well-formed profiles (a known type, a name, something to
  back up, a usable ssh configuration where one is needed, a path for every directory and a
  name where the type needs one) holds only such profiles after it loaded a file or a
  directory, whatever is in the files and whatever fails; and running one of them never ends
  with the error of an unknown profile type.
\<close>

theorem loaded_profiles_typed:
  assumes "runner_wf br"
  shows "(\<forall>br' v. LoadProfileFile E br f w = (Ok br', v) \<longrightarrow> runner_wf br') \<and>
    (\<forall>br' err v. LoadProfilesDir E br f w = (Ok (br', err), v) \<longrightarrow> runner_wf br') \<and>
    (\<forall>p \<in> set (profiles br). fst (RunProfile E p w) \<noteq> Fail (ErrNew (''unknown profile type: '' @ prf_Type p)))"
proof (intro conjI allI impI ballI)
  fix br' v assume "LoadProfileFile E br f w = (Ok br', v)"
  then obtain p where "LoadProfile E f w = (Ok p, v)" "br' = br\<lparr>profiles := profiles br @ [p]\<rparr>"
    by (auto simp: LoadProfileFile_def)
  then show "runner_wf br'" using assms LoadProfile_wf [of E f w p] by (simp add: runner_wf_def)
next
  fix br' err v assume "LoadProfilesDir E br f w = (Ok (br', err), v)"
  then obtain ps where "LoadProfiles E f w = (Ok (ps, err), v)" "br' = br\<lparr>profiles := profiles br @ ps\<rparr>"
    by (auto simp: LoadProfilesDir_def)
  then show "runner_wf br'" using assms LoadProfiles_wf [of E f w ps err v] by (simp add: runner_wf_def)
next
  fix p assume "p \<in> set (profiles br)"
  then have "profile_wf p" using assms by (simp add: runner_wf_def list_all_iff)
  then show "fst (RunProfile E p w) \<noteq> Fail (ErrNew (''unknown profile type: '' @ prf_Type p))"
    by (rule RunProfile_known)
qed

theorem loaded_profiles_typed_witness:
  "\<exists>br v. LoadProfileFile load_env \<lparr>profiles = []\<rparr> ''/p/a.backup.yaml'' load_world = (Ok br, v) \<and>
     length (profiles br) = 1 \<and> runner_wf br"
proof -
  obtain v where "LoadProfile load_env ''/p/a.backup.yaml'' load_world = (Ok (completed load_env yaml_local), v)"
    using load_files_load(1) by (cases "LoadProfile load_env ''/p/a.backup.yaml'' load_world") simp
  then have "LoadProfileFile load_env \<lparr>profiles = []\<rparr> ''/p/a.backup.yaml'' load_world =
      (Ok \<lparr>profiles = [completed load_env yaml_local]\<rparr>, v)"
    by (simp add: LoadProfileFile_def bnd_def ret_def)
  moreover have "runner_wf \<lparr>profiles = []\<rparr>" by (simp add: runner_wf_def)
  from loaded_profiles_typed [OF this, THEN conjunct1] calculation
  have "runner_wf \<lparr>profiles = [completed load_env yaml_local]\<rparr>" by blast
  ultimately show ?thesis by (intro exI [of _ "\<lparr>profiles = [completed load_env yaml_local]\<rparr>"] exI [of _ v]) simp
qed

end
