(* ===== verification/SyncRun.thy ===== *)
theory SyncRun
  imports Runner
begin

text \<open>
  What a synchronisation run does to the destination: what it may touch whatever fails, and
  what it leaves there when nothing does.
\<close>

section \<open>What a run may touch\<close>

text \<open>The destination and the possible backups of the remote directories of the profile.\<close>

definition sync_keys :: "key \<Rightarrow> BackupPath list \<Rightarrow> key set" where
  "sync_keys d dirs = insert d (\<Union>dir \<in> set dirs. backup_keys d (bp_Name dir))"

lemma effects_syncRemoteBackups:
  assumes "dated_glob (glob_compile E)" and "glob_plain name" and "slash \<notin> set name"
    and "key_of (wd E) destPath \<in> K" and "backup_keys (key_of (wd E) destPath) name \<subseteq> K"
  shows "effects (frame K) (syncRemoteBackups E rp name destPath)"
proof (rule effectsI)
  fix w
  show "frame K w (snd (syncRemoteBackups E rp name destPath w))"
  proof (cases "is_link w (key_of (wd E) destPath)")
    case True
    then show ?thesis using assms(4) by (rule frame_if_link)
  next
    case False
    have "free_keys (key_of (wd E) destPath) name w \<subseteq> K" using assms(5) by (auto simp: free_keys_def)
    with frame_syncRemoteBackups [OF assms(1-3) False] show ?thesis by (rule frame_mono)
  qed
qed

lemma effects_sync_dir:
  assumes "dated_glob (glob_compile E)" and "glob_plain (bp_Name dir)" and "slash \<notin> set (bp_Name dir)"
    and "dir \<in> set dirs"
  shows "effects (frame (sync_keys (key_of (wd E) (dest_Path (prf_Destination p))) dirs)) (sync_dir E p dir)"
proof -
  let ?d = "key_of (wd E) (dest_Path (prf_Destination p))"
  have sub: "backup_keys ?d (bp_Name dir) \<subseteq> sync_keys ?d dirs" "?d \<in> sync_keys ?d dirs"
    using assms(4) by (auto simp: sync_keys_def)
  have "effects (frame (sync_keys ?d dirs)) (ExpurgeDir E (dest_Path (prf_Destination p)) n (bp_Name dir))" for n
    by (rule effects_mono [OF effects_ExpurgeDir [OF assms(1-3)]], erule frame_mono) (rule sub)
  then show ?thesis
    unfolding sync_dir_def Let_def
    by (intro fr.keeps_bnd fr.keeps_if fr.keeps_ret fr.keeps_map_err effects_syncRemoteBackups assms(1-3) sub)
qed

lemma quiet_sftp_client:
  "effects (keeps files_part) (sftp_NewClient E c)" "effects (keeps files_part) (sftpc_Close E)"
  "effects (keeps files_part) (Disconnect E c)"
  unfolding sftp_NewClient_def sftpc_Close_def Disconnect_def Let_def by (intro quiet_rules)+

text \<open>
  C7. Safety. Whatever system calls and services fail, and whatever the run returns, a
  synchronisation changes no file of the system but the destination directory (which it may
  create) and files of that directory named as backups of one of the remote directories.
\<close>

theorem runSyncProfile_touches_only_backups:
  assumes "dated_glob (glob_compile E)"
    and "\<forall>dir \<in> set (prf_Dirs p). glob_plain (bp_Name dir) \<and> slash \<notin> set (bp_Name dir)"
    and "no_links (sync_keys (key_of (wd E) (dest_Path (prf_Destination p))) (prf_Dirs p)) w"
    and "k \<notin> sync_keys (key_of (wd E) (dest_Path (prf_Destination p))) (prf_Dirs p)"
  shows "node_at (snd (runSyncProfile E p w)) k = node_at w k"
proof -
  let ?K = "sync_keys (key_of (wd E) (dest_Path (prf_Destination p))) (prf_Dirs p)"
  have step: "effects (frame ?K) (sync_dir E p dir)" if "dir \<in> set (prf_Dirs p)" for dir
    using assms(1,2) that by (intro effects_sync_dir) auto
  have dest: "key_of (wd E) (dest_Path (prf_Destination p)) \<in> ?K" by (simp add: sync_keys_def)
  have "effects (frame ?K) (for_each (prf_Dirs p) (sync_dir E p))"
    using step by (rule fr.keeps_for_each)
  then have "effects (frame ?K) (runSyncProfile E p)"
    unfolding runSyncProfile_def
    by (intro fr.keeps_bnd fr.keeps_map_err fr.keeps_defer_ignore fr.keeps_defer_join effects_prepareDestination
        dest fr.from_quiet [OF quiet_NewClient] fr.from_quiet [OF quiet_Connect] fr.from_quiet [OF quiet_sftp_client(1)]
        fr.from_quiet [OF quiet_sftp_client(2)] fr.from_quiet [OF quiet_sftp_client(3)])
  then have "frame ?K w (snd (runSyncProfile E p w))" by (rule effects_snd)
  then show ?thesis using assms(3,4) by (auto simp: frame_def same_outside_def)
qed


section \<open>One remote directory\<close>

text \<open>The names in the destination once all that was missing has been fetched.\<close>

definition fetched_names :: "world \<Rightarrow> key \<Rightarrow> (string \<times> bool) list \<Rightarrow> string \<Rightarrow> string list" where
  "fetched_names w d L name = sorted_list_of_set (set (children w d) \<union> to_fetch w d L name)"

definition sync_deletes :: "int \<Rightarrow> world \<Rightarrow> key \<Rightarrow> (string \<times> bool) list \<Rightarrow> string \<Rightarrow> string list" where
  "sync_deletes keep w d L name =
     (if keep > 0 then oldest_but (nat keep) (backups_of name (fetched_names w d L name)) else [])"

lemma finite_to_fetch: "finite (to_fetch w d L name)"
  by (rule finite_subset [of _ "fst ` set L"]) (force simp: to_fetch_def)+

text \<open>After the downloads the directory is still one old backups can be deleted from.\<close>

lemma expurgeable_fetched:
  assumes "expurgeable E path name w" and "sync_target E path name L w" and "fs_wf v"
    and v: "\<And>k. node_at v k = (if k \<in> (\<lambda>f. key_of (wd E) path @ [f]) ` to_fetch w (key_of (wd E) path) L name
        then Some (File (Raw (data (last k))) m) else node_at w k)"
  shows "expurgeable E path name v"
proof -
  let ?d = "key_of (wd E) path"
  note e = assms(1) [unfolded expurgeable_def]
  have "path_ok (path_join [path, f]) \<and> node_at v (?d @ [f]) \<noteq> Some Dir"
    if "f \<in> set (backups_of name (children v ?d))" for f
  proof (cases "f \<in> to_fetch w ?d L name")
    case True
    then have "f \<in> fst ` set L" and "is_backup_of name f" by (force simp: to_fetch_def)+
    then have "path_ok (path_join [path, f])" using assms(2) by (auto simp: sync_target_def)
    then show ?thesis using True by (simp add: v)
  next
    case False
    then have "node_at v (?d @ [f]) = node_at w (?d @ [f])" by (auto simp: v)
    moreover from this have "f \<in> set (backups_of name (children w ?d))"
      using that by (simp add: backups_of_def mem_children_iff)
    ultimately show ?thesis using e by simp
  qed
  moreover have "node_at v ?d = Some Dir" using e by (auto simp: v)
  ultimately show ?thesis using e assms(3) by (simp add: expurgeable_def)
qed

text \<open>
  When no call fails, one step of a synchronisation fetches what is missing and deletes the
  backups of the directory that are too old.
\<close>

lemma sync_dir_run:
  fixes E :: env and p :: Profile and dir :: BackupPath and w :: world
  defines "d \<equiv> prf_Destination p" and "name \<equiv> bp_Name dir"
  defines "k0 \<equiv> key_of (wd E) (dest_Path d)"
  assumes "dated_glob (glob_compile E)" and "glob_plain name" and "slash \<notin> set name" and "name \<noteq> []"
    and "no_faults E" and "plain_key (wd E)" and "remote_dir E (bp_Path dir) L data"
    and "sync_target E (dest_Path d) name L w" and "expurgeable E (dest_Path d) name w"
  shows "\<exists>w'. sync_dir E p dir w = (Ok (), w') \<and> handles w' = handles w \<and> fs_wf w' \<and>
    (\<forall>k. node_at w' k =
       (if k \<in> (\<lambda>f. k0 @ [f]) ` set (sync_deletes (dest_Keep d) w k0 L name) then None
        else if k \<in> (\<lambda>f. k0 @ [f]) ` to_fetch w k0 L name
        then Some (File (Raw (data (last k))) (new_meta E 438)) else node_at w k))"
proof -
  let ?del = "sync_deletes (dest_Keep d) w k0 L name"
  let ?after = "\<lambda>k. if k \<in> (\<lambda>f. k0 @ [f]) ` to_fetch w k0 L name
    then Some (File (Raw (data (last k))) (new_meta E 438)) else node_at w k"
  obtain v where v: "syncRemoteBackups E (bp_Path dir) name (dest_Path d) w = (Ok (), v)" "handles v = handles w"
      "fs_wf v" and at: "\<And>k. node_at v k = ?after k"
    using syncRemoteBackups_run [OF assms(4-8,10,11)] assms(9,12) unfolding k0_def expurgeable_def by blast
  have x: "expurgeable E (dest_Path d) name v"
    by (rule expurgeable_fetched [OF assms(12,11) v(3)]) (use at in \<open>simp add: k0_def\<close>)
  have "set (children v k0) = set (children w k0) \<union> to_fetch w k0 L name"
    by (auto simp: mem_children_iff at image_iff split: if_splits)
  then have ch: "children v k0 = fetched_names w k0 L name"
    unfolding fetched_names_def using v(3)
    by (intro sorted_distinct_set_unique) (simp_all add: sorted_children distinct_children finite_to_fetch)
  have first: "sync_dir E p dir w =
      (if dest_Keep d > 0 then map_err (errorf_w ''error expurging old backup files: '')
         (ExpurgeDir E (dest_Path d) (dest_Keep d) name) v else (Ok (), v))"
    using v(1) by (simp add: sync_dir_def Let_def d_def name_def bnd_def ret_def)
  show ?thesis
  proof (cases "dest_Keep d > 0")
    case True
    have "ExpurgeDir E (dest_Path d) (dest_Keep d) name v = (Ok (), delete_keys k0 ?del (tock (tock (tock v))))"
      using ExpurgeDir_run [OF assms(4,5,7) True assms(8) x] True ch by (simp add: k0_def sync_deletes_def)
    then show ?thesis
      using first True v(2,3) by (simp add: map_err_OkI node_at_delete_keys fs_wf_delete_keys at)
  next
    case False
    then show ?thesis using first v(2,3) at by (simp add: sync_deletes_def)
  qed
qed


section \<open>A whole run\<close>

text \<open>Nothing stands in the way of synchronising one of the directories of a profile.\<close>

definition can_sync ::
  "env \<Rightarrow> Profile \<Rightarrow> BackupPath \<Rightarrow> (string \<times> bool) list \<Rightarrow> (string \<Rightarrow> string) \<Rightarrow> world \<Rightarrow> bool" where
  "can_sync E p dir L data w \<longleftrightarrow>
     glob_plain (bp_Name dir) \<and> slash \<notin> set (bp_Name dir) \<and> bp_Name dir \<noteq> [] \<and>
     remote_dir E (bp_Path dir) L data \<and>
     sync_target E (dest_Path (prf_Destination p)) (bp_Name dir) L w \<and>
     expurgeable E (dest_Path (prf_Destination p)) (bp_Name dir) w"

text \<open>The backups of a directory a run fetches, and those it deletes.\<close>

definition run_fetches :: "env \<Rightarrow> Profile \<Rightarrow> BackupPath \<Rightarrow> (string \<times> bool) list \<Rightarrow> world \<Rightarrow> string set" where
  "run_fetches E p dir L w = to_fetch w (key_of (wd E) (dest_Path (prf_Destination p))) L (bp_Name dir)"

definition run_expurges :: "env \<Rightarrow> Profile \<Rightarrow> BackupPath \<Rightarrow> (string \<times> bool) list \<Rightarrow> world \<Rightarrow> string set" where
  "run_expurges E p dir L w =
     set (sync_deletes (dest_Keep (prf_Destination p)) w (key_of (wd E) (dest_Path (prf_Destination p))) L (bp_Name dir))"

text \<open>
  The state after some directories were synchronised: what is too old is gone, what was
  fetched and kept has the remote content, everything else is as it was.
\<close>

definition synced ::
  "env \<Rightarrow> Profile \<Rightarrow> (BackupPath \<Rightarrow> (string \<times> bool) list) \<Rightarrow> (BackupPath \<Rightarrow> string \<Rightarrow> string) \<Rightarrow>
     BackupPath list \<Rightarrow> world \<Rightarrow> world \<Rightarrow> bool" where
  "synced E p L data dirs w w' \<longleftrightarrow>
     (let k0 = key_of (wd E) (dest_Path (prf_Destination p)) in
      (\<forall>dir \<in> set dirs.
         (\<forall>f \<in> run_expurges E p dir (L dir) w. node_at w' (k0 @ [f]) = None) \<and>
         (\<forall>f \<in> run_fetches E p dir (L dir) w - run_expurges E p dir (L dir) w.
            node_at w' (k0 @ [f]) = Some (File (Raw (data dir f)) (new_meta E 438)))) \<and>
      (\<forall>k. (\<forall>dir \<in> set dirs. \<forall>f \<in> run_fetches E p dir (L dir) w \<union> run_expurges E p dir (L dir) w. k \<noteq> k0 @ [f]) \<longrightarrow>
         node_at w' k = node_at w k))"

lemma run_names:
  "f \<in> run_fetches E p dir L w \<Longrightarrow> is_backup_of (bp_Name dir) f"
  "f \<in> run_expurges E p dir L w \<Longrightarrow> is_backup_of (bp_Name dir) f"
proof -
  show "f \<in> run_fetches E p dir L w \<Longrightarrow> is_backup_of (bp_Name dir) f"
    by (simp add: run_fetches_def to_fetch_def)
  show "f \<in> run_expurges E p dir L w \<Longrightarrow> is_backup_of (bp_Name dir) f"
    using set_oldest_subset by (force simp: run_expurges_def sync_deletes_def backups_of_def split: if_splits)
qed

lemma synced_one:
  assumes "dated_glob (glob_compile E)" and "no_faults E" and "plain_key (wd E)" and "can_sync E p dir (L dir) (data dir) w"
  shows "\<exists>u. sync_dir E p dir w = (Ok (), u) \<and> handles u = handles w \<and> fs_wf u \<and> synced E p L data [dir] w u"
proof -
  note c = assms(4) [unfolded can_sync_def]
  obtain u where "sync_dir E p dir w = (Ok (), u)" "handles u = handles w" "fs_wf u"
    "\<forall>k. node_at u k =
       (if k \<in> (\<lambda>f. key_of (wd E) (dest_Path (prf_Destination p)) @ [f]) ` run_expurges E p dir (L dir) w then None
        else if k \<in> (\<lambda>f. key_of (wd E) (dest_Path (prf_Destination p)) @ [f]) ` run_fetches E p dir (L dir) w
        then Some (File (Raw (data dir (last k))) (new_meta E 438)) else node_at w k)"
    using sync_dir_run [where E = E and dir = dir and p = p and L = "L dir" and data = "data dir" and w = w] assms(1-3) c unfolding run_expurges_def run_fetches_def by blast
  then show ?thesis by (auto simp: synced_def Let_def image_iff)
qed

text \<open>Backups of one directory do not matter for another.\<close>

definition only_backups :: "key \<Rightarrow> string \<Rightarrow> world \<Rightarrow> world \<Rightarrow> bool" where
  "only_backups d a w u \<longleftrightarrow> (\<forall>k. (\<forall>f. is_backup_of a f \<longrightarrow> k \<noteq> d @ [f]) \<longrightarrow> node_at u k = node_at w k)"

lemma only_backups_at:
  "only_backups d a w u \<Longrightarrow> is_backup_of b f \<Longrightarrow> a \<noteq> b \<Longrightarrow> node_at u (d @ [f]) = node_at w (d @ [f])"
  unfolding only_backups_def using is_backup_of_unique by (metis append1_eq_conv)

lemma only_backups_children:
  assumes "only_backups d a w u" and "a \<noteq> b"
  shows "f \<in> set (backups_of b (children u d)) \<longleftrightarrow> f \<in> set (backups_of b (children w d))"
  using only_backups_at [OF assms(1) _ assms(2), of f]
  by (cases "is_backup_of b f") (simp_all add: backups_of_def mem_children_iff)

lemma backups_of_sorted_set:
  "finite A \<Longrightarrow> backups_of b (sorted_list_of_set A) = sorted_list_of_set {f \<in> A. is_backup_of b f}"
  by (rule sorted_distinct_set_unique) (auto simp: backups_of_def sorted_wrt_filter)

lemma only_backups_sync:
  assumes "only_backups d a w u" and "a \<noteq> b"
  shows "to_fetch u d L b = to_fetch w d L b" and "sync_deletes n u d L b = sync_deletes n w d L b"
proof -
  show f: "to_fetch u d L b = to_fetch w d L b"
    using only_backups_at [OF assms(1) _ assms(2)] by (auto simp: to_fetch_def)
  have "{f \<in> set (children u d) \<union> to_fetch w d L b. is_backup_of b f} =
      {f \<in> set (children w d) \<union> to_fetch w d L b. is_backup_of b f}"
    using only_backups_children [OF assms] by (auto simp: backups_of_def)
  then have "backups_of b (fetched_names u d L b) = backups_of b (fetched_names w d L b)"
    by (simp add: fetched_names_def backups_of_sorted_set finite_to_fetch f del: Un_iff)
  then show "sync_deletes n u d L b = sync_deletes n w d L b" by (simp add: sync_deletes_def)
qed

lemma can_sync_other:
  assumes "only_backups (key_of (wd E) (dest_Path (prf_Destination p))) a w u" and "a \<noteq> bp_Name dir" and "fs_wf u"
    and "can_sync E p dir L data w"
  shows "can_sync E p dir L data u"
proof -
  let ?d = "key_of (wd E) (dest_Path (prf_Destination p))"
  have "node_at u ?d = node_at w ?d" using assms(1) by (simp add: only_backups_def)
  moreover note only_backups_at [OF assms(1) _ assms(2)] only_backups_children [OF assms(1,2)]
  moreover have "is_backup_of (bp_Name dir) f" if "f \<in> set (backups_of (bp_Name dir) (children w ?d))" for f
    using that by (simp add: backups_of_def)
  ultimately show ?thesis using assms(3,4) by (simp add: can_sync_def sync_target_def expurgeable_def)
qed


lemma synced_only_backups:
  "synced E p L data [dir] w u \<Longrightarrow>
     only_backups (key_of (wd E) (dest_Path (prf_Destination p))) (bp_Name dir) w u"
  unfolding only_backups_def
proof (intro allI impI)
  fix k assume s: "synced E p L data [dir] w u"
    and "\<forall>f. is_backup_of (bp_Name dir) f \<longrightarrow> k \<noteq> key_of (wd E) (dest_Path (prf_Destination p)) @ [f]"
  then have "\<forall>f \<in> run_fetches E p dir (L dir) w \<union> run_expurges E p dir (L dir) w.
      k \<noteq> key_of (wd E) (dest_Path (prf_Destination p)) @ [f]"
    using run_names by blast
  with s show "node_at u k = node_at w k" by (simp add: synced_def Let_def)
qed

lemma synced_Cons:
  assumes "synced E p L data [dir] w u" and "synced E p L data dirs u v" and "bp_Name dir \<notin> bp_Name ` set dirs"
  shows "synced E p L data (dir # dirs) w v"
proof -
  let ?d = "key_of (wd E) (dest_Path (prf_Destination p))"
  note ob = synced_only_backups [OF assms(1)]
  have same: "run_fetches E p x (L x) u = run_fetches E p x (L x) w"
    "run_expurges E p x (L x) u = run_expurges E p x (L x) w" if "x \<in> set dirs" for x
  proof -
    have "bp_Name dir \<noteq> bp_Name x" using that assms(3) by auto
    from only_backups_sync [OF ob this]
    show "run_fetches E p x (L x) u = run_fetches E p x (L x) w"
      "run_expurges E p x (L x) u = run_expurges E p x (L x) w"
      by (simp_all add: run_fetches_def run_expurges_def)
  qed
  have one: "f \<in> run_expurges E p dir (L dir) w \<Longrightarrow> node_at u (?d @ [f]) = None"
    "f \<in> run_fetches E p dir (L dir) w - run_expurges E p dir (L dir) w \<Longrightarrow>
      node_at u (?d @ [f]) = Some (File (Raw (data dir f)) (new_meta E 438))"
    "\<forall>f \<in> run_fetches E p dir (L dir) w \<union> run_expurges E p dir (L dir) w. k \<noteq> ?d @ [f] \<Longrightarrow>
      node_at u k = node_at w k" for f k
    using assms(1) by (simp_all add: synced_def Let_def)
  have more: "x \<in> set dirs \<Longrightarrow> f \<in> run_expurges E p x (L x) w \<Longrightarrow> node_at v (?d @ [f]) = None"
    "x \<in> set dirs \<Longrightarrow> f \<in> run_fetches E p x (L x) w - run_expurges E p x (L x) w \<Longrightarrow>
      node_at v (?d @ [f]) = Some (File (Raw (data x f)) (new_meta E 438))"
    "\<forall>x \<in> set dirs. \<forall>f \<in> run_fetches E p x (L x) w \<union> run_expurges E p x (L x) w. k \<noteq> ?d @ [f] \<Longrightarrow>
      node_at v k = node_at u k" for x f k
    using assms(2) same by (simp_all add: synced_def Let_def)
  have keep: "node_at v (?d @ [f]) = node_at u (?d @ [f])" if f: "is_backup_of (bp_Name dir) f" for f
  proof (rule more(3), intro ballI)
    fix x g assume x: "x \<in> set dirs" and "g \<in> run_fetches E p x (L x) w \<union> run_expurges E p x (L x) w"
    then have "is_backup_of (bp_Name x) g" using run_names by blast
    moreover have "bp_Name x \<noteq> bp_Name dir" using x assms(3) by (metis image_eqI)
    ultimately show "?d @ [f] \<noteq> ?d @ [g]" using f is_backup_of_unique by auto
  qed
  have 1: "\<forall>f \<in> run_expurges E p dir (L dir) w. node_at v (?d @ [f]) = None"
    using one(1) keep run_names(2) by simp
  have 2: "\<forall>f \<in> run_fetches E p dir (L dir) w - run_expurges E p dir (L dir) w.
       node_at v (?d @ [f]) = Some (File (Raw (data dir f)) (new_meta E 438))"
  proof
    fix f assume f: "f \<in> run_fetches E p dir (L dir) w - run_expurges E p dir (L dir) w"
    then have "is_backup_of (bp_Name dir) f" using run_names(1) by blast
    then show "node_at v (?d @ [f]) = Some (File (Raw (data dir f)) (new_meta E 438))" using keep one(2) [OF f] by simp
  qed
  have "node_at v k = node_at w k"
    if "\<forall>x \<in> set (dir # dirs). \<forall>f \<in> run_fetches E p x (L x) w \<union> run_expurges E p x (L x) w. k \<noteq> ?d @ [f]" for k
    using one(3) [of k] more(3) [of k] that by (simp del: Un_iff)
  with 1 2 more(1,2) show ?thesis unfolding synced_def Let_def by (simp del: Un_iff)
qed

lemma sync_dirs_run:
  assumes "dated_glob (glob_compile E)" and "no_faults E" and "plain_key (wd E)"
  shows "(\<forall>dir \<in> set dirs. can_sync E p dir (L dir) (data dir) w) \<Longrightarrow> distinct (map bp_Name dirs) \<Longrightarrow>
    \<exists>v. for_each dirs (sync_dir E p) w = (Ok (), v) \<and> handles v = handles w \<and> synced E p L data dirs w v"
proof (induction dirs arbitrary: w)
  case Nil
  show ?case by (simp add: ret_def synced_def)
next
  case (Cons dir dirs)
  obtain u where u: "sync_dir E p dir w = (Ok (), u)" "handles u = handles w" "fs_wf u" "synced E p L data [dir] w u"
    using synced_one [OF assms] Cons.prems(1) by (metis list.set_intros(1))
  have "\<forall>x \<in> set dirs. can_sync E p x (L x) (data x) u"
    using can_sync_other [OF synced_only_backups [OF u(4)] _ u(3)] Cons.prems by force
  from Cons.IH [OF this] obtain v where v: "for_each dirs (sync_dir E p) u = (Ok (), v)" "handles v = handles u" "synced E p L data dirs u v"
    using Cons.prems(2) by auto
  have "synced E p L data (dir # dirs) w v" using Cons.prems(2) by (intro synced_Cons [OF u(4) v(3)]) simp
  then show ?case using u(1,2) v(1,2) by (simp add: bnd_OkI)
qed

text \<open>The connection can be made; nothing is said of what closing it reports.\<close>

definition ssh_works :: "env \<Rightarrow> Profile \<Rightarrow> bool" where
  "ssh_works E p \<longleftrightarrow> (\<forall>w. \<exists>c. fst (NewClient E (ssh_cfg p) w) = Ok c) \<and> (\<forall>t a c. ssh_dial E t a c = None) \<and>
     (\<forall>t. sftp_client E t = None) \<and> (\<forall>t. sftp_close E t = None)"

lemma ssh_works_run:
  assumes "ssh_works E p"
  shows "\<exists>c u. bnd (map_err g (NewClient E (ssh_cfg p))) (\<lambda>c. bnd (map_err h (Connect E c)) f) w = f c u \<and>
    conn c \<and> fs u = fs w \<and> handles u = handles w"
proof -
  obtain c v where n: "NewClient E (ssh_cfg p) w = (Ok c, v)"
    using assms unfolding ssh_works_def by (metis prod.collapse)
  have "\<not> conn c" using NewClient_conns [OF n] by simp
  then obtain u where u: "Connect E c v = (Ok (c\<lparr>conn := True\<rparr>), u)"
    using assms by (simp add: ssh_works_def Connect_def bnd_def log_event_def modify_def map_err_def handle_def
        service_err_def service_def check_err_def add_conns_def ret_def)
  have "keeps files_part w v" "keeps files_part v u"
    using effectsD [OF quiet_NewClient n] effectsD [OF quiet_Connect u] by blast+
  then have "fs u = fs w \<and> handles u = handles w" by (simp add: files_part_eq)
  moreover have "bnd (map_err g (NewClient E (ssh_cfg p))) (\<lambda>c. bnd (map_err h (Connect E c)) f) w = f (c\<lparr>conn := True\<rparr>) u"
    using n u by (simp add: bnd_OkI map_err_OkI)
  ultimately show ?thesis by (intro exI [of _ "c\<lparr>conn := True\<rparr>"] exI [of _ u]) simp
qed


lemma run_parts_fs:
  assumes "fs u = fs w"
  shows "can_sync E p dir L data u = can_sync E p dir L data w"
    and "run_fetches E p dir L u = run_fetches E p dir L w" and "run_expurges E p dir L u = run_expurges E p dir L w"
    and "synced E p K b dirs u v = synced E p K b dirs w v"
proof -
  have n: "node_at u = node_at w" and c: "children u = children w" and f: "fs_wf u = fs_wf w"
    using assms by (simp_all add: node_at_def children_def fs_wf_def fun_eq_iff)
  show "can_sync E p dir L data u = can_sync E p dir L data w"
    by (simp add: can_sync_def sync_target_def expurgeable_def n c f)
  show *: "run_fetches E p dir L u = run_fetches E p dir L w" "run_expurges E p dir L u = run_expurges E p dir L w"
    for dir L
    by (simp_all add: run_fetches_def run_expurges_def to_fetch_def sync_deletes_def fetched_names_def n c)
  show "synced E p K b dirs u v = synced E p K b dirs w v" by (simp only: synced_def Let_def n *)
qed

lemma sftp_NewClient_works:
  "ssh_works E p \<Longrightarrow> conn c \<Longrightarrow> \<exists>v. sftp_NewClient E c w = (Ok (), v) \<and> fs v = fs w \<and> handles v = handles w"
  by (simp add: ssh_works_def sftp_NewClient_def bnd_def service_err_def service_def check_err_def ret_def
      add_sessions_def modify_def)

lemma sftpc_Close_works:
  "ssh_works E p \<Longrightarrow> \<exists>v. sftpc_Close E w = (Ok (), v) \<and> fs v = fs w \<and> handles v = handles w"
  by (simp add: ssh_works_def sftpc_Close_def bnd_def service_err_def service_def check_err_def ret_def
      add_sessions_def modify_def)

lemma Disconnect_works: "conn c \<Longrightarrow> \<exists>r v. Disconnect E c w = (Ok r, v) \<and> fs v = fs w \<and> handles v = handles w"
  by (simp add: Disconnect_def bnd_def log_event_def modify_def add_conns_def service_def ret_def Let_def)



section \<open>Examples\<close>

text \<open>The remote directory of \<open>sync_env\<close> has a newer backup than the destination, which keeps one.\<close>

definition sync_from :: BackupPath where
  "sync_from = \<lparr>bp_Path = ''/r'', bp_Name = ''a'', bp_Exclude = []\<rparr>"

definition sync_profile :: Profile where
  "sync_profile = (plain_profile TypeSftpSync)
     \<lparr>prf_Ssh := \<lparr>ssh_Type = ConnTypePasswd, ssh_Host = ''h'', ssh_Port = 22, ssh_User = ''u'',
        ssh_Password = ''p'', ssh_PrivateKey = [], ssh_Passphrase = []\<rparr>,
      prf_Dirs := [sync_from],
      prf_Destination := \<lparr>dest_Path = ''/d'', dest_Keep = 1, dest_Owner = [], dest_Mode = []\<rparr>\<rparr>"

lemma sync_simps [simp]:
  "bp_Path sync_from = ''/r''" "bp_Name sync_from = ''a''" "prf_Dirs sync_profile = [sync_from]"
  "prf_Destination sync_profile = \<lparr>dest_Path = ''/d'', dest_Keep = 1, dest_Owner = [], dest_Mode = []\<rparr>"
  by (simp_all add: sync_from_def sync_profile_def)

theorem runSyncProfile_touches_only_backups_witness:
  "node_at (snd (runSyncProfile sync_env sync_profile ex_world)) [''d'', ex_other] = Some (plain_file ''o'')"
proof -
  let ?K = "sync_keys (key_of (wd sync_env) (dest_Path (prf_Destination sync_profile))) (prf_Dirs sync_profile)"
  have "no_links ?K ex_world"
    by (auto simp: no_links_def is_link_def ex_world_def node_at_world_of plain_file_def)
  moreover have "[''d'', ex_other] \<notin> ?K"
    using ex_backups(3) by (auto simp: sync_keys_def backup_keys_def ex_key)
  ultimately have "node_at (snd (runSyncProfile sync_env sync_profile ex_world)) [''d'', ex_other] =
      node_at ex_world [''d'', ex_other]"
    using ex_backups(8) by (intro runSyncProfile_touches_only_backups) simp_all
  then show ?thesis using ex_distinct by (simp add: ex_world_def node_at_world_of)
qed

lemma sync_world_deletes:
  defines "L \<equiv> [(ex_new, False), (ex_other, False), (ex_old, False)]"
  shows "to_fetch sync_world [''d''] L ''a'' = {ex_new}" "sync_deletes 1 sync_world [''d''] L ''a'' = [ex_old]"
proof -
  show f: "to_fetch sync_world [''d''] L ''a'' = {ex_new}"
    using ex_backups ex_distinct by (auto simp: L_def to_fetch_def sync_world_def node_at_world_of)
  have "set (children sync_world [''d'']) = {ex_old}"
    by (auto simp: mem_children_iff sync_world_def node_at_world_of split: if_splits)
  then have "fetched_names sync_world [''d''] L ''a'' = [ex_old, ex_new]"
    using ex_backups(6,7) by (simp add: fetched_names_def f insert_commute)
  then show "sync_deletes 1 sync_world [''d''] L ''a'' = [ex_old]"
    using ex_backups by (simp add: sync_deletes_def oldest_but_def backups_of_def less_eq_dtime_def time_key_def)
qed

lemma sync_expurgeable: "expurgeable sync_env ''/d'' ''a'' sync_world"
proof -
  have ch: "set (children sync_world [''d'']) = {ex_old}"
    by (auto simp: mem_children_iff sync_world_def node_at_world_of split: if_splits)
  have "fs_wf sync_world"
    using ex_plain_names by (auto simp: fs_wf_def sync_world_def plain_key_def plain_name_def)
  moreover have "path_ok (path_join [''/d'', ex_old])"
    using ex_path_join [OF ex_plain_names(1)] ex_lengths by (simp add: path_ok_def path_max_def)
  moreover have "node_at sync_world [''d''] = Some Dir" "node_at sync_world [''d'', ex_old] \<noteq> Some Dir"
    by (simp_all add: sync_world_def node_at_world_of plain_file_def)
  moreover have "path_ok ''/d''" "\<not> has_meta ''/d''"
    by (simp_all add: path_ok_def path_max_def has_meta_def)
  ultimately show ?thesis
    by (simp add: expurgeable_def ex_key backups_of_def ch)
qed

lemma sync_connects: "ssh_works sync_env sync_profile"
  by (simp add: ssh_works_def sync_env_def ref_env_def NewClient_def ssh_cfg_def sync_profile_def GetAuthType_def
      auth_methods_def host_key_callback_def ignoreHostKey_def bnd_def ret_def map_err_def handle_def from_sum_def
      service_err_def service_def check_err_def Let_def)


end
