(* ===== verification/Network.thy ===== *)
theory Network
  imports SyncRun
begin

text \<open>
  What a run leaves open on the network. The two counters of the state, the connections and
  the sessions, are not touched by the calls that deal with files, and every session (of
  ssh or of sftp) is closed by a deferred call; so a run that uses the network leaves them as
  they were, but for the connection to an ssh agent when connecting fails.
\<close>

section \<open>Opening and closing\<close>

lemma snd_deferred [simp]:
  "snd (defer_ignore m c s) = snd (c (snd (m s)))" "snd (defer_join keep m c s) = snd (c (snd (m s)))"
  "snd (defer_errors_join m c s) = snd (c (snd (m s)))"
  by (simp_all add: defer_ignore_def defer_join_def defer_errors_join_def split: prod.split res.split)

text \<open>A body between a call that counts \<open>d\<close> more, if it succeeds, and one that counts \<open>d\<close> less.\<close>

lemma counted_scope:
  fixes f :: "world \<Rightarrow> int"
  assumes "\<And>w. f (snd (opening w)) = f w + (case fst (opening w) of Ok x \<Rightarrow> d | _ \<Rightarrow> 0)"
    and "\<And>w. f (snd (closing w)) = f w - d" and "\<And>w. snd (scope w) = snd (closing (snd (body w)))"
    and "effects (keeps f) body"
  shows "effects (keeps f) (bnd (map_err g opening) (\<lambda>_. scope))"
proof (rule effectsI)
  fix w
  have "f (snd (scope v)) = f v - d" for v
    using assms(2,3) effects_snd [OF assms(4), of v] by (simp add: keeps_def)
  moreover obtain r v where r: "opening w = (r, v)" by (cases "opening w")
  ultimately show "keeps f w (snd (bnd (map_err g opening) (\<lambda>_. scope) w))"
    using assms(1) [of w] by (cases r) (simp_all add: keeps_def bnd_def map_err_def handle_def throw_def)
qed

text \<open>A part of the state that counts what is open on the network, \<open>per\<close> for every session.\<close>

locale net_counter =
  fixes f :: "world \<Rightarrow> int" and per :: int
  assumes apart: "f (w\<lparr>tick := n\<rparr>) = f w" "f (w\<lparr>handles := h\<rparr>) = f w" "f (w\<lparr>trace := t\<rparr>) = f w"
      "f (w\<lparr>fs := x\<rparr>) = f w"
    and Session_counts: "f (snd (Session E c w)) = f w + (case fst (Session E c w) of Ok x \<Rightarrow> per | _ \<Rightarrow> 0)"
    and session_Close_counts: "f (snd (session_Close E w)) = f w - per"
    and sftp_counts: "f (snd (sftp_NewClient E c w)) = f w + (case fst (sftp_NewClient E c w) of Ok x \<Rightarrow> per | _ \<Rightarrow> 0)"
    and sftp_Close_counts: "f (snd (sftpc_Close E w)) = f w - per"
begin

lemma in_session: "effects (keeps f) body \<Longrightarrow>
    effects (keeps f) (bnd (map_err g (Session E c)) (\<lambda>_. with_session E body))"
  by (rule counted_scope [of f, where closing = "session_Close E" and d = per])
    (rule Session_counts session_Close_counts, rule Session_counts session_Close_counts, simp add: with_session_def, assumption)

lemma in_session_ignored: "effects (keeps f) body \<Longrightarrow>
    effects (keeps f) (bnd (map_err g (Session E c)) (\<lambda>_. defer_ignore body (session_Close E)))"
  by (rule counted_scope [of f, where closing = "session_Close E" and d = per])
    (rule Session_counts session_Close_counts, rule Session_counts session_Close_counts, simp, assumption)

lemma in_sftp: "effects (keeps f) body \<Longrightarrow>
    effects (keeps f) (bnd (map_err g (sftp_NewClient E c)) (\<lambda>_. defer_errors_join body (sftpc_Close E)))"
  by (rule counted_scope [of f, where closing = "sftpc_Close E" and d = per])
    (rule sftp_counts sftp_Close_counts, rule sftp_counts sftp_Close_counts, simp, assumption)

lemma in_sftp_join: "effects (keeps f) body \<Longrightarrow>
    effects (keeps f) (bnd (map_err g (sftp_NewClient E c)) (\<lambda>_. defer_join keep body (sftpc_Close E)))"
  by (rule counted_scope [of f, where closing = "sftpc_Close E" and d = per])
    (rule sftp_counts sftp_Close_counts, rule sftp_counts sftp_Close_counts, simp, assumption)

lemma apart_nodes [simp]:
  "f (w\<lparr>tick := n\<rparr>) = f w" "f (w\<lparr>handles := h\<rparr>) = f w" "f (w\<lparr>trace := t\<rparr>) = f w"
  "f (w\<lparr>tick := n, handles := h\<rparr>) = f w"
  "f (set_node k x w) = f w" "f (del_node k w) = f w" "f (set_content k u w) = f w"
  by (simp_all add: apart set_node_def del_node_def set_content_def split: option.split node.split)

lemma from_ticked: "effects ticked m \<Longrightarrow> effects (keeps f) m"
  by (erule effects_mono) (metis apart(1) keeps_def ticked_def)

lemma syscall_keeps:
  "(\<And>w. f (snd (body (key_of (wd E) p) w)) = f w) \<Longrightarrow> effects (keeps f) (syscall E name p body)"
  by (rule syscall_rel [OF kp.effect_rel_axioms]) (simp_all add: keeps_def)

text \<open>The calls of the file system.\<close>

lemma files_keep:
  "effects (keeps f) (os_open E p)" "effects (keeps f) (os_open_file E p perm)"
  "effects (keeps f) (os_mkdir E p)" "effects (keeps f) (os_remove E p)"
  "effects (keeps f) (os_chown E p u g)" "effects (keeps f) (os_chmod E p m)"
  unfolding os_open_def os_open_file_def os_mkdir_def os_remove_def os_chown_def os_chmod_def
  by (rule syscall_keeps,
      simp add: snd_with_target in_parent_def bnd_def modify_def ret_def throw_def fail_missing_def
        split: sum.split option.split node.split)+

lemma handles_keep:
  "effects (keeps f) (os_close E k)" "effects (keeps f) (file_update E k upd c)"
  "effects (keeps f) (zip_update E k v)" "effects (keeps f) (log_event e)"
  by (rule effectsI,
      simp add: keeps_def os_close_def file_update_def zip_update_def log_event_def Let_def split: option.split)+

lemmas net_calls = files_keep handles_keep
  effects_service [THEN from_ticked] effects_service_err [THEN from_ticked]
  effects_from_sum [THEN from_ticked] effects_service_sum [THEN from_ticked]
  effects_from_res [THEN from_ticked]
  effects_os_stat [THEN from_ticked] effects_os_lstat [THEN from_ticked]
  effects_os_read_dir [THEN from_ticked] effects_os_readlink [THEN from_ticked]
  effects_file_reader [THEN from_ticked] effects_filepath_glob [THEN from_ticked]
  effects_sftp [THEN from_ticked]

lemmas net_rules =
  kp.keeps_ret kp.keeps_throw kp.keeps_check_err kp.keeps_bnd kp.keeps_map_err kp.keeps_attempt
  kp.keeps_defer_join kp.keeps_defer_errors_join kp.keeps_for_each kp.keeps_if kp.keeps_case_sum
  kp.keeps_case_option kp.keeps_case_prod net_calls

lemma io_copy_keeps:
  "(\<And>c. effects (keeps f) (dst c)) \<Longrightarrow> effects (keeps f) src \<Longrightarrow> effects (keeps f) (io_copy dst src)"
  unfolding io_copy_def by (intro net_rules)

text \<open>The zip file.\<close>

lemma entry_writer_keeps: "effects (keeps f) (entry_writer E k dest c)"
  unfolding entry_writer_def by (intro net_rules)

lemma bnd_FileWriter_keeps:
  assumes "effects (keeps f) (m (entry_writer E (zfile z) dest))"
  shows "effects (keeps f) (bnd (FileWriter E z dest) m)"
proof (rule kp.keeps_bnd_Ok)
  show "effects (keeps f) (FileWriter E z dest)"
    unfolding FileWriter_def zip_create_def by (intro net_rules)
next
  fix wr s t assume "FileWriter E z dest s = (Ok wr, t)"
  then have "wr = entry_writer E (zfile z) dest" by (rule FileWriter_Ok)
  then show "keeps f t (snd (m wr t))" using assms by (simp add: effects_snd)
qed

lemma zip_keeps:
  "effects (keeps f) (New E dest)" "effects (keeps f) (Close E z)"
  "effects (keeps f) rd \<Longrightarrow> effects (keeps f) (WriteFile E z rd dest)"
  unfolding New_def Close_def WriteFile_def
  by ((rule bnd_FileWriter_keeps | rule net_rules io_copy_keeps entry_writer_keeps | assumption)+)

text \<open>Dumping a remote database.\<close>

lemma remote_calls_keep:
  "effects (keeps f) (CombinedOutput E cmd)"
  "(\<And>c. effects (keeps f) (w c)) \<Longrightarrow> effects (keeps f) (stream_ssh E a b d e cmd w)"
  unfolding CombinedOutput_def stream_ssh_def proc_reader_def by ((rule net_rules io_copy_keeps | assumption)+)

lemmas remote_rules = kp.keeps_case_prod net_calls remote_calls_keep kp.keeps_ret kp.keeps_throw
  kp.keeps_check_err kp.keeps_map_err kp.keeps_if

lemma mysql_keeps:
  assumes "\<And>c. effects (keeps f) (w c)"
  shows "effects (keeps f) (MysqlDump.WriteFromRemote E c cfg w)"
    and "effects (keeps f) (MysqlDump.WriteFromSshDocker E c dcfg w)"
proof -
  have bin: "effects (keeps f) (MysqlDump.GetRemoteBinPath E c)"
    unfolding MysqlDump.GetRemoteBinPath_def Let_def
    by ((rule in_session | rule kp.keeps_bnd remote_rules)+)
  have run: "effects (keeps f) (MysqlDump.remote_Run E c h w)" for h
    unfolding MysqlDump.remote_Run_def by (intro in_session remote_rules assms)
  show "effects (keeps f) (MysqlDump.WriteFromRemote E c cfg w)"
    unfolding MysqlDump.WriteFromRemote_def Let_def by (intro kp.keeps_bnd remote_rules bin run)
  have bin: "effects (keeps f) (MysqlDump.GetSshDockerBinPath E c n)" for n
    unfolding MysqlDump.GetSshDockerBinPath_def Let_def
    by ((rule in_session_ignored | rule kp.keeps_bnd remote_rules)+)
  have run: "effects (keeps f) (MysqlDump.sshdocker_Run E c h w)" for h
    unfolding MysqlDump.sshdocker_Run_def by ((rule in_session | rule kp.keeps_bnd remote_rules assms)+)
  show "effects (keeps f) (MysqlDump.WriteFromSshDocker E c dcfg w)"
    unfolding MysqlDump.WriteFromSshDocker_def Let_def by (intro kp.keeps_bnd remote_rules bin run)
qed

lemma pg_keeps:
  assumes "\<And>c. effects (keeps f) (w c)"
  shows "effects (keeps f) (PgDump.WriteFromRemote E c cfg w)"
    and "effects (keeps f) (PgDump.WriteFromSshDocker E c dcfg w)"
proof -
  have bin: "effects (keeps f) (PgDump.GetRemoteBinPath E c)"
    unfolding PgDump.GetRemoteBinPath_def Let_def
    by ((rule in_session | rule kp.keeps_bnd remote_rules)+)
  have run: "effects (keeps f) (PgDump.remote_Run E c h w)" for h
    unfolding PgDump.remote_Run_def by (intro in_session remote_rules assms)
  show "effects (keeps f) (PgDump.WriteFromRemote E c cfg w)"
    unfolding PgDump.WriteFromRemote_def Let_def by (intro kp.keeps_bnd remote_rules bin run)
  have bin: "effects (keeps f) (PgDump.GetSshDockerBinPath E c n)" for n
    unfolding PgDump.GetSshDockerBinPath_def Let_def
    by ((rule in_session_ignored | rule kp.keeps_bnd remote_rules)+)
  have run: "effects (keeps f) (PgDump.sshdocker_Run E c h w)" for h
    unfolding PgDump.sshdocker_Run_def by ((rule in_session | rule kp.keeps_bnd remote_rules assms)+)
  show "effects (keeps f) (PgDump.WriteFromSshDocker E c dcfg w)"
    unfolding PgDump.WriteFromSshDocker_def Let_def by (intro kp.keeps_bnd remote_rules bin run)
qed

lemma backupRemoteDatabase_keeps: "effects (keeps f) (backupRemoteDatabase E c db z)"
  unfolding backupRemoteDatabase_def
  by (intro kp.keeps_if kp.keeps_throw bnd_FileWriter_keeps mysql_keeps pg_keeps entry_writer_keeps)

text \<open>Copying over sftp, and what is done around it.\<close>

lemma copyRemoteFiles_keeps: "effects (keeps f) (copyRemoteFiles E c dir z)"
proof -
  have abs: "effects (keeps f) (remote_abs E p)" for p
    unfolding remote_abs_def by (intro net_rules)
  have step: "effects (keeps f) (copy_remote_step E dir z root p i)" for root p i
    unfolding copy_remote_step_def Let_def by (intro net_rules abs zip_keeps)
  show ?thesis
    unfolding copyRemoteFiles_def by (rule in_sftp) (intro net_rules abs step)
qed

lemma sync_dir_keeps: "effects (keeps f) (sync_dir E p dir)"
proof -
  have download: "effects (keeps f) (sftpDownload E r l)" for r l
    unfolding sftpDownload_def file_writer_def by (intro net_rules io_copy_keeps)
  have "effects (keeps f) (syncRemoteBackups E a b e)" for a b e
    unfolding syncRemoteBackups_def Let_def by (intro net_rules download)
  moreover have "effects (keeps f) (ExpurgeDir E a n b)" for a n b
    unfolding ExpurgeDir_def remove_old_def Let_def by (intro net_rules)
  ultimately show ?thesis unfolding sync_dir_def Let_def by (intro net_rules)
qed

lemma finish_keeps:
  "effects (keeps f) (finish_backup E p z)" "effects (keeps f) (prepareDestination E a)"
  "effects (keeps f) (delZipAndErr E z e)"
proof -
  have "effects (keeps f) (ExpurgeDir E a n b)" for a n b
    unfolding ExpurgeDir_def remove_old_def Let_def by (intro net_rules)
  then show "effects (keeps f) (finish_backup E p z)"
    unfolding finish_backup_def Let_def chown_def chmod_def by (intro net_rules)
  show "effects (keeps f) (prepareDestination E a)" "effects (keeps f) (delZipAndErr E z e)"
    unfolding prepareDestination_def delZipAndErr_def by (intro net_rules)+
qed

end

text \<open>Sessions count one each, and no call inside a connection counts connections.\<close>

interpretation ns: net_counter sessions 1
proof
  show "sessions (snd (Session E c w)) = sessions w + (case fst (Session E c w) of Ok x \<Rightarrow> 1 | _ \<Rightarrow> 0)"
    for E c w by (rule Session_count)
qed (auto simp: sftp_NewClient_def sftpc_Close_def session_Close_def gopanic_def bnd_def service_err_def service_def
    check_err_def ret_def throw_def add_sessions_def modify_def split: option.splits)

interpretation nc: net_counter conns 0
proof
  show "conns (snd (Session E c w)) = conns w + (case fst (Session E c w) of Ok x \<Rightarrow> 0 | _ \<Rightarrow> 0)" for E c w
    using effects_snd [OF keeps_conns_session(1), of w E c] by (simp add: keeps_def split: res.split)
qed (auto simp: sftp_NewClient_def sftpc_Close_def session_Close_def gopanic_def bnd_def service_err_def service_def
    check_err_def ret_def throw_def add_sessions_def modify_def split: option.splits res.splits)


section \<open>A connection around a body\<close>

definition with_ssh ::
  "env \<Rightarrow> Profile \<Rightarrow> (Client \<Rightarrow> (world, unit) go) \<Rightarrow> (world, unit) go" where
  "with_ssh E prfl body =
     bnd (map_err (errorf_v ''error creating ssh client: '') (NewClient E (ssh_cfg prfl))) (\<lambda>sshC.
     bnd (map_err (errorf_v ''error connecting ssh: '') (Connect E sshC)) (\<lambda>sshC.
     defer_ignore (body sshC) (Disconnect E sshC)))"

lemma conns_of_calls:
  "conns (snd (map_err g (service_err a) v)) = conns v" "conns (snd (map_err g (service_sum b) v)) = conns v"
  using effects_snd [OF keeps_conns_calls(4), of v a] effects_snd [OF keeps_conns_calls(6), of v b]
  by (simp_all add: keeps_def)

lemma sshAgentSigners_conns:
  assumes "sshAgentSigners E w = (r, v)" shows "conns v \<in> {conns w, conns w + 1}"
proof (cases "getenv E ''SSH_AUTH_SOCK'' = []")
  case True
  then show ?thesis using assms by (simp add: sshAgentSigners_def throw_def)
next
  case False
  let ?dial = "map_err (errorf_v ''unable to connect to ssh agent: '')
    (service_err (\<lambda>t. agent_dial E t (getenv E ''SSH_AUTH_SOCK'')))"
  obtain x u where x: "?dial w = (x, u)" by (cases "?dial w")
  have u: "conns u = conns w" using conns_of_calls(1) [of _ _ w] x by (metis snd_conv)
  show ?thesis
  proof (cases x)
    case (Ok y)
    then have dial: "bnd ?dial f w = f () u" for f :: "unit \<Rightarrow> (world, string list) go"
      using x by (intro bnd_OkI) simp
    have "bnd (add_conns 1) f u = f () (u\<lparr>conns := conns u + 1\<rparr>)" for f :: "unit \<Rightarrow> (world, string list) go"
      by (simp add: bnd_def add_conns_def modify_def)
    then have "sshAgentSigners E w = map_err (errorf_v ''error getting ssh signers from agent: '')
        (service_sum (agent_signers E)) (u\<lparr>conns := conns u + 1\<rparr>)"
      using False dial by (simp add: sshAgentSigners_def Let_def)
    then have "conns v = conns (u\<lparr>conns := conns u + 1\<rparr>)" using assms conns_of_calls(2) by (metis snd_conv)
    then show ?thesis using u by simp
  qed (use assms False x u in \<open>simp_all add: sshAgentSigners_def bnd_def\<close>)
qed

text \<open>Making a client opens at most the connection to the agent.\<close>

lemma auth_methods_at_most:
  assumes "auth_methods E cfg w = (r, v)"
  shows "conns v \<in> {conns w, conns w + 1}" and "cfg_Auth cfg \<noteq> SshAgent \<Longrightarrow> conns v = conns w"
proof -
  have "effects (keeps conns) (auth_methods E cfg)" if "cfg_Auth cfg \<noteq> SshAgent"
    unfolding auth_methods_def readKey_def Let_def using that
    by (simp only: if_False) (intro nc.net_rules effects_os_read_file [THEN nc.from_ticked])
  then have "keeps conns w v" if "cfg_Auth cfg \<noteq> SshAgent" using that assms effectsD by metis
  then show other: "cfg_Auth cfg \<noteq> SshAgent \<Longrightarrow> conns v = conns w" by (simp add: keeps_def)
  show "conns v \<in> {conns w, conns w + 1}"
  proof (cases "cfg_Auth cfg = SshAgent")
    case True
    then have "conns v = conns (snd (sshAgentSigners E w))"
      using assms by (auto simp: auth_methods_def bnd_def map_err_def handle_def ret_def throw_def
          Password_def PrivateKey_def SshAgent_def split: prod.splits res.splits)
    then show ?thesis using sshAgentSigners_conns [of E w] by (cases "sshAgentSigners E w") simp
  qed (use other in simp)
qed

lemma NewClient_at_most:
  assumes "NewClient E cfg w = (r, v)"
  shows "conns v \<in> {conns w, conns w + 1} \<and> (cfg_Auth cfg \<noteq> SshAgent \<longrightarrow> conns v = conns w)"
proof (cases "cfg_User cfg = []")
  case False
  obtain a u where a: "auth_methods E cfg w = (a, u)" by (cases "auth_methods E cfg w")
  have "conns v = conns u"
    using assms False a
    by (auto simp: NewClient_def bnd_def ret_def split: prod.splits res.splits dest: host_key_callback_conns)
  then show ?thesis using auth_methods_at_most [OF a] by simp
qed (use assms in \<open>simp add: NewClient_def throw_def\<close>)

lemma Connect_not_Panic: "fst (Connect E c w) \<noteq> Panic"
  by (simp add: Connect_def bnd_def log_event_def modify_def map_err_def handle_def service_err_def service_def
      check_err_def add_conns_def ret_def throw_def split: option.split)

lemma Disconnect_conns: "conn c \<Longrightarrow> conns (snd (Disconnect E c w)) = conns w - held c"
  by (simp add: Disconnect_def held_def bnd_def log_event_def modify_def add_conns_def service_def ret_def Let_def)

text \<open>What is left of the connections once a body has run in one.\<close>

lemma with_ssh_conns:
  assumes "\<And>c. effects (keeps conns) (body c)"
  shows "conns (snd (with_ssh E p body w)) - conns w \<in> {0, 1}"
    and "GetAuthType (ssh_Type (prf_Ssh p)) \<noteq> SshAgent \<or> fst (with_ssh E p body w) = Ok () \<Longrightarrow>
      conns (snd (with_ssh E p body w)) = conns w"
proof -
  obtain r v where n: "NewClient E (ssh_cfg p) w = (r, v)" by (cases "NewClient E (ssh_cfg p) w")
  note v = NewClient_at_most [OF n]
  have auth: "cfg_Auth (ssh_cfg p) = GetAuthType (ssh_Type (prf_Ssh p))" by (simp add: ssh_cfg_def)
  have "conns (snd (with_ssh E p body w)) \<in> {conns w, conns v} \<and>
      (fst (with_ssh E p body w) = Ok () \<longrightarrow> conns (snd (with_ssh E p body w)) = conns w)"
  proof (cases r)
    case (Ok c)
    then have c: "conns v = conns w + held c" "\<not> conn c" using NewClient_conns n by blast+
    obtain q u where q: "Connect E c v = (q, u)" by (cases "Connect E c v")
    show ?thesis
    proof (cases q)
      case (Ok c')
      then have c': "c' = c\<lparr>conn := True\<rparr>" "conns u = conns v + 1" using Connect_Ok q by blast+
      let ?close = "defer_ignore (body c') (Disconnect E c') u"
      have "with_ssh E p body w = ?close"
        using n \<open>r = Ok c\<close> q Ok by (simp add: with_ssh_def bnd_def map_err_def handle_def)
      moreover have "conns (snd ?close) = conns u - held c'"
        using effects_snd [OF assms, of u c'] c'(1) by (simp add: Disconnect_conns keeps_def)
      moreover have "held c' = held c + 1" using c'(1) c(2) by (simp add: held_def agent_open_def)
      ultimately show ?thesis using c c'(2) by simp
    next
      case (Fail e)
      then have "conns u = conns v" using Connect_Fail q by blast
      then show ?thesis
        using n \<open>r = Ok c\<close> q Fail by (simp add: with_ssh_def bnd_def map_err_def handle_def throw_def)
    next
      case Panic
      then show ?thesis using Connect_not_Panic [of E c v] q by simp
    qed
  qed (use n in \<open>simp_all add: with_ssh_def bnd_def map_err_def handle_def throw_def\<close>)
  then show "conns (snd (with_ssh E p body w)) - conns w \<in> {0, 1}"
    and "GetAuthType (ssh_Type (prf_Ssh p)) \<noteq> SshAgent \<or> fst (with_ssh E p body w) = Ok () \<Longrightarrow>
      conns (snd (with_ssh E p body w)) = conns w"
    using v auth by auto
qed

text \<open>A failing \<open>Connect\<close> leaves the connection to the agent open.\<close>

lemma failed_Connect_leaks:
  assumes "NewClient E (ssh_cfg p) w = (Ok c, v)" and "agent_open c" and "fst (Connect E c v) = Fail e"
  shows "conns (snd (with_ssh E p body w)) = conns w + 1"
proof -
  obtain u where u: "Connect E c v = (Fail e, u)" using assms(3) by (cases "Connect E c v") simp
  have "held c = 1" using NewClient_conns [OF assms(1)] assms(2) by (simp add: held_def)
  moreover have "conns u = conns v" using Connect_Fail [OF u] .
  moreover have "snd (with_ssh E p body w) = u"
    using assms(1) u by (simp add: with_ssh_def bnd_def map_err_def handle_def throw_def)
  ultimately show ?thesis using NewClient_conns [OF assms(1)] by simp
qed


section \<open>Runs\<close>

definition sync_body :: "env \<Rightarrow> Profile \<Rightarrow> Client \<Rightarrow> (world, unit) go" where
  "sync_body E p sshC =
     bnd (map_err (errorf_v ''unable to create sftp client '') (sftp_NewClient E sshC)) (\<lambda>_.
     defer_join (\<lambda>_. True) (for_each (prf_Dirs p) (sync_dir E p)) (sftpc_Close E))"

definition remote_body :: "env \<Rightarrow> Profile \<Rightarrow> string \<Rightarrow> Client \<Rightarrow> (world, unit) go" where
  "remote_body E p dest sshC =
     bnd (New E dest) (\<lambda>zipHandler.
     bnd (for_each (prf_Dirs p) (\<lambda>bkpDir. copyRemoteFiles E sshC bkpDir zipHandler)) (\<lambda>_.
     bnd (if 0 < length (prf_Dbs p) then
            for_each (prf_Dbs p) (\<lambda>db. backupRemoteDatabase E sshC db zipHandler)
          else ret ()) (\<lambda>_.
     bnd (Close E zipHandler) (\<lambda>_. ret ()))))"

lemma runs_with_ssh:
  "runSyncProfile E p =
     bnd (prepareDestination E (dest_Path (prf_Destination p))) (\<lambda>_. with_ssh E p (sync_body E p))"
  "backupRemote E p dest = with_ssh E p (remote_body E p dest)"
  by (simp_all add: runSyncProfile_def backupRemote_def with_ssh_def sync_body_def remote_body_def fun_eq_iff)

context net_counter
begin

lemma bodies_keep: "effects (keeps f) (sync_body E p c)" "effects (keeps f) (remote_body E p dest c)"
  unfolding sync_body_def remote_body_def
  by (rule in_sftp_join, rule kp.keeps_for_each, rule sync_dir_keeps)
    (intro net_rules zip_keeps copyRemoteFiles_keeps backupRemoteDatabase_keeps)

text \<open>Around a remote backup nothing is opened either.\<close>

lemma runRemoteProfile_counts:
  "\<exists>v. f v = f w \<and> (runRemoteProfile E p w = (fst (prepareDestination E (dest_Path (prf_Destination p)) w), v) \<or>
     f (snd (runRemoteProfile E p w)) =
       f (snd (backupRemote E p (path_join [dest_Path (prf_Destination p)]) v)))"
proof -
  let ?dest = "dest_Path (prf_Destination p)" and ?z = "path_join [dest_Path (prf_Destination p)]"
  obtain r v where r: "prepareDestination E ?dest w = (r, v)" by (cases "prepareDestination E ?dest w")
  have v: "f v = f w" using effectsD [OF finish_keeps(2) r] by (simp add: keeps_def)
  obtain q u where q: "backupRemote E p ?z v = (q, u)" by (cases "backupRemote E p ?z v")
  have "f (snd (bnd (handle (backupRemote E p ?z) (delZipAndErr E ?z)) (\<lambda>_. finish_backup E p ?z) v)) = f u"
    using q effects_snd [OF finish_keeps(3), of u E ?z] effects_snd [OF finish_keeps(1), of _ E p ?z]
    by (cases q) (auto simp: bnd_def handle_def keeps_def split: prod.split res.split, (metis snd_conv)+)
  then show ?thesis
    using r v q by (cases r) (auto simp: runRemoteProfile_def Let_def bnd_def [of "prepareDestination _ _"])
qed

end

lemma sessions_of_ssh:
  assumes "\<And>c. effects (keeps sessions) (body c)" shows "effects (keeps sessions) (with_ssh E p body)"
proof -
  have count: "effects (keeps sessions) (add_conns d)" for d
    by (rule effectsI) (simp add: keeps_def add_conns_def modify_def)
  have "effects (keeps sessions) (NewClient E cfg)" "effects (keeps sessions) (Connect E c)"
    "effects (keeps sessions) (Disconnect E c)" for cfg c
    unfolding NewClient_def auth_methods_def sshAgentSigners_def readKey_def host_key_callback_def Connect_def
      Disconnect_def Let_def
    by (intro ns.net_rules kp.keeps_gopanic count effects_os_read_file [THEN ns.from_ticked])+
  then show ?thesis
    unfolding with_ssh_def by (intro kp.keeps_bnd kp.keeps_map_err kp.keeps_defer_ignore assms)
qed



end
