(* ===== verification/RemoteWalk.thy ===== *)
theory RemoteWalk
  imports Scp RefEnv
begin

text \<open>
  \<open>lib/ssh/scp.go\<close>: walking a directory of a remote machine. A walk calls the user's function
  on the root, and, for a directory, lists it over ssh and walks its entries in the order of
  the listing. The remote machine may be nested without end, so a walk has fuel for the depth
  it goes down, and no result without enough of it.
\<close>

type_synonym WalkFunc = "string \<Rightarrow> FileStat option \<Rightarrow> goerr option \<Rightarrow> (world, unit) go"

type_synonym walk_result = "(unit res \<times> world) option"

text \<open>The loop over a listing: an error that skips ends it without an error.\<close>

fun walk_entries :: "(string \<Rightarrow> FileStat \<Rightarrow> world \<Rightarrow> walk_result) \<Rightarrow> string \<Rightarrow> FileStat list \<Rightarrow> world \<Rightarrow> walk_result" where
  "walk_entries walk path [] w = Some (Ok (), w)"
| "walk_entries walk path (d1 # dirs) w =
     (case walk (path_join [path, fname d1]) d1 w of
        None \<Rightarrow> None
      | Some (Ok _, u) \<Rightarrow> walk_entries walk path dirs u
      | Some (Fail e, u) \<Rightarrow> Some (if errors_is e ErrSkipDir then Ok () else Fail e, u)
      | Some (Panic, u) \<Rightarrow> Some (Panic, u))"

fun walkDir :: "nat \<Rightarrow> env \<Rightarrow> Client \<Rightarrow> WalkFunc \<Rightarrow> string \<Rightarrow> FileStat \<Rightarrow> world \<Rightarrow> walk_result" where
  "walkDir 0 E c userFn path d w = None"
| "walkDir (Suc n) E c userFn path d w =
     (case userFn path (Some d) None w of
        (Panic, u) \<Rightarrow> Some (Panic, u)
      | (Fail e, u) \<Rightarrow> Some (if errors_is e ErrSkipDir \<and> isDir d then Ok () else Fail e, u)
      | (Ok _, u) \<Rightarrow>
          if \<not> isDir d then Some (Ok (), u)
          else (case readDir E c path u of
              (Panic, v) \<Rightarrow> Some (Panic, v)
            | (Fail e, v) \<Rightarrow> Some (Fail e, v)
            | (Ok (dirs, None), v) \<Rightarrow> walk_entries (walkDir n E c userFn) path dirs v
            | (Ok (dirs, Some err), v) \<Rightarrow>
                (case userFn path (Some d) (Some err) v of
                   (Ok _, x) \<Rightarrow> walk_entries (walkDir n E c userFn) path dirs x
                 | (Fail e, x) \<Rightarrow> Some (Fail e, x)
                 | (Panic, x) \<Rightarrow> Some (Panic, x))))"

definition WalkDir :: "nat \<Rightarrow> env \<Rightarrow> Client \<Rightarrow> string \<Rightarrow> WalkFunc \<Rightarrow> world \<Rightarrow> walk_result" where
  "WalkDir n E c root userFn w =
     (case (case Stat E c root w of
              (Ok info, u) \<Rightarrow> walkDir n E c userFn root info u
            | (Fail err, u) \<Rightarrow> Some (userFn root None (Some err) u)
            | (Panic, u) \<Rightarrow> Some (Panic, u)) of
        Some (Fail e, u) \<Rightarrow> Some (if errors_is e ErrSkipDir then Ok () else Fail e, u)
      | r \<Rightarrow> r)"


section \<open>Fuel\<close>

lemma walk_entries_mono:
  assumes "\<And>q d v s. walk q d v = Some s \<Longrightarrow> walk' q d v = Some s"
    and "walk_entries walk path dirs w = Some r"
  shows "walk_entries walk' path dirs w = Some r"
  using assms(2)
  by (induction dirs arbitrary: w) (auto dest: assms(1) split: option.splits prod.splits res.splits)

text \<open>A walk that has a result has the same with more fuel.\<close>

lemma walkDir_mono: "walkDir n E c fn path d w = Some r \<Longrightarrow> walkDir (n + m) E c fn path d w = Some r"
proof (induction n arbitrary: path d w r)
  case (Suc n)
  have "walk_entries (walkDir n E c fn) p ds v = Some s \<Longrightarrow>
      walk_entries (walkDir (n + m) E c fn) p ds v = Some s" for p ds v s
    by (rule walk_entries_mono [OF Suc.IH])
  then show ?case using Suc.prems by (cases r) (auto split: option.splits prod.splits res.splits if_splits)
qed simp


section \<open>Remote trees\<close>

text \<open>
  What a remote machine shows below a path. The flag tells for a regular file whether it is
  empty, which \<open>stat\<close> prints. Anything that is not a directory has no entries that count.
\<close>

datatype rtree = RNode (info: FileStat) (is_empty: bool) (entries: "rtree list")

fun height :: "rtree \<Rightarrow> nat" where
  "height (RNode d emp ts) = Suc (foldr max (map height ts) 0)"

definition listing :: "string \<Rightarrow> rtree list \<Rightarrow> string" where
  "listing path ts = concat (map (\<lambda>t. stat_line path (info t) (is_empty t) @ newline) ts)"

definition entry_ok :: "rtree \<Rightarrow> bool" where
  "entry_ok t \<longleftrightarrow> plain_name (fname (info t)) \<and> CHR 0x0A \<notin> set (fname (info t))"

text \<open>
  The machine answers the listing of every directory of the tree with what it holds, and none
  of its names breaks a line or looks like a marker of the script.
\<close>

fun serves :: "env \<Rightarrow> string \<Rightarrow> rtree \<Rightarrow> bool" where
  "serves E path (RNode d emp ts) \<longleftrightarrow>
     (isDir d \<longrightarrow>
        (\<forall>k. ssh_output E k (list_script path) = Inr (listing path ts)) \<and>
        \<not> contains (listing path ts) ''__STAT_NO_EXISTS__'' \<and>
        \<not> contains (listing path ts) ''__STAT_NO_DIR__'' \<and>
        CHR 0x0A \<notin> set path \<and> list_all entry_ok ts \<and>
        (\<forall>t \<in> set ts. serves E (path_join [path, fname (info t)]) t))"

text \<open>Sessions can be made, and closing one gives no error but the end of the file.\<close>

definition sessions_work :: "env \<Rightarrow> Client \<Rightarrow> bool" where
  "sessions_work E c \<longleftrightarrow> conn c \<and> (\<forall>t. ssh_session E t = None) \<and>
     (\<forall>t e. ssh_session_close E t = Some e \<longrightarrow> errors_is e ErrEOF)"

lemma Session_works: "sessions_work E c \<Longrightarrow> \<exists>v. Session E c w = (Ok (), v)"
  by (simp add: sessions_work_def Session_def map_err_def handle_def bnd_def service_err_def service_def
      check_err_def ret_def add_sessions_def modify_def)

lemma session_Close_works:
  "sessions_work E c \<Longrightarrow> \<exists>r v. session_Close E w = (r, v) \<and> (\<forall>e. r = Fail e \<longrightarrow> errors_is e ErrEOF) \<and> r \<noteq> Panic"
  by (cases "ssh_session_close E (tick w)")
    (auto simp: sessions_work_def session_Close_def bnd_def service_err_def service_def
      check_err_def ret_def throw_def add_sessions_def modify_def)

lemma split_on_lines:
  "(\<And>l. l \<in> set ls \<Longrightarrow> c \<notin> set l) \<Longrightarrow> split_on c (concat (map (\<lambda>l. l @ [c]) ls)) = ls @ [[]]"
  by (induction ls) (simp_all add: split_on_append_sep split_on_no_sep)

lemma parse_lines_map:
  "(\<And>x. x \<in> set xs \<Longrightarrow> f x \<noteq> [] \<and> parseStatLine (f x) = Ok (g x)) \<Longrightarrow>
   parse_lines (map f xs @ [[]]) = Ok (map g xs)"
  by (induction xs) simp_all

lemma stat_line_simps: "stat_line d f b \<noteq> []" "CHR 0x0A \<notin> set d \<Longrightarrow> CHR 0x0A \<notin> set (fname f) \<Longrightarrow>
  CHR 0x0A \<notin> set (stat_line d f b)"
  by auto

text \<open>The entries of a directory are read back from its listing.\<close>

lemma parse_listing:
  assumes "CHR 0x0A \<notin> set path" and "list_all entry_ok ts"
  shows "parse_lines (split_on (CHR 0x0A) (listing path ts)) = Ok (map info ts)"
proof -
  let ?line = "\<lambda>t. stat_line path (info t) (is_empty t)"
  have ok: "plain_name (fname (info t))" "CHR 0x0A \<notin> set (fname (info t))" if "t \<in> set ts" for t
    using assms(2) that by (auto simp: list_all_iff entry_ok_def)
  have "parseStatLine (?line t) = Ok (info t)" if "t \<in> set ts" for t
  proof (rule parseStatLine_stat_line_ok)
    have "last (fname (info t)) \<in> set (fname (info t))" using ok(1) [OF that] by (simp add: plain_name_def)
    then show "last (fname (info t)) \<noteq> CHR 0x0A" using ok(2) [OF that] by metis
  qed (rule ok [OF that])
  then have lines: "parse_lines (map ?line ts @ [[]]) = Ok (map info ts)"
    by (intro parse_lines_map) (simp add: stat_line_simps(1) del: stat_line.simps)
  have "CHR 0x0A \<notin> set l" if "l \<in> set (map ?line ts)" for l
    using that ok stat_line_simps(2) [OF assms(1)] by (auto simp del: stat_line.simps)
  then have "split_on (CHR 0x0A) (listing path ts) = map ?line ts @ [[]]"
    using split_on_lines [of "map ?line ts" "CHR 0x0A"] by (simp add: listing_def comp_def del: stat_line.simps)
  then show ?thesis by (simp only: lines)
qed

lemma readDir_serves:
  assumes "sessions_work E c" and "serves E path (RNode d emp ts)" and "isDir d"
  shows "\<exists>v. readDir E c path w = (Ok (map info ts, None), v)"
proof -
  obtain v where v: "Session E c w = (Ok (), v)" using Session_works [OF assms(1)] by blast
  let ?body = "let cmd = list_script path in
        bnd (log_event (EvSsh cmd)) (\<lambda>_.
        bnd (map_err (errorf_w ''command failed: '') (service_sum (\<lambda>t. ssh_output E t cmd))) (\<lambda>output.
        if contains output ''__STAT_NO_EXISTS__'' then throw (ErrWrap [] (ErrSentinel ErrNotExist) ('': '' @ path))
        else if contains output ''__STAT_NO_DIR__'' then throw (ErrWrap [] (ErrSentinel ErrNotADir) ('': '' @ path))
        else of_res (parse_lines (split_on (CHR 0x0A) output))))"
  have "parse_lines (split_on (CHR 0x0A) (listing path ts)) = Ok (map info ts)"
    using assms(2,3) by (intro parse_listing) simp_all
  then obtain u where u: "?body v = (Ok (map info ts), u)"
    using assms(2,3) by (auto simp: bnd_def log_event_def modify_def map_err_def handle_def service_sum_def
        service_def from_sum_def ret_def of_res_def Let_def)
  obtain r x where x: "session_Close E u = (r, x)" "\<forall>e. r = Fail e \<longrightarrow> errors_is e ErrEOF"
    using session_Close_works [OF assms(1)] by blast
  have "session_results E [] ?body v = (Ok (map info ts, None), x)"
    using u x by (auto simp: session_results_def Let_def split: res.splits)
  then show ?thesis using v unfolding readDir_def by (simp add: bnd_def attempt_def)
qed


section \<open>The order of a walk\<close>

datatype walk_action = Visit string FileStat | ListDir string

fun actions :: "string \<Rightarrow> rtree \<Rightarrow> walk_action list" where
  "actions path (RNode d emp ts) =
     Visit path d #
     (if isDir d then ListDir path # concat (map (\<lambda>t. actions (path_join [path, fname (info t)]) t) ts) else [])"

fun perform :: "env \<Rightarrow> Client \<Rightarrow> WalkFunc \<Rightarrow> walk_action \<Rightarrow> (world, unit) go" where
  "perform E c userFn (Visit path d) = userFn path (Some d) None"
| "perform E c userFn (ListDir path) = bnd (readDir E c path) (\<lambda>_. ret ())"

text \<open>The user's function never asks to skip.\<close>

definition never_skips :: "WalkFunc \<Rightarrow> bool" where
  "never_skips f \<longleftrightarrow> (\<forall>path d err w e. fst (f path d err w) = Fail e \<longrightarrow> \<not> errors_is e ErrSkipDir)"

lemma readDir_not_Fail: "fst (readDir E c path w) \<noteq> Fail e"
proof -
  have "fst (session_results E z0 body v) \<noteq> Fail e" for z0 :: "FileStat list" and body v
    by (simp add: session_results_def Let_def split: prod.split res.split)
  then show ?thesis
    by (cases "Session E c w"; cases "fst (Session E c w)") (simp_all add: readDir_def bnd_def attempt_def ret_def)
qed

lemma perform_never_skips:
  assumes "never_skips f" and "perform E c f a w = (Fail e, u)" shows "\<not> errors_is e ErrSkipDir"
proof (cases a)
  case (Visit path d)
  then show ?thesis using assms by (simp add: never_skips_def) (metis fst_conv)
next
  case (ListDir path)
  then show ?thesis
    using assms(2) readDir_not_Fail [of E c path w] by (auto simp: bnd_def ret_def split: prod.splits res.splits)
qed

lemma for_each_never_skips:
  "never_skips f \<Longrightarrow> for_each as (perform E c f) w = (Fail e, u) \<Longrightarrow> \<not> errors_is e ErrSkipDir"
proof (induction "as" arbitrary: w)
  case (Cons a as)
  then show ?case
    by (cases "perform E c f a w"; cases "fst (perform E c f a w)") (auto simp: bnd_def dest: perform_never_skips)
qed simp

lemma walk_entries_actions:
  assumes "never_skips f"
    and "\<And>t v. t \<in> set ts \<Longrightarrow> walk (path_join [path, fname (info t)]) (info t) v =
      Some (for_each (actions (path_join [path, fname (info t)]) t) (perform E c f) v)"
  shows "walk_entries walk path (map info ts) w =
    Some (for_each (concat (map (\<lambda>t. actions (path_join [path, fname (info t)]) t) ts)) (perform E c f) w)"
  using assms(2)
proof (induction ts arbitrary: w)
  case (Cons t ts)
  let ?q = "path_join [path, fname (info t)]"
  obtain r u where r: "for_each (actions ?q t) (perform E c f) w = (r, u)" by fastforce
  have walk: "walk ?q (info t) w = Some (r, u)" using Cons.prems [of t w] r by simp
  have rest: "walk_entries walk path (map info ts) u =
      Some (for_each (concat (map (\<lambda>t. actions (path_join [path, fname (info t)]) t) ts)) (perform E c f) u)"
    using Cons.prems by (intro Cons.IH) simp
  show ?case
  proof (cases r)
    case (Fail e)
    then show ?thesis
      using walk r for_each_never_skips [OF assms(1), of _ E c w e u] by (simp add: for_each_append bnd_FailI)
  qed (use walk rest r in \<open>simp_all add: for_each_append bnd_def\<close>)
qed (simp add: ret_def)

lemma height_entries: "t \<in> set ts \<Longrightarrow> height t \<le> foldr max (map height ts) 0"
  by (induction ts) auto

lemma walkDir_actions:
  assumes "sessions_work E c" and "never_skips f"
  shows "serves E path t \<Longrightarrow> height t \<le> n \<Longrightarrow>
    walkDir n E c f path (info t) w = Some (for_each (actions path t) (perform E c f) w)"
proof (induction t arbitrary: path n w)
  case (RNode d emp ts)
  obtain m where m: "n = Suc m" "foldr max (map height ts) 0 \<le> m"
    using RNode.prems(2) by (cases n) auto
  obtain r u where r: "f path (Some d) None w = (r, u)" by fastforce
  have skip: "\<not> errors_is e ErrSkipDir" if "r = Fail e" for e
    using assms(2) r that unfolding never_skips_def by (metis fst_conv)
  show ?case
  proof (cases "r = Ok () \<and> isDir d")
    case True
    then obtain v where v: "readDir E c path u = (Ok (map info ts, None), v)"
      using readDir_serves [OF assms(1) RNode.prems(1)] by blast
    have "walk_entries (walkDir m E c f) path (map info ts) v =
        Some (for_each (concat (map (\<lambda>t. actions (path_join [path, fname (info t)]) t) ts)) (perform E c f) v)"
      using RNode.prems(1) True m(2)
      by (intro walk_entries_actions assms(2) RNode.IH) (auto dest: height_entries)
    then show ?thesis using True r v m(1) by (simp add: bnd_def ret_def)
  next
    case False
    then show ?thesis using r skip m(1) by (cases r) (auto simp: bnd_def ret_def)
  qed
qed


text \<open>A remote directory with a file and a directory that holds an empty file.\<close>

definition walk_tree :: rtree where
  "walk_tree = RNode \<lparr>isDir = True, fname = ''r''\<rparr> False
     [RNode \<lparr>isDir = False, fname = ''b''\<rparr> False [],
      RNode \<lparr>isDir = True, fname = ''s''\<rparr> False [RNode \<lparr>isDir = False, fname = ''e''\<rparr> True []]]"

definition walk_env :: env where
  "walk_env = ref_env\<lparr>
     ssh_combined := (\<lambda>k cmd. (stat_line [] (info walk_tree) False @ newline @ newline, None)),
     ssh_output := (\<lambda>k cmd.
       if cmd = list_script ''/r'' then Inr (listing ''/r'' (entries walk_tree))
       else if cmd = list_script ''/r/s'' then Inr (listing ''/r/s'' (entries (entries walk_tree ! 1)))
       else Inr [])\<rparr>"

lemma walk_env_simps [simp]:
  "ssh_session walk_env = (\<lambda>t. None)" "ssh_session_close walk_env = (\<lambda>t. None)"
  "ssh_combined walk_env = (\<lambda>k cmd. (''directory_/r'' @ newline @ newline, None))"
  "ssh_output walk_env = (\<lambda>k cmd.
     if cmd = list_script ''/r'' then Inr (''regular file_/r/b'' @ newline @ ''directory_/r/s'' @ newline)
     else if cmd = list_script ''/r/s'' then Inr (''regular empty file_/r/s/e'' @ newline) else Inr [])"
  by (simp_all add: walk_env_def ref_env_def walk_tree_def listing_def cong: if_cong)

lemma walk_env_paths:
  "path_join [''/r'', ''b''] = ''/r/b''" "path_join [''/r'', ''s''] = ''/r/s''"
  "path_join [''/r/s'', ''e''] = ''/r/s/e''" "list_script ''/r/s'' \<noteq> list_script ''/r''"
  by code_simp+



section \<open>Skipping\<close>

text \<open>
  A function that answers the error of a listing by asking to skip the directory skips all
  that is left of the directory above as well.
\<close>

lemma skip_after_failed_listing:
  assumes "f (path_join [path, fname d]) (Some d) None w = (Ok (), u)" and "isDir d"
    and "readDir E c (path_join [path, fname d]) u = (Ok (ds, Some err), v)"
    and "f (path_join [path, fname d]) (Some d) (Some err) v = (Fail (ErrSentinel ErrSkipDir), x)"
  shows "walk_entries (walkDir (Suc n) E c f) path (d # rest) w = Some (Ok (), x)"
  using assms by simp

end
