(* ===== verification/Cli.thy ===== *)
theory Cli
  imports Cmd
begin

text \<open>
  The command line: \<open>main.go\<close>, \<open>app/metainfo/meta.go\<close>, the command objects of
  \<open>app/cmd/cmd.go\<close>, and the example profile \<open>internal/profile/configv1.yaml\<close> that the
  command \<open>generate\<close> prints.

  cobra is a library. What it makes of the arguments is a parameter, a function from the names
  of the commands and their flags and the arguments to a value of \<open>parsed\<close>; what it does with
  the command objects then is written out. Help texts are not modelled; what a command prints
  itself is its result, as a list of lines.
\<close>

section \<open>Build information\<close>

record metainfo =
  Version :: string
  BuildTime :: string
  ShaVer :: string

definition metainfo_vars :: metainfo where
  "metainfo_vars = \<lparr>Version = ''dev-build'', BuildTime = [], ShaVer = ''undefined''\<rparr>"

text \<open>\<open>init\<close>; \<open>now\<close> is the time the process starts, as RFC 3339 writes it.\<close>

definition metainfo_init :: "string \<Rightarrow> metainfo \<Rightarrow> metainfo" where
  "metainfo_init now m = (if BuildTime m = [] then m\<lparr>BuildTime := now\<rparr> else m)"

text \<open>
  What the process is started with: the variables as the linker left them (\<open>metainfo_vars\<close>
  unless it was told otherwise), the time, the version of the compiler, and whether the
  standard output is a terminal.
\<close>

record process =
  linked :: metainfo
  started :: string
  go_version :: string
  is_tty :: bool


section \<open>The example profile\<close>

definition configV1Yaml :: "string list" where
  "configV1Yaml =
    [''---'',
     ''version: 1'',
     ''name: \"\" # profile name'',
     ''# type of action: local, remote, sftpsync'',
     ''# local: will backup local dirs and DBs into a file'',
     ''# remote: uses an ssh shell to copy remote dirs and DBs into a local file'',
     ''# sftpsync: allows to sync remote backup files, stored in a path into a local path'',
     ''type: \"local\"'',
     [],
     ''# dirs is a list of define the directories the profile acts on'',
     ''dirs:'',
     ''  # the path defines the source to backup / sync'',
     ''  - path: \"/some/path\"'',
     ''    # exxlude defines a list of glob patters to exclude from the backup'',
     ''    exclude:'',
     ''      - \"*.log\"'',
     ''    # name is ONLY used for sftpsync and is the name of the profile'',
     ''    # to sync from the remote to the local path'',
     ''    name:'',
     ''# dbs: defines a list of Databases to include in the backup'',
     ''dbs:'',
     ''  # name defined the database name'',
     ''  - name: dbname'',
     ''    # the type defines the DB implementation:'',
     ''    # * mysql/mariadb => run mysqldump'',
     ''    # * dockerMysql/DockerMariadb => run mysqldump from within a container name'',
     ''    # * postgres => run pg_dump'',
     ''    # * dockerPostgres => run pg_dump from within a docker container'',
     ''    #'',
     ''    # NOTE this requrires to have mysqdump installed on the machine where the backup runs'',
     ''    type: Mysql # explicitly making it the first letter upper case to test proper handling'',
     ''    # user | password (optional) if set, it will use this credentials to run mysqldump'',
     ''    # if they are not set, goback will try to read .my.cnf,  e.g. /etc/my.cnf'',
     ''    # or use the default socket auth.'',
     ''    user: \"myUser\"'',
     ''    password: \"myPW\"'',
     ''    # the container name where to run the dump'',
     ''    containerName: \"\"'',
     [],
     ''# in case of remote or sftpsync the ssh config is required.'',
     ''ssh:'',
     ''  # type defines the type of ssh authentication possible values are:'',
     ''  # password: use username + password'',
     ''  # sshkey: use a private kye'',
     ''  # useragent: assumes a running ssh user-agent with the key loaded.'',
     ''  type: password'',
     ''  # host where to connect to'',
     ''  host: bla.ble.com'',
     ''  # ssh port: default is 22'',
     ''  port: 22'',
     ''  # username | password in case of password auth'',
     ''  user: user'',
     ''  password: bla'',
     ''  # private key in case of sshkey auth'',
     ''  privateKey: privKey'',
     ''  # passphrase used in the private key'',
     ''  passphrase: pass'',
     [],
     [],
     ''# this is the destination where the backup file will be written'',
     ''# only local filesystem is allowed'',
     ''destination:'',
     ''  path:   \"/backups\"'',
     ''  # how many older backups to keep for this profile'',
     ''  # this also affects the output of a synced directory'',
     ''  # it can be set to -1 to disable'',
     ''  keep: 3'',
     ''  #change owner/mode of the generated file'',
     ''  owner: \"ble\"'',
     ''  mode : \"0600\"'',
     [],
     ''# notify per email if a profile was successful or not, every profile can setup an independent notification;'',
     ''# this is useful if you want to notify other users that a backup completed.'',
     ''# an notification will always be sent on error, set onSuccess to true to also get a notification in case of success.'',
     ''notify:'',
     ''  onSuccess: false'',
     ''  host: smtp.mail.com'',
     ''  port: 587'',
     ''  user: mail@mail.com'',
     ''  password: 1234'',
     ''  from: noreply@mail.com'',
     ''  to:'',
     ''    - mail1@mail.com'',
     ''    - mail2@mail.com'']"

definition ConfigV1 :: string where
  "ConfigV1 = str_join [CHR 0x0A] configV1Yaml"


section \<open>Commands\<close>

text \<open>
  A \<open>cobra.Command\<close>: without a rule for the arguments any are accepted. \<open>loglevel_flag\<close> is the
  default of the flag \<open>--loglevel\<close> of a command that has it, \<open>hidden\<close> are the flags its help
  leaves out before it calls the parent's. \<open>Run\<close> gets the value of the flag.
\<close>

datatype PositionalArgs = AnyArgs | ExactArgs nat

record command =
  Use :: string
  Short :: string
  Long :: string
  Args :: PositionalArgs
  loglevel_flag :: "string option"
  hidden :: "string list"
  RunE :: "string \<Rightarrow> string list \<Rightarrow> (world, string list) go"

record root_command =
  rootCmd :: command
  SortFlags :: bool
  SilenceUsage :: bool
  FlagErrorFunc :: "goerr \<Rightarrow> (world, string list) go"
  subcommands :: "command list"

definition backupCmd :: "env \<Rightarrow> bool \<Rightarrow> command" where
  "backupCmd E tty =
     \<lparr>Use = ''backup'', Short = ''backup a profile or a directory'', Long = ''backup a profile or a directory'',
      Args = ExactArgs 1, loglevel_flag = Some ''info'', hidden = [''pers''],
      RunE = (\<lambda>loglevel args. bnd (backup_RunE E tty loglevel args) (\<lambda>_. ret []))\<rparr>"

definition validateCmd :: "env \<Rightarrow> bool \<Rightarrow> command" where
  "validateCmd E tty =
     \<lparr>Use = ''validate'', Short = ''validate a profile or a directory '', Long = ''validate a profile or a directory '',
      Args = ExactArgs 1, loglevel_flag = Some ''info'', hidden = [''pers''],
      RunE = (\<lambda>loglevel args. bnd (validate_RunE E tty loglevel args) (\<lambda>_. ret []))\<rparr>"

definition generateCmd :: command where
  "generateCmd =
     \<lparr>Use = ''generate'', Short = ''generate a profile file'', Long = ''generate a profile file'',
      Args = AnyArgs, loglevel_flag = None, hidden = [''pers''],
      RunE = (\<lambda>loglevel args. ret [ConfigV1])\<rparr>"

definition versionCmd :: "metainfo \<Rightarrow> string \<Rightarrow> command" where
  "versionCmd m go =
     \<lparr>Use = ''version'', Short = ''version '', Long = ''version long'',
      Args = AnyArgs, loglevel_flag = None, hidden = [''pers''],
      RunE = (\<lambda>loglevel args. ret
        [''Version: '' @ Version m, ''Build date: '' @ BuildTime m, ''Commit sha: '' @ ShaVer m, ''Compiler: '' @ go])\<rparr>"

text \<open>Without a command the help is shown; so it is when the flags are wrong, which is then no error.\<close>

definition newRootCommand :: "env \<Rightarrow> bool \<Rightarrow> metainfo \<Rightarrow> string \<Rightarrow> root_command" where
  "newRootCommand E tty m go =
     \<lparr>rootCmd = \<lparr>Use = ''goback'', Short = ''goback is a simple backup tool'',
        Long = ''goback is an opinionated tool to backup data from different sources like file system directories, mysql databases'',
        Args = AnyArgs, loglevel_flag = None, hidden = [],
        RunE = (\<lambda>loglevel args. ret [])\<rparr>,
      SortFlags = False, SilenceUsage = True,
      FlagErrorFunc = (\<lambda>err. ret []),
      subcommands = [versionCmd m go, generateCmd, backupCmd E tty, validateCmd E tty]\<rparr>"


section \<open>Running\<close>

text \<open>
  What cobra makes of the arguments: an error of its own (there is no such command), an error
  in the flags of a command, a request for help or one of the commands cobra adds, which only
  print, or a command with the value given to its flag and its arguments.
\<close>

datatype parsed =
  NoCommand goerr
| BadFlags goerr
| HelpWanted
| Found string "string option" "string list"

type_synonym parser = "(string \<times> string option) list \<Rightarrow> string list \<Rightarrow> parsed"

definition shape :: "root_command \<Rightarrow> (string \<times> string option) list" where
  "shape r = map (\<lambda>c. (Use c, loglevel_flag c)) (rootCmd r # subcommands r)"

definition ValidateArgs :: "command \<Rightarrow> string list \<Rightarrow> goerr option" where
  "ValidateArgs c args =
     (case Args c of AnyArgs \<Rightarrow> None
      | ExactArgs n \<Rightarrow> if length args \<noteq> n
          then Some (ErrNew (''accepts '' @ show_nat n @ '' arg(s), received '' @ show_nat (length args)))
          else None)"

definition run_command :: "command \<Rightarrow> string option \<Rightarrow> string list \<Rightarrow> (world, string list) go" where
  "run_command c flag args =
     (let loglevel = case flag of Some l \<Rightarrow> l | None \<Rightarrow> (case loglevel_flag c of Some l \<Rightarrow> l | None \<Rightarrow> []) in
      bnd (check_err (ValidateArgs c args)) (\<lambda>_. RunE c loglevel args))"

definition cobra_Execute :: "parser \<Rightarrow> root_command \<Rightarrow> string list \<Rightarrow> (world, string list) go" where
  "cobra_Execute parse r argv =
     (case parse (shape r) argv of
        NoCommand e \<Rightarrow> throw e
      | BadFlags e \<Rightarrow> FlagErrorFunc r e
      | HelpWanted \<Rightarrow> ret []
      | Found name flag args \<Rightarrow>
         (case List.find (\<lambda>c. Use c = name) (rootCmd r # subcommands r) of
            None \<Rightarrow> throw (ErrNew (''unknown command '' @ name))
          | Some c \<Rightarrow> run_command c flag args))"

text \<open>\<open>Execute\<close> and \<open>main\<close>: the exit code, what was printed, and the state.\<close>

definition Execute :: "parser \<Rightarrow> root_command \<Rightarrow> string list \<Rightarrow> world \<Rightarrow> nat \<times> string list \<times> world" where
  "Execute parse r argv w =
     (case cobra_Execute parse r argv w of (res, v) \<Rightarrow> (exit_code res, case res of Ok out \<Rightarrow> out | _ \<Rightarrow> [], v))"

definition main :: "parser \<Rightarrow> env \<Rightarrow> process \<Rightarrow> string list \<Rightarrow> world \<Rightarrow> nat \<times> string list \<times> world" where
  "main parse E proc argv w =
     (let m = metainfo_init (started proc) (linked proc)
      in Execute parse (newRootCommand E (is_tty proc) m (go_version proc)) argv w)"

text \<open>
  What is relied on of cobra: a name of a command followed by arguments that do not look like
  flags is found as such.
\<close>

definition plain_arg :: "string \<Rightarrow> bool" where
  "plain_arg a \<longleftrightarrow> \<not> has_prefix a ''-''"

definition finds_commands :: "parser \<Rightarrow> bool" where
  "finds_commands parse \<longleftrightarrow>
     (\<forall>r subs name args. name \<in> fst ` set subs \<and> list_all plain_arg args \<longrightarrow>
        parse (r # subs) (name # args) = Found name None args)"

text \<open>A parser for the flags the program has.\<close>

fun scan_args :: "bool \<Rightarrow> string list \<Rightarrow> parsed + string option \<times> string list" where
  "scan_args l [] = Inr (None, [])"
| "scan_args l [a] =
    (if a = ''-h'' \<or> a = ''--help'' then Inl HelpWanted
     else if l \<and> (a = ''-l'' \<or> a = ''--loglevel'') then Inl (BadFlags (ErrNew (''flag needs an argument: '' @ a)))
     else if has_prefix a ''-'' then Inl (BadFlags (ErrNew (''unknown flag: '' @ a)))
     else Inr (None, [a]))"
| "scan_args l (a # b # xs) =
    (if a = ''-h'' \<or> a = ''--help'' then Inl HelpWanted
     else if l \<and> (a = ''-l'' \<or> a = ''--loglevel'') then
       map_sum id (\<lambda>(f, ys). (case f of None \<Rightarrow> Some b | Some v \<Rightarrow> Some v, ys)) (scan_args l xs)
     else if has_prefix a ''-'' then Inl (BadFlags (ErrNew (''unknown flag: '' @ a)))
     else map_sum id (\<lambda>(f, ys). (f, a # ys)) (scan_args l (b # xs)))"

definition ref_parser :: parser where
  "ref_parser tree argv =
     (case argv of
        [] \<Rightarrow> Found (fst (hd tree)) None []
      | name # rest \<Rightarrow>
         (case map_of (tl tree) name of
            None \<Rightarrow> (case scan_args False [name] of
               Inl p \<Rightarrow> p
             | Inr _ \<Rightarrow> if name = ''help'' then HelpWanted else NoCommand (ErrNew (''unknown command '' @ name)))
          | Some flag \<Rightarrow> (case scan_args (flag \<noteq> None) rest of Inl p \<Rightarrow> p | Inr (f, args) \<Rightarrow> Found name f args)))"

lemma scan_plain: "list_all plain_arg args \<Longrightarrow> scan_args l args = Inr (None, args)"
  by (induction l args rule: scan_args.induct) (auto simp: plain_arg_def has_prefix_def)

lemma ref_parser_finds: "finds_commands ref_parser"
proof -
  have "ref_parser (r # subs) (name # args) = Found name None args"
    if n: "name \<in> fst ` set subs" and a: "list_all plain_arg args" for r subs name args
  proof -
    obtain flag where "map_of subs name = Some flag" using n by (metis map_of_eq_None_iff not_None_eq)
    then show ?thesis using scan_plain [OF a] by (simp add: ref_parser_def)
  qed
  then show ?thesis by (simp add: finds_commands_def)
qed


section \<open>What a command line can do\<close>

definition command_tree :: "(string \<times> string option) list" where
  "command_tree =
     [(''goback'', None), (''version'', None), (''generate'', None), (''backup'', Some ''info''), (''validate'', Some ''info'')]"

text \<open>The commands by what cobra sees of them, and by what they run.\<close>

lemma command_parts [simp]:
  "Use (backupCmd E tty) = ''backup''" "Use (validateCmd E tty) = ''validate''"
  "Use generateCmd = ''generate''" "Use (versionCmd m go) = ''version''"
  "loglevel_flag (backupCmd E tty) = Some ''info''" "loglevel_flag (validateCmd E tty) = Some ''info''"
  "loglevel_flag generateCmd = None" "loglevel_flag (versionCmd m go) = None"
  "Use (rootCmd (newRootCommand E tty m go)) = ''goback''"
  "loglevel_flag (rootCmd (newRootCommand E tty m go)) = None"
  "subcommands (newRootCommand E tty m go) = [versionCmd m go, generateCmd, backupCmd E tty, validateCmd E tty]"
  "FlagErrorFunc (newRootCommand E tty m go) = (\<lambda>err. ret [])"
  by (simp_all add: newRootCommand_def backupCmd_def validateCmd_def generateCmd_def versionCmd_def)

lemma shape_root [simp]: "shape (newRootCommand E tty m go) = command_tree"
  by (simp add: shape_def command_tree_def)

lemma run_any [simp]:
  "run_command (rootCmd (newRootCommand E tty m go)) flag args = ret []"
  "run_command generateCmd flag args = ret [ConfigV1]"
  "\<exists>out. run_command (versionCmd m go) flag args = ret out"
  by (simp_all add: run_command_def newRootCommand_def generateCmd_def versionCmd_def ValidateArgs_def
      check_err_def Let_def bnd_OkI fun_eq_iff ret_def bnd_def)

lemma run_one:
  "run_command (backupCmd E tty) flag args =
     (if length args = 1 then bnd (backup_RunE E tty (case flag of Some l \<Rightarrow> l | None \<Rightarrow> ''info'') args) (\<lambda>_. ret [])
      else throw (ErrNew (''accepts 1 arg(s), received '' @ show_nat (length args))))"
  "run_command (validateCmd E tty) flag args =
     (if length args = 1 then bnd (validate_RunE E tty (case flag of Some l \<Rightarrow> l | None \<Rightarrow> ''info'') args) (\<lambda>_. ret [])
      else throw (ErrNew (''accepts 1 arg(s), received '' @ show_nat (length args))))"
proof -
  have "show_nat 1 = ''1''" by code_simp
  then show
    "run_command (backupCmd E tty) flag args =
       (if length args = 1 then bnd (backup_RunE E tty (case flag of Some l \<Rightarrow> l | None \<Rightarrow> ''info'') args) (\<lambda>_. ret [])
        else throw (ErrNew (''accepts 1 arg(s), received '' @ show_nat (length args))))"
    "run_command (validateCmd E tty) flag args =
       (if length args = 1 then bnd (validate_RunE E tty (case flag of Some l \<Rightarrow> l | None \<Rightarrow> ''info'') args) (\<lambda>_. ret [])
        else throw (ErrNew (''accepts 1 arg(s), received '' @ show_nat (length args))))"
    by (cases flag; simp_all add: run_command_def backupCmd_def validateCmd_def ValidateArgs_def check_err_def
        fun_eq_iff ret_def bnd_def throw_def)+
qed

lemma main_eq:
  "main parse E proc argv w =
     (case cobra_Execute parse (newRootCommand E (is_tty proc) (metainfo_init (started proc) (linked proc)) (go_version proc))
        argv w of (res, v) \<Rightarrow> (exit_code res, case res of Ok out \<Rightarrow> out | _ \<Rightarrow> [], v))"
  by (simp add: main_def Execute_def Let_def)

text \<open>A command with one argument: its result is that of its body.\<close>

lemma cobra_backup:
  assumes "parse command_tree argv = Found ''backup'' flag [file]"
  shows "cobra_Execute parse (newRootCommand E tty m go) argv =
    bnd (backup_RunE E tty (case flag of Some l \<Rightarrow> l | None \<Rightarrow> ''info'') [file]) (\<lambda>_. ret [])"
  using assms by (simp add: cobra_Execute_def run_one)

lemma cobra_validate:
  assumes "parse command_tree argv = Found ''validate'' flag [file]"
  shows "cobra_Execute parse (newRootCommand E tty m go) argv =
    bnd (validate_RunE E tty (case flag of Some l \<Rightarrow> l | None \<Rightarrow> ''info'') [file]) (\<lambda>_. ret [])"
  using assms by (simp add: cobra_Execute_def run_one)

text \<open>Every other command line, with what it ends with.\<close>

lemma cobra_quiet:
  assumes "\<nexists>flag file. parse command_tree argv \<in> {Found ''backup'' flag [file], Found ''validate'' flag [file]}"
  shows "\<exists>res. cobra_Execute parse (newRootCommand E tty m go) argv w = (res, w) \<and>
    (case parse command_tree argv of
       NoCommand e \<Rightarrow> res = Fail e
     | BadFlags e \<Rightarrow> res = Ok []
     | HelpWanted \<Rightarrow> res = Ok []
     | Found name flag args \<Rightarrow>
         (if name = ''goback'' then res = Ok []
          else if name = ''generate'' then res = Ok [ConfigV1]
          else if name = ''version'' then \<exists>out. res = Ok out
          else \<exists>e. res = Fail e))"
proof (cases "parse command_tree argv")
  case (Found name flag args)
  then have n: "name = ''backup'' \<or> name = ''validate'' \<Longrightarrow> length args \<noteq> 1" using assms by (auto simp: length_Suc_conv)
  obtain out where "run_command (versionCmd m go) flag args = ret out" using run_any(3) by blast
  with n Found show ?thesis
    by (simp add: cobra_Execute_def run_one) (auto simp: ret_def throw_def)
qed (simp_all add: cobra_Execute_def ret_def throw_def)

text \<open>
  C16. Only \<open>backup\<close> with exactly one argument can change a file, whatever the environment does
  and however cobra reads the command line. A wrong number of arguments is exit code 1; wrong
  flags only show the help and end with exit code 0, so a backup that was asked for with a
  mistyped flag is not made and reported as a success; \<open>generate\<close> prints the example profile.
\<close>

theorem only_backup_changes_files:
  assumes "main parse E proc argv w = (code, out, v)"
    and "\<nexists>flag file. parse command_tree argv = Found ''backup'' flag [file]"
  shows "fs v = fs w \<and>
    (case parse command_tree argv of
       NoCommand e \<Rightarrow> code = 1
     | BadFlags e \<Rightarrow> code = 0 \<and> v = w
     | HelpWanted \<Rightarrow> code = 0
     | Found name flag args \<Rightarrow>
         (name \<in> {''backup'', ''validate''} \<and> length args \<noteq> 1 \<longrightarrow> code = 1) \<and>
         (name = ''generate'' \<longrightarrow> code = 0 \<and> out = [ConfigV1]))"
proof (cases "\<exists>flag file. parse command_tree argv = Found ''validate'' flag [file]")
  case True
  then obtain l path where p: "parse command_tree argv = Found ''validate'' l [path]" by blast
  have "effects (keeps fs) (cobra_Execute parse (newRootCommand E tty m go) argv)" for tty m go
    unfolding cobra_validate [of parse, OF p] by (intro kp.keeps_bnd validate_keeps kp.keeps_ret)
  from effects_snd [OF this] show ?thesis
    using assms(1) p by (auto simp: main_eq keeps_def split: prod.splits) (metis snd_conv)
next
  case False
  then have "\<nexists>flag file. parse command_tree argv \<in> {Found ''backup'' flag [file], Found ''validate'' flag [file]}"
    using assms(2) by blast
  note quiet = cobra_quiet [of parse, OF this]
  obtain res where "code = exit_code res" "out = (case res of Ok out \<Rightarrow> out | _ \<Rightarrow> [])" "v = w"
      "case parse command_tree argv of
         NoCommand e \<Rightarrow> res = Fail e
       | BadFlags e \<Rightarrow> res = Ok []
       | HelpWanted \<Rightarrow> res = Ok []
       | Found name flag args \<Rightarrow>
           (if name = ''goback'' then res = Ok []
            else if name = ''generate'' then res = Ok [ConfigV1]
            else if name = ''version'' then \<exists>out. res = Ok out
            else \<exists>e. res = Fail e)"
    using quiet [of E "is_tty proc" "metainfo_init (started proc) (linked proc)" "go_version proc" w] assms(1)
    by (auto simp: main_eq)
  then show ?thesis by (cases "parse command_tree argv") auto
qed

theorem only_backup_changes_files_witness:
  "\<exists>out v. main ref_parser ref_env \<lparr>linked = metainfo_vars, started = [], go_version = [], is_tty = False\<rparr>
     [''backup'', ''--log'', ''/p.yaml''] load_world = (0, out, v) \<and> fs v = fs load_world"
proof -
  obtain code out v where m: "main ref_parser ref_env \<lparr>linked = metainfo_vars, started = [], go_version = [], is_tty = False\<rparr>
      [''backup'', ''--log'', ''/p.yaml''] load_world = (code, out, v)"
    by (rule prod_cases3)
  have p: "ref_parser command_tree [''backup'', ''--log'', ''/p.yaml''] = BadFlags (ErrNew ''unknown flag: --log'')"
    by code_simp
  show ?thesis using only_backup_changes_files [OF m] m p by simp
qed

end
