(* ===== verification/Composed.thy ===== *)
theory Composed
  imports LocalRun WellFormed Network RemoteWalk Cli
begin

text \<open>
  The parts together: the command \<open>backup\<close> on the file of a local profile, from the command
  line to the archive in the destination.
\<close>

section \<open>One profile\<close>

lemma RunProfile_local:
  assumes "prf_Type p = TypeLocal" and "runLocalProfile E p (tock w) = (Ok (), v)"
  shows "\<exists>u. RunProfile E p w = (Ok (), u) \<and> fs u = fs v \<and> handles u = handles v"
proof -
  obtain w' where w': "RunWithNotify E p (runLocalProfile E) (tock w) = (Ok (), w')"
      "w' = v\<lparr>tick := tick w', mails := mails w'\<rparr>"
    using RunWithNotify_run [where runFn = "runLocalProfile E" and p = p and E = E, OF assms(2)] by auto
  have "RunProfile E p w = (Ok (), tock w')"
    using assms(1) w'(1) by (simp add: RunProfile_def Let_def bnd_time_now bnd_OkI map_err_OkI ret_def)
  moreover have "fs w' = fs v" "handles w' = handles v" by (subst w'(2), simp)+
  ultimately show ?thesis by auto
qed

lemma Run_one:
  assumes "RunProfile E p w = (Ok (), v)" shows "Runner.Run E \<lparr>profiles = [p]\<rparr> w = (Ok (), v)"
  using assms by (simp add: Runner.Run_def run_next_def bnd_def attempt_def ret_def)

text \<open>The command, up to the run of the profile it loaded.\<close>

lemma backup_file:
  assumes "os_stat E (abs_path (wd E) arg) w = (Ok i, w0)" and "\<not> IsDir i"
    and "LoadProfile E (abs_path (wd E) arg) w0 = (Ok p, u)"
  shows "backup_RunE E tty l [arg] w = Runner.Run E \<lparr>profiles = [p]\<rparr> u \<and> fs u = fs w \<and> handles u = handles w"
proof -
  have "ticked w w0" using effectsD [OF effects_os_stat assms(1)] .
  moreover have "ticked w0 u" using effectsD [OF effects_LoadProfile assms(3)] .
  ultimately have "ticked w u" by (rule tk.rel_trans)
  then show ?thesis
    using assms
    by (simp add: ticked_fields backup_RunE_def on_path_one backupFromFile_def LoadProfileFile_def
        bnd_def ret_def)
qed

lemma main_backup:
  assumes "finds_commands parse" and "plain_arg arg" and "\<And>l. backup_RunE E (is_tty proc) l [arg] w = (Ok (), v)"
  shows "main parse E proc [''backup'', arg] w = (0, [], v)"
proof -
  have "parse command_tree [''backup'', arg] = Found ''backup'' None [arg]"
    using assms(1,2) by (simp add: finds_commands_def command_tree_def)
  from cobra_backup [of parse, OF this] show ?thesis
    using assms(3) by (simp add: main_eq bnd_def ret_def)
qed


text \<open>A profile in a file beside the directory it backs up and the destination.\<close>

definition cmd_values :: profileV1 where
  "cmd_values = empty_profile\<lparr>v1_Name := ''a'', v1_Type := ''Local'',
     v1_Dirs := [\<lparr>d1_Path = ''/d'', d1_Name = [], d1_Exclude = []\<rparr>],
     v1_Destination := \<lparr>dest_Path = ''/b'', dest_Keep = 0, dest_Owner = [], dest_Mode = ''640''\<rparr>\<rparr>"

definition cmd_env :: env where
  "cmd_env = local_env\<lparr>yaml_v1 := (\<lambda>s. Inr cmd_values)\<rparr>"

definition cmd_world :: world where
  "cmd_world = world_of [([''b''], Dir), ([''d''], Dir), ([''d'', ''x''], plain_file ''X''), ([''p.yaml''], plain_file ''P'')]"

definition cmd_profile :: Profile where
  "cmd_profile = completed cmd_env cmd_values"

abbreviation cmd_dir :: BackupPath where
  "cmd_dir \<equiv> \<lparr>bp_Path = ''/d'', bp_Name = [], bp_Exclude = []\<rparr>"

lemma cmd_at: "node_at cmd_world k = (if k = [] \<or> k = [''b''] \<or> k = [''d''] then Some Dir
    else if k = [''d'', ''x''] then Some (plain_file ''X'')
    else if k = [''p.yaml''] then Some (plain_file ''P'') else None)"
  by (simp add: cmd_world_def node_at_world_of)

lemma cmd_env_simps [simp]:
  "clock cmd_env = (\<lambda>t. DTime 4 1 1 0 0 0)" "wd cmd_env = []" "no_faults cmd_env"
  "yaml_v1 cmd_env = (\<lambda>s. Inr cmd_values)" "yaml_version cmd_env = (\<lambda>s. Inr 1)"
  "new_meta cmd_env m = \<lparr>m_uid = 0, m_gid = 0, m_mode = Bit_Operations.and m (Bit_Operations.not 18)\<rparr>"
  by (simp_all add: cmd_env_def local_env_def ref_env_def no_faults_def new_meta_def)

lemma cmd_profile_simps [simp]:
  "prf_Name cmd_profile = ''a''" "prf_Type cmd_profile = TypeLocal" "prf_Dirs cmd_profile = [cmd_dir]"
  "prf_Dbs cmd_profile = []"
  "prf_Destination cmd_profile = \<lparr>dest_Path = ''/b'', dest_Keep = 0, dest_Owner = [], dest_Mode = ''640''\<rparr>"
proof -
  have "to_lower ''Local'' = TypeLocal" by code_simp
  then show "prf_Name cmd_profile = ''a''" "prf_Type cmd_profile = TypeLocal" "prf_Dirs cmd_profile = [cmd_dir]"
    "prf_Dbs cmd_profile = []"
    "prf_Destination cmd_profile = \<lparr>dest_Path = ''/b'', dest_Keep = 0, dest_Owner = [], dest_Mode = ''640''\<rparr>"
    by (simp_all add: cmd_profile_def completed_def Let_def cmd_values_def empty_profile_def)
qed

lemma cmd_keys:
  "key_of [] ''/b'' = [''b'']" "key_of [] ''/d'' = [''d'']" "key_of [] ''/p.yaml'' = [''p.yaml'']"
  "abs_path [] ''/p.yaml'' = ''/p.yaml''" "ext ''/p.yaml'' = ''.yaml''"
  by code_simp+

lemma cmd_loads:
  "\<exists>u. os_stat cmd_env ''/p.yaml'' cmd_world = (Ok \<lparr>fi_name = base ''/p.yaml'', fi_kind = KFile\<rparr>, tock cmd_world) \<and>
     LoadProfile cmd_env ''/p.yaml'' (tock cmd_world) = (Ok cmd_profile, u) \<and> u = cmd_world\<lparr>tick := tick u\<rparr>"
proof -
  have p: "path_ok ''/p.yaml''" by (simp add: path_ok_def path_max_def)
  have n: "node_at w (key_of (wd cmd_env) ''/p.yaml'') = Some (File (Raw ''P'') (new_meta ref_env 438))"
    if "w = cmd_world \<or> w = tock cmd_world" for w
    using that by (auto simp: cmd_keys cmd_at plain_file_def)
  have s: "os_stat cmd_env ''/p.yaml'' cmd_world =
      (Ok \<lparr>fi_name = base ''/p.yaml'', fi_kind = KFile\<rparr>, tock cmd_world)"
    using os_stat_run [OF cmd_env_simps(3) p] n by simp
  have acc: "acceptable cmd_env cmd_values"
  proof -
    have "to_lower ''Local'' = TypeLocal" by code_simp
    then show ?thesis
      by (simp add: acceptable_def cmd_values_def empty_profile_def dir_acceptable_def Let_def)
  qed
  then have "loadProfileV1 cmd_env ''P'' = Inr cmd_profile" by (simp add: loadProfileV1_iff cmd_profile_def)
  moreover have "fst (os_read_file cmd_env ''/p.yaml'' (tock cmd_world)) = Ok (Raw ''P'')"
    using os_read_file_run [OF cmd_env_simps(3) p n] by simp
  ultimately have "fst (LoadProfile cmd_env ''/p.yaml'' (tock cmd_world)) = Ok cmd_profile"
    by (simp add: LoadProfile_fst cmd_keys getVersion_def)
  then obtain u where u: "LoadProfile cmd_env ''/p.yaml'' (tock cmd_world) = (Ok cmd_profile, u)"
    by (cases "LoadProfile cmd_env ''/p.yaml'' (tock cmd_world)") simp
  have "ticked cmd_world u" using effectsD [OF effects_LoadProfile u] ticked_tick tk.rel_trans by blast
  then show ?thesis using s u by (auto simp: ticked_def)
qed

lemma cmd_names [simp]:
  "run_zip_name cmd_env cmd_profile w = local_zip" "run_zip cmd_env cmd_profile w = path_join [''/b'', local_zip]"
  "dest_key cmd_env cmd_profile = [''b'']" "key_of [] (path_join [''/b'', local_zip]) = [''b'', local_zip]"
  using local_backups(3) by (simp_all add: run_zip_name_def run_zip_def dest_key_def local_zip_def cmd_keys key_of_join)

lemma cmd_can_archive: "can_archive cmd_env cmd_dir [''b'', local_zip] cmd_world"
proof -
  have below: "ns = [] \<or> ns = [''x'']" if "node_at cmd_world ([''d''] @ ns) \<noteq> None" for ns
    using that by (simp add: cmd_at split: if_splits)
  moreover have "path_ok (path_below ''/d'' ns)" if "ns = [] \<or> ns = [''x'']" for ns
    using that by (auto simp: files_paths path_ok_def path_max_def)
  ultimately have "paths_ok cmd_world [''d''] ''/d''"
    by (auto simp: paths_ok_def path_ok_def path_max_def)
  moreover have "archived_name cmd_dir [''x''] = ''d/x''"
    using files_names(1) by (simp add: archived_name_def files_dir_def)
  then have "path_ok (abs_path [] (path_below ''/d'' ns)) \<and> entry_name_ok (archived_name cmd_dir ns) \<and>
      (case x of Link t \<Rightarrow> (\<exists>k' n. follow link_limit cmd_world ([''d''] @ ns) = Inr k' \<and> node_at cmd_world k' = Some n)
       | _ \<Rightarrow> True)"
    if "node_at cmd_world ([''d''] @ ns) = Some x" and "x \<noteq> Dir" for ns x
    using below [of ns] that
    by (auto simp: files_paths cmd_at path_ok_def path_max_def entry_name_ok_def
        has_suffix_def abs_path_def is_abs_def has_prefix_def plain_file_def)
  moreover have "node_at cmd_world [''d''] = Some Dir" and "\<forall>ns. [''b'', local_zip] \<noteq> [''d''] @ ns"
    by (simp_all add: cmd_at)
  ultimately show ?thesis unfolding can_archive_def Let_def cmd_env_simps BackupPath.simps cmd_keys(2) by blast
qed

lemma cmd_ready: "ready cmd_env cmd_profile (cmd_world\<lparr>tick := n\<rparr>)"
proof -
  have "has_suffix (path_join [''/b'', local_zip]) ''.zip'' \<and> path_ok (path_join [''/b'', local_zip])" "path_ok ''/b''"
    by code_simp+
  moreover have "fs_wf cmd_world" by (simp add: fs_wf_def cmd_world_def plain_key_def plain_name_def)
  ultimately show ?thesis
    using cmd_can_archive local_backups(3) by (simp add: ready_def new_zip_def can_backup_def cmd_at)
qed

definition cmd_process :: process where
  "cmd_process = \<lparr>linked = metainfo_vars, started = ''2025-01-01T00:00:00Z'', go_version = ''go1.24.2'', is_tty = False\<rparr>"


end
