(* ===== verification/RemoteCopy.thy ===== *)
theory RemoteCopy
  imports Files
begin

text \<open>
  What copying a remote directory (\<open>app/goback/files.go\<close>) puts into a zip file when no call
  fails: the sftp library's walk is a sequence of paths, of which the files that no pattern
  excludes are archived.
\<close>

section \<open>A remote directory\<close>

definition remote_name :: "string \<Rightarrow> string \<Rightarrow> string" where
  "remote_name root path = path_join [base root, case rel_path root path of Inr r \<Rightarrow> r | Inl e \<Rightarrow> []]"

text \<open>The files of a walk that are copied, and their entries.\<close>

definition copied :: "BackupPath \<Rightarrow> (string \<times> (goerr + bool)) list \<Rightarrow> string list" where
  "copied dir steps =
     map fst (filter (\<lambda>(path, i). i = Inr False \<and> \<not> list_ex (\<lambda>g. g path) (bp_Exclude dir)) steps)"

definition remote_archive ::
  "BackupPath \<Rightarrow> (string \<times> (goerr + bool)) list \<Rightarrow> (string \<Rightarrow> string) \<Rightarrow> zentry list" where
  "remote_archive dir steps data =
     map (\<lambda>path. ZEntry (remote_name (bp_Path dir) path) False (Raw (data path))) (copied dir steps)"

text \<open>A file of it that can be read and has a name in the archive.\<close>

definition remote_file :: "env \<Rightarrow> string \<Rightarrow> (string \<Rightarrow> string) \<Rightarrow> string \<Rightarrow> bool" where
  "remote_file E root data path \<longleftrightarrow>
     is_abs path \<and> (\<exists>r. rel_path root path = Inr r) \<and> entry_name_ok (remote_name root path) \<and>
     (\<forall>t. sftp_open E t path = Inr (data path) \<and> sftp_read E t path = None)"

definition remote_tree ::
  "env \<Rightarrow> BackupPath \<Rightarrow> (string \<times> (goerr + bool)) list \<Rightarrow> (string \<Rightarrow> string) \<Rightarrow> bool" where
  "remote_tree E dir steps data \<longleftrightarrow>
     is_abs (bp_Path dir) \<and>
     (\<forall>t. sftp_client E t = None \<and> sftp_close E t = None \<and>
        sftp_stat E t (bp_Path dir) = Inr True \<and> sftp_walk E t (bp_Path dir) = steps) \<and>
     list_all (\<lambda>(path, i). \<exists>b. i = Inr b) steps \<and> list_all (remote_file E (bp_Path dir) data) (copied dir steps)"


section \<open>Copying it\<close>

lemma copied_simps [simp]:
  "copied dir [] = []" "copied dir ((path, Inr True) # steps) = copied dir steps"
  "copied dir ((path, Inr False) # steps) =
     (if list_ex (\<lambda>g. g path) (bp_Exclude dir) then copied dir steps else path # copied dir steps)"
  by (simp_all add: copied_def)

lemma copy_file_run:
  assumes "no_faults E" and "writing z es w" and "remote_file E root data path" and "\<not> list_ex (\<lambda>g. g path) (bp_Exclude dir)"
  shows "\<exists>v. copy_remote_step E dir z root path (Inr False) w = (Ok (), v) \<and>
    wrote z (es @ [ZEntry (remote_name root path) False (Raw (data path))]) w v"
proof -
  note f = assms(3) [unfolded remote_file_def]
  obtain r where r: "rel_path root path = Inr r" using f by blast
  then have d: "remote_name root path = path_join [base root, r]" by (simp add: remote_name_def)
  have w1: "writing z es (tock w)" using assms(2) by (simp add: writing_def)
  have "sftp_reader E path (data path) u = (Ok (Raw (data path), None), tock u)" for u
    using f by (simp add: sftp_reader_def service_def)
  then obtain v where v: "WriteFile E z (sftp_reader E path (data path)) (remote_name root path) (tock w) = (Ok (), v)"
      "wrote z (es @ [ZEntry (remote_name root path) False (Raw (data path))]) (tock w) v"
    using WriteFile_run [OF assms(1) w1, of "remote_name root path"] f by blast
  have "sftpc_Open E path w = (Ok (data path), tock w)"
    using f by (simp add: sftpc_Open_def service_sum_def service_def from_sum_def bnd_def ret_def)
  then have "copy_remote_step E dir z root path (Inr False) w = (Ok (), v)"
    using assms(4) f r v(1) d
    by (simp add: copy_remote_step_def remote_abs_def from_sum_def bnd_OkI map_err_OkI)
  then show ?thesis using wrote_trans [OF wrote_tock [OF assms(2)] v(2)] by blast
qed

lemma copy_steps_run:
  assumes "no_faults E"
  shows "writing z es w \<Longrightarrow> list_all (\<lambda>(path, i). \<exists>b. i = Inr b) steps \<Longrightarrow>
    list_all (remote_file E (bp_Path dir) data) (copied dir steps) \<Longrightarrow>
    \<exists>v. for_each steps (\<lambda>(path, i). copy_remote_step E dir z (bp_Path dir) path i) w = (Ok (), v) \<and>
      wrote z (es @ remote_archive dir steps data) w v"
proof (induction steps arbitrary: es w)
  case Nil
  then show ?case by (simp add: ret_def remote_archive_def wrote_def)
next
  case (Cons s steps)
  obtain path b where s: "s = (path, Inr b)" using Cons.prems(2) by auto
  show ?case
  proof (cases "b \<or> list_ex (\<lambda>g. g path) (bp_Exclude dir)")
    case True
    then have same: "copied dir (s # steps) = copied dir steps" using s by (cases b) simp_all
    have "copy_remote_step E dir z (bp_Path dir) path (Inr b) w = (Ok (), w)"
      using True by (cases b) (simp_all add: copy_remote_step_def ret_def)
    then show ?thesis
      using Cons.IH [OF Cons.prems(1)] Cons.prems(2,3) s same by (simp add: remote_archive_def bnd_OkI)
  next
    case False
    then have new: "copied dir (s # steps) = path # copied dir steps" using s by simp
    let ?e = "ZEntry (remote_name (bp_Path dir) path) False (Raw (data path))"
    obtain u where u: "copy_remote_step E dir z (bp_Path dir) path (Inr False) w = (Ok (), u)"
        "wrote z (es @ [?e]) w u"
      using copy_file_run [OF assms Cons.prems(1), of "bp_Path dir" data path dir] Cons.prems(3) False new by auto
    have "writing z (es @ [?e]) u" using u(2) by (simp add: wrote_def)
    from Cons.IH [OF this] obtain v where
      v: "for_each steps (\<lambda>(path, i). copy_remote_step E dir z (bp_Path dir) path i) u = (Ok (), v)"
        "wrote z ((es @ [?e]) @ remote_archive dir steps data) u v"
      using Cons.prems(2,3) new by auto
    have "wrote z (es @ remote_archive dir (s # steps) data) w v"
      using wrote_trans [OF u(2) v(2)] new by (simp add: remote_archive_def)
    then show ?thesis using u(1) v(1) s False by (simp add: bnd_OkI)
  qed
qed

text \<open>
  When no call fails and the remote directory can be walked and read, \<open>copyRemoteFiles\<close> adds
  it to the archive: every file the walk comes to and no pattern excludes becomes an entry with
  its content, under the name of the directory and its path below it, in the order of the walk.
\<close>

lemma copyRemoteFiles_run:
  assumes "no_faults E" and "conn c" and "remote_tree E dir steps data" and "writing z es w"
  shows "\<exists>w'. copyRemoteFiles E c dir z w = (Ok (), w') \<and> wrote z (es @ remote_archive dir steps data) w w'"
proof -
  note t = assms(3) [unfolded remote_tree_def]
  let ?u = "(tock w)\<lparr>sessions := sessions w + 1\<rparr>"
  let ?v = "tock (tock ?u)"
  have s: "sftp_NewClient E c w = (Ok (), ?u)"
    using assms(2) t by (simp add: sftp_NewClient_def bnd_def service_err_def service_def check_err_def ret_def
        add_sessions_def modify_def)
  have "writing z es ?v" using assms(4) by (simp add: writing_def)
  then obtain x where x: "for_each steps (\<lambda>(path, i). copy_remote_step E dir z (bp_Path dir) path i) ?v = (Ok (), x)"
      "wrote z (es @ remote_archive dir steps data) ?v x"
    using copy_steps_run [OF assms(1)] t by blast
  have body: "bnd (remote_abs E (bp_Path dir)) (\<lambda>rootDir.
        bnd (map_err (errorf_v (''error checking dir '' @ rootDir @ '', '')) (sftpc_Stat E rootDir)) (\<lambda>is_dir.
        if \<not> is_dir then throw (ErrNew ''the path is not a directory'')
        else
        bnd (service (\<lambda>t. sftp_walk E t rootDir)) (\<lambda>steps.
        for_each steps (\<lambda>(path, info). copy_remote_step E dir z rootDir path info)))) ?u = (Ok (), x)"
    using t x(1) by (simp add: remote_abs_def sftpc_Stat_def service_sum_def service_def from_sum_def
        map_err_def handle_def bnd_def ret_def)
  have "sftpc_Close E x = (Ok (), tock (x\<lparr>sessions := sessions x - 1\<rparr>))"
    using t by (simp add: sftpc_Close_def bnd_def service_err_def service_def check_err_def ret_def
        add_sessions_def modify_def)
  then have "copyRemoteFiles E c dir z w = (Ok (), tock (x\<lparr>sessions := sessions x - 1\<rparr>))"
    using s body unfolding copyRemoteFiles_def by (simp add: bnd_OkI map_err_OkI defer_errors_join_def)
  moreover have "wrote z (es @ remote_archive dir steps data) w (tock (x\<lparr>sessions := sessions x - 1\<rparr>))"
    using x(2) by (simp add: wrote_def writing_def same_keys_def)
  ultimately show ?thesis by blast
qed

text \<open>A remote directory with a file, a directory and an excluded file.\<close>

definition copy_steps :: "(string \<times> (goerr + bool)) list" where
  "copy_steps = [(''/d'', Inr True), (''/d/x'', Inr False), (''/d/y.tmp'', Inr False)]"

definition copy_env :: env where
  "copy_env = ref_env\<lparr>sftp_walk := (\<lambda>t p. copy_steps)\<rparr>"

lemma copy_archive: "remote_archive files_dir copy_steps (\<lambda>p. ''data'') = [ZEntry ''d/x'' False (Raw ''data'')]"
  and copy_tree: "remote_tree copy_env files_dir copy_steps (\<lambda>p. ''data'')"
proof -
  have c: "copied files_dir copy_steps = [''/d/x'']"
    by (simp add: copy_steps_def files_dir_def has_suffix_def)
  have n: "rel_path ''/d'' ''/d/x'' = Inr ''x'' \<and> path_join [base ''/d'', ''x''] = ''d/x''"
    by code_simp
  then have r: "remote_name ''/d'' ''/d/x'' = ''d/x''" by (simp add: remote_name_def)
  show "remote_archive files_dir copy_steps (\<lambda>p. ''data'') = [ZEntry ''d/x'' False (Raw ''data'')]"
    using r by (simp add: remote_archive_def c) (simp add: files_dir_def)
  show "remote_tree copy_env files_dir copy_steps (\<lambda>p. ''data'')"
    using n r
    by (simp add: remote_tree_def c remote_file_def copy_env_def ref_env_def entry_name_ok_def has_suffix_def
        is_abs_def has_prefix_def) (auto simp: files_dir_def copy_steps_def)
qed

end
