(* ===== verification/RemoteRun.thy ===== *)
theory RemoteRun
  imports RemoteCopy LocalRun SyncRun
begin

text \<open>
  What backing up a remote machine (\<open>backupRemote\<close> in \<open>app/goback/goback.go\<close>) writes when it is
  given the path of a zip file: the files of the remote directories and the dumps of the remote
  databases.
\<close>

section \<open>Directories\<close>

type_synonym walks = "BackupPath \<Rightarrow> (string \<times> (goerr + bool)) list"
type_synonym contents = "BackupPath \<Rightarrow> string \<Rightarrow> string"

definition remote_dirs_archive :: "walks \<Rightarrow> contents \<Rightarrow> BackupPath list \<Rightarrow> zentry list" where
  "remote_dirs_archive steps data dirs = concat (map (\<lambda>d. remote_archive d (steps d) (data d)) dirs)"

lemma copy_remote_dirs_run:
  assumes "no_faults E" and "conn c"
  shows "\<forall>d \<in> set dirs. remote_tree E d (steps d) (data d) \<Longrightarrow> writing z es w \<Longrightarrow>
    \<exists>v. for_each dirs (\<lambda>d. copyRemoteFiles E c d z) w = (Ok (), v) \<and>
      wrote z (es @ remote_dirs_archive steps data dirs) w v"
proof (induction dirs arbitrary: es w)
  case Nil
  then show ?case by (auto simp: ret_def wrote_def remote_dirs_archive_def)
next
  case (Cons d dirs)
  have d: "remote_tree E d (steps d) (data d)" and ds: "\<forall>d \<in> set dirs. remote_tree E d (steps d) (data d)"
    using Cons.prems(1) by simp_all
  obtain u where u: "copyRemoteFiles E c d z w = (Ok (), u)" "wrote z (es @ remote_archive d (steps d) (data d)) w u"
    using copyRemoteFiles_run [OF assms d Cons.prems(2)] by blast
  have "writing z (es @ remote_archive d (steps d) (data d)) u" using u(2) by (simp add: wrote_def)
  from Cons.IH [OF ds this] obtain v where
    v: "for_each dirs (\<lambda>d. copyRemoteFiles E c d z) u = (Ok (), v)"
      "wrote z ((es @ remote_archive d (steps d) (data d)) @ remote_dirs_archive steps data dirs) u v"
    by blast
  have "wrote z (es @ remote_dirs_archive steps data (d # dirs)) w v"
    using wrote_trans [OF u(2) v(2)] by (simp add: remote_dirs_archive_def)
  then show ?case using u(1) v(1) by (simp add: bnd_OkI)
qed


section \<open>Databases\<close>

text \<open>The entry of a database: all that a command on the remote machine printed, which ended well.\<close>

definition remote_dumped :: "env \<Rightarrow> BackupDb \<Rightarrow> zentry \<Rightarrow> bool" where
  "remote_dumped E db e \<longleftrightarrow> (\<exists>out. e = ZEntry (dump_entry db) False (Raw out) \<and> remote_output E out)"

lemma backupRemoteDatabase_run:
  assumes "no_faults E" and "writing z es v" and "entry_name_ok (dump_entry db)"
    and "backupRemoteDatabase E c db z v = (Ok (), v')"
  shows "\<exists>e. remote_dumped E db e \<and> wrote z (es @ [e]) v v'"
proof -
  have step: "\<exists>e. remote_dumped E db e \<and> wrote z (es @ [e]) v v'"
    if "bnd (FileWriter E z d) dump v = (Ok (), v')" and "dumper dump (remote_output E)" and "d = dump_entry db"
    for d dump
  proof -
    have "entry_name_ok d" using that(3) assms(3) by simp
    from entry_dump_run [OF that(2) assms(1,2) this that(1)] show ?thesis
      unfolding remote_dumped_def that(3) by blast
  qed
  note types = DbMysql_def DbMaria_def DbDockerMysql_def DbDockerMaria_def DbPostgres_def DbDockerPostgres_def
  note defs = dump_entry_def is_mysql_def types
  consider "db_Type db = DbMysql" | "db_Type db = DbMaria" | "db_Type db = DbDockerMaria"
    | "db_Type db = DbDockerMysql" | "db_Type db = DbPostgres" | "db_Type db = DbDockerPostgres"
    using assms(4) by (auto simp: backupRemoteDatabase_def split: if_splits)
  then show ?thesis
    using assms(4) by cases (simp_all add: backupRemoteDatabase_def types,
      (erule step, rule dumpers, simp add: defs)+)
qed

lemma remote_dbs_run:
  assumes "no_faults E" and "\<forall>db \<in> set dbs. entry_name_ok (dump_entry db)" and "writing z es v"
    and "for_each dbs (\<lambda>db. backupRemoteDatabase E c db z) v = (Ok (), v')"
  shows "\<exists>ds. list_all2 (remote_dumped E) dbs ds \<and> wrote z (es @ ds) v v'"
  using backupRemoteDatabase_run [OF assms(1)] assms(2) by (intro entries_run [OF _ assms(3,4)]) blast


section \<open>A whole backup\<close>

lemma for_each_if: "(if 0 < length xs then for_each xs f else ret ()) = for_each xs f"
  by (cases xs) simp_all

text \<open>
  C9. Given the path of a new zip file, and when no system call fails, the connection can be made
  and the remote directories can be walked and read, a remote backup archives what it should: it
  succeeds unless a dump fails, and then leaves a readable archive of the files of all remote
  directories that no pattern excludes, in the order of the walks, and one complete dump per
  database; every other file is as it was and no file stays open.
\<close>

theorem backupRemote_archives:
  assumes "no_faults E" and "ssh_works E p" and "new_zip E dest w"
    and "\<forall>d \<in> set (prf_Dirs p). remote_tree E d (steps d) (data d)"
    and "\<forall>db \<in> set (prf_Dbs p). entry_name_ok (dump_entry db)"
    and "prf_Dbs p = [] \<or> fst (backupRemote E p dest w) = Ok ()"
  shows "\<exists>w' ds m. backupRemote E p dest w = (Ok (), w') \<and> list_all2 (remote_dumped E) (prf_Dbs p) ds \<and>
    node_at w' (key_of (wd E) dest) =
      Some (File (Archive (remote_dirs_archive steps data (prf_Dirs p) @ ds) True) m) \<and>
    elsewhere (key_of (wd E) dest) w w' \<and> handles w' = handles w"
proof -
  let ?z = "\<lparr>isOpen = True, zfile = key_of (wd E) dest\<rparr>"
  let ?dbs = "\<lambda>c. for_each (prf_Dbs p) (\<lambda>db. backupRemoteDatabase E c db ?z)"
  let ?body = "\<lambda>c. defer_ignore
       (bnd (New E dest) (\<lambda>z. bnd (for_each (prf_Dirs p) (\<lambda>d. copyRemoteFiles E c d z)) (\<lambda>_.
        bnd (for_each (prf_Dbs p) (\<lambda>db. backupRemoteDatabase E c db z)) (\<lambda>_. bnd (Close E z) (\<lambda>_. ret ())))))
       (Disconnect E c)"
  obtain c u where u: "backupRemote E p dest w = ?body c u" "conn c" "fs u = fs w" "handles u = handles w"
    using ssh_works_run [OF assms(2), of "errorf_v ''error creating ssh client: ''"
      "errorf_v ''error connecting ssh: ''" ?body w]
    unfolding backupRemote_def for_each_if by auto
  have at: "node_at u = node_at w" using u(3) by (simp add: node_at_def fun_eq_iff)
  obtain v where v: "New E dest u = (Ok ?z, v)" "writing ?z [] v" "handles v = handles w + 1"
      "elsewhere (zfile ?z) u v"
    using New_run [OF assms(1), of dest u] assms(3) u(4) at unfolding new_zip_def elsewhere_def by auto
  obtain x where x: "for_each (prf_Dirs p) (\<lambda>d. copyRemoteFiles E c d ?z) v = (Ok (), x)"
      "wrote ?z ([] @ remote_dirs_archive steps data (prf_Dirs p)) v x"
    using copy_remote_dirs_run [OF assms(1) u(2) assms(4) v(2)] by blast
  obtain y where y: "?dbs c x = (Ok (), y)"
  proof (cases "?dbs c x")
    case (Pair r y)
    have "r = Ok ()"
    proof (cases "prf_Dbs p = []")
      case True
      then show ?thesis using Pair by (simp add: ret_def)
    next
      case False
      then have "fst (?body c u) = Ok ()" using assms(6) u(1) by simp
      then show ?thesis
        using v(1) x(1) Pair by (cases r) (auto simp: bnd_def defer_ignore_def split: prod.splits res.splits)
    qed
    then show ?thesis using Pair that by blast
  qed
  have "writing ?z (remote_dirs_archive steps data (prf_Dirs p)) x" using x(2) by (simp add: wrote_def)
  from remote_dbs_run [OF assms(1,5) this y] obtain ds where
    ds: "list_all2 (remote_dumped E) (prf_Dbs p) ds" "wrote ?z (remote_dirs_archive steps data (prf_Dirs p) @ ds) x y"
    by blast
  then have "writing ?z (remote_dirs_archive steps data (prf_Dirs p) @ ds) y" by (simp add: wrote_def)
  from Close_run [OF assms(1) this] obtain t m where
    t: "Close E ?z y = (Ok (?z\<lparr>isOpen := False\<rparr>), t)" "handles t = handles y - 1"
      "node_at t (zfile ?z) = Some (File (Archive (remote_dirs_archive steps data (prf_Dirs p) @ ds) True) m)"
      "elsewhere (zfile ?z) y t"
    unfolding elsewhere_def by blast
  obtain r w' where w': "Disconnect E c t = (Ok r, w')" "fs w' = fs t" "handles w' = handles t"
    using Disconnect_works [OF u(2)] by blast
  have "backupRemote E p dest w = (Ok (), w')"
    using u(1) v(1) x(1) y t(1) w'(1) by (simp add: bnd_def defer_ignore_def ret_def)
  moreover have "node_at w' k = node_at t k" for k using w'(2) by (rule node_at_cong)
  moreover have "elsewhere (zfile ?z) w t"
    using v(4) wrote_elsewhere [OF x(2)] wrote_elsewhere [OF ds(2)] t(4) at by (simp add: elsewhere_def)
  moreover have "handles w' = handles w" using v(3) x(2) ds(2) t(2) w'(3) by (simp add: wrote_def)
  ultimately show ?thesis using ds(1) t(3) by (auto simp: elsewhere_def)
qed

text \<open>A profile with one remote directory.\<close>

definition remote_profile :: Profile where
  "remote_profile = sync_profile\<lparr>prf_Type := TypeRemote, prf_Dirs := [files_dir], prf_Dbs := []\<rparr>"

lemma remote_connects: "ssh_works copy_env remote_profile"
  by (simp add: ssh_works_def copy_env_def ref_env_def NewClient_def ssh_cfg_def remote_profile_def sync_profile_def
      GetAuthType_def auth_methods_def host_key_callback_def ignoreHostKey_def bnd_def ret_def map_err_def handle_def
      from_sum_def service_err_def service_def check_err_def Let_def)

theorem backupRemote_archives_witness:
  "\<exists>w' m. backupRemote copy_env remote_profile ''/n.zip'' files_world = (Ok (), w') \<and>
     node_at w' [''n.zip''] = Some (File (Archive [ZEntry ''d/x'' False (Raw ''data'')] True) m)"
proof -
  have k: "key_of (wd copy_env) ''/n.zip'' = [''n.zip'']" by code_simp
  have z: "new_zip copy_env ''/n.zip'' files_world"
    unfolding new_zip_def k by (simp add: has_suffix_def path_ok_def path_max_def files_world_at)
  have p: "prf_Dirs remote_profile = [files_dir]" "prf_Dbs remote_profile = []" by (simp_all add: remote_profile_def)
  have "no_faults copy_env" by (simp add: copy_env_def ref_env_def no_faults_def)
  from backupRemote_archives [OF this remote_connects z, of "\<lambda>d. copy_steps" "\<lambda>d p. ''data''"] show ?thesis
    using copy_tree copy_archive p by (auto simp: k remote_dirs_archive_def)
qed

end
