(* ===== verification/Spec2Isabelle.thy ===== *)
theory Spec2Isabelle
  imports Composed RemoteRun
begin

text \<open>
  A model of goback, a backup tool written in Go, and the theorems that make it correct. File
  names below are those of the repository; a file without a directory is in \<open>app/goback\<close>.

  \<^bold>\<open>The program.\<close> A profile is a yaml file. A \<^emph>\<open>local\<close> profile
  puts directories and database dumps of this machine into one zip file, named after the profile and the
  time, in a destination directory, sets its owner and mode and deletes the oldest backups of the
  profile. A \<^emph>\<open>remote\<close> profile does the same with the data of a machine reached over
  ssh. A \<^emph>\<open>sftpsync\<close> profile fetches the backups another machine made. The command
  \<open>backup\<close> runs one profile or all of a directory, \<open>validate\<close> only loads them,
  and a run may be announced by mail.

  \<^bold>\<open>How Go is read.\<close> A function that can fail or touch the outside world is a HOL
  function from the state to a result and a new state; the result is a value, an error or a panic
  (theory Prelude, types \<open>res\<close> and \<open>go\<close>). Bodies are written with combinators
  for \<open>if err != nil\<close>, the three ways the code defers a closing call, and loops; a function
  that returns a value \<^emph>\<open>and\<close> an error gives the pair. Errors are values with their
  text and what they wrap, as \<open>errors.Is\<close> and \<open>errors.As\<close> see them. Strings
  are lists of bytes. Structs are records with the fields of the source (prefixed where two would
  clash). File modes are words of 32 bits; \<open>int\<close> is unbounded except where the code can
  notice (\<open>strconv.Atoi\<close> and \<open>ParseUint\<close> check their limits).

  \<^bold>\<open>The outside world\<close> (World, FsLaws, FsRun). The state has a file system from
  cleaned absolute paths to directories, files and symbolic links, the number of open file handles,
  connections and sessions, the mails the server accepted and the requests sent to other machines and
  containers. The environment \<open>env\<close> holds everything the repository does not define: which
  system calls fail (\<open>fault\<close>, any choice at any call), the clock, users, the processes that
  are started, and the libraries for globs, yaml, ini files, mail, ssh, sftp and docker. Theorems speak
  of all environments, or of those where system calls do not fail (\<open>no_faults\<close>). Two laws
  are assumed of libraries: \<open>dated_glob\<close> (GoGlob), that a compiled pattern of a backup's
  name accepts the names of that form, and \<open>finds_commands\<close> (Cli), that cobra finds a
  command whose name is followed by arguments that are no flags. Both are proved for a reference written
  from the documentation, and RefEnv is an environment on which theorems with hypotheses are
  instantiated.

  \<^bold>\<open>The theories.\<close>

  \<^item> Prelude, GoStrings, GoPath, GoTime, GoGlob: errors and bodies; the parts of Go's
    \<open>strings\<close>, \<open>filepath\<close>, \<open>time\<close> and glob patterns that the code uses, with
    round trips and the laws of cleaned paths.
  \<^item> Structs: \<open>internal/profile/structs.go\<close>, and the shape of the yaml file.
  \<^item> Io, Walk: \<open>io.Copy\<close> and files as readers and writers; \<open>filepath.Walk\<close>, and that a
    walk visits every file below a directory once and in order.
  \<^item> Expurge (\<open>expurge.go\<close> and \<open>getZipName\<close>): which backups are old.
  \<^item> SftpSync (\<open>sftpsync.go\<close>): which remote backups are missing, and fetching them.
  \<^item> Zip (\<open>lib/zip/zip.go\<close>): the handler as a state machine, and what is in a zip file.
  \<^item> SshClient, Scp, RemoteWalk (\<open>lib/ssh/ssh.go\<close>, \<open>scp.go\<close>): connecting, sessions,
    remote files and the walk of a remote directory.
  \<^item> Files, RemoteCopy (\<open>files.go\<close>): copying a local or remote directory into a zip file.
  \<^item> DbExec, MysqlDump, PgDump (\<open>lib/mysqldump\<close>, \<open>lib/pgdump\<close>): the four ways to dump a
    database of each kind: here, in a container, remote, in a remote container.
  \<^item> Profile (\<open>internal/profile/profile.go\<close>), WellFormed: loading and checking profiles,
    and what the code that runs them may rely on.
  \<^item> Notify (\<open>notify.go\<close>), Backup and Runner (\<open>goback.go\<close>): mails; one backup; a run of
    each type of profile, and all runs.
  \<^item> Logger (\<open>app/logger/logger.go\<close>), Cmd and Cli (\<open>app/cmd/cmd.go\<close>, \<open>main.go\<close>,
    \<open>app/metainfo/meta.go\<close>): the level of the log; the two commands on a path; the command
    objects, the example profile and the process as a whole.
  \<^item> LocalRun, RemoteRun, SyncRun, Network, Composed: what whole runs achieve.

  \<^bold>\<open>Interfaces.\<close> \<open>effect_rel\<close> is a relation between states that bodies
  built from calls that keep it keep too; \<open>fs_rel\<close>, \<open>io_sink\<close>,
  \<open>zip_file\<close>, \<open>file_adder\<close> and \<open>dumper\<close> extend it along the calls
  of the code (a writer, the zip file, the Go interface \<open>fileAdder\<close>, the contract of a
  dump), and \<open>net_counter\<close> does so for what counts open sessions and connections. Each is
  interpreted on the definitions that provide it.

  \<^bold>\<open>What is proved.\<close> Of a whole run: \<open>goback backup\<close> on a local profile
  ends with exit code 0 and leaves a readable archive with exactly the files and dumps the profile
  names, the configured owner, mode and number of backups and nothing else changed; a local run leaves
  under the name of its backup a complete archive or nothing, whatever tools and services do; no run
  changes a file outside its own backups, whatever fails; a synchronisation keeps the newest of the
  local and remote backups; a remote backup that is given the path of a zip file archives the remote
  files and dumps; sessions and connections are released; no command line but \<open>backup\<close> with
  one argument changes a file. Of the parts: each operation on every branch, errors and panics included,
  its invariant or its refinement of a specification (age order for old backups, the preorder of a tree
  for a walk, acceptance without an order of checks for a profile), round trips of names, archives and
  listings. Where the code falls short of what it means to do, a theorem says so: a remote profile never
  succeeds (it is not given such a path), closing a zip file hides errors, a profile directory given by
  a link loads nothing, a dump of a remote database breaks at a blank in the password.

  \<^bold>\<open>Bounds and fuel.\<close> A path has fewer than 4096 bytes (\<open>path_max\<close>) and
  at most 40 links are followed (\<open>link_limit\<close>), as on Linux. Walks of the local file system
  have \<open>Suc path_max\<close> levels: every level adds at least two bytes to the path, so a longer
  path has failed before, and more levels change nothing (proved for any directory). The walk of a
  remote directory has no such bound; its fuel is enough when it is the height of the tree, and a walk
  without enough has no result. All other recursions are structural.

  \<^bold>\<open>Not modelled.\<close> Log lines; the byte format of zip files (an archive is its
  entries and whether its directory was written); links in the middle of a path; files that other
  processes change during a run; letters outside ASCII in upper and lower case; how cobra reads the
  command line (a parameter of \<open>main\<close>) and the help it prints; what the libraries of the
  log handlers do; the getters of the docker and ssh clients, whose fields are
  read directly.
\<close>

end
